(* ===== verification/Prelude.thy ===== *)
theory Prelude
  imports Main "HOL-Library.AList" "HOL-Library.Sublist" "HOL-Library.Multiset"
begin

text \<open>
  What every component of the development shares: Go's 64-bit integer
  arithmetic, Go's slices and the built-in \<open>copy\<close>, Go's maps with string keys, and the
  outcome of a method that takes locks and may panic.
\<close>

section \<open>Collections of rewrite rules\<close>

named_theorems i64_simps \<open>machine arithmetic that stays in range\<close>
named_theorems go_simps \<open>slices, copies and maps\<close>

section \<open>Bytes and strings\<close>

text \<open>
  A Go byte is an 8-bit value, and so is HOL's \<open>char\<close>; Go's \<open>[]byte\<close> and \<open>string\<close> are
  both sequences of bytes.
\<close>

type_synonym byte = char
type_synonym bytes = "byte list"

definition zero_byte :: byte where
  "zero_byte = CHR 0x00"

section \<open>64-bit integers\<close>

text \<open>
  An \<open>int64\<close> (and an \<open>int\<close> on a 64-bit platform) is an integer whose additions and
  subtractions wrap around modulo \<open>2 ^ 64\<close>.
\<close>

definition i64 :: "int \<Rightarrow> bool" where
  "i64 x \<longleftrightarrow> - 9223372036854775808 \<le> x \<and> x < 9223372036854775808"

definition wrap64 :: "int \<Rightarrow> int" where
  "wrap64 x = (x + 9223372036854775808) mod 18446744073709551616 - 9223372036854775808"

definition add64 :: "int \<Rightarrow> int \<Rightarrow> int" where
  "add64 x y = wrap64 (x + y)"

definition sub64 :: "int \<Rightarrow> int \<Rightarrow> int" where
  "sub64 x y = wrap64 (x - y)"

definition mul64 :: "int \<Rightarrow> int \<Rightarrow> int" where
  "mul64 x y = wrap64 (x * y)"

lemma i64_wrap64 [simp]: "i64 (wrap64 x)"
proof -
  have "0 \<le> (x + 9223372036854775808) mod 18446744073709551616"
    and "(x + 9223372036854775808) mod 18446744073709551616 < 18446744073709551616"
    by simp_all
  then show ?thesis unfolding i64_def wrap64_def by linarith
qed

lemma wrap64_id [i64_simps]: "i64 x \<Longrightarrow> wrap64 x = x"
  by (simp add: i64_def wrap64_def)

lemma add64_id [i64_simps]: "i64 (x + y) \<Longrightarrow> add64 x y = x + y"
  by (simp add: add64_def wrap64_id)

lemma sub64_id [i64_simps]: "i64 (x - y) \<Longrightarrow> sub64 x y = x - y"
  by (simp add: sub64_def wrap64_id)

lemma mul64_id [i64_simps]: "i64 (x * y) \<Longrightarrow> mul64 x y = x * y"
  by (simp add: mul64_def wrap64_id)

lemma i64_between [intro]: "0 \<le> x \<Longrightarrow> x \<le> y \<Longrightarrow> i64 y \<Longrightarrow> i64 x"
  by (simp add: i64_def)

lemma i64_nonneg_diff: "0 \<le> x \<Longrightarrow> 0 \<le> y \<Longrightarrow> i64 x \<Longrightarrow> i64 y \<Longrightarrow> i64 (x - y)"
  by (simp add: i64_def)

section \<open>Lists\<close>

lemma upt_ConsD:
  assumes "x # xs = [i..<n]"
  shows "x = i" and "i < n" and "xs = [Suc i..<n]"
  using assms by (cases "i < n"; simp add: upt_conv_Cons)+

section \<open>Slices\<close>

text \<open>
  \<open>go_copy dst src\<close> is the destination after Go's \<open>copy(dst, src)\<close>, which copies
  \<open>min (len dst) (len src)\<close> elements and returns that number. \<open>sub_slice xs s e\<close> is the
  content of \<open>xs[s:e]\<close> for bounds in range, and \<open>put_slice xs s e ys\<close> is \<open>xs\<close> after
  its part \<open>xs[s:e]\<close> became \<open>ys\<close>.
\<close>

definition go_copy :: "'a list \<Rightarrow> 'a list \<Rightarrow> 'a list" where
  "go_copy dst src = take (length dst) src @ drop (length src) dst"

definition copy_count :: "'a list \<Rightarrow> 'a list \<Rightarrow> nat" where
  "copy_count dst src = min (length dst) (length src)"

definition sub_slice :: "'a list \<Rightarrow> nat \<Rightarrow> nat \<Rightarrow> 'a list" where
  "sub_slice xs s e = take (e - s) (drop s xs)"

definition put_slice :: "'a list \<Rightarrow> nat \<Rightarrow> nat \<Rightarrow> 'a list \<Rightarrow> 'a list" where
  "put_slice xs s e ys = take s xs @ ys @ drop e xs"

definition slice_ok :: "int \<Rightarrow> int \<Rightarrow> nat \<Rightarrow> bool" where
  "slice_ok s e cap \<longleftrightarrow> 0 \<le> s \<and> s \<le> e \<and> e \<le> int cap"

lemma length_go_copy [simp]: "length (go_copy dst src) = length dst"
  by (simp add: go_copy_def)

lemma go_copy_same_length [go_simps]: "length src = length dst \<Longrightarrow> go_copy dst src = src"
  by (simp add: go_copy_def)

lemma go_copy_Nil [simp]: "go_copy dst [] = dst" "go_copy [] src = []"
  by (simp_all add: go_copy_def)

lemma go_copy_take [simp]: "go_copy dst (take (length dst) src) = go_copy dst src"
proof (cases "length src \<le> length dst")
  case False
  then have "drop (length (take (length dst) src)) dst = drop (length src) dst" by simp
  then show ?thesis by (simp only: go_copy_def take_take min.idem)
qed simp

lemma length_sub_slice [simp]: "length (sub_slice xs s e) = min (e - s) (length xs - s)"
  by (simp add: sub_slice_def)

lemma nth_sub_slice: "i < e - s \<Longrightarrow> s + i < length xs \<Longrightarrow> sub_slice xs s e ! i = xs ! (s + i)"
  by (simp add: sub_slice_def)

lemma sub_slice_all [simp]: "sub_slice xs 0 (length xs) = xs"
  by (simp add: sub_slice_def)

lemma length_put_slice [simp]:
  "s \<le> e \<Longrightarrow> e \<le> length xs \<Longrightarrow> length ys = e - s \<Longrightarrow> length (put_slice xs s e ys) = length xs"
  by (simp add: put_slice_def)

lemma sub_put_slice_same [go_simps]:
  "s \<le> e \<Longrightarrow> e \<le> length xs \<Longrightarrow> length ys = e - s \<Longrightarrow> sub_slice (put_slice xs s e ys) s e = ys"
  by (simp add: sub_slice_def put_slice_def)

lemma nth_put_slice:
  assumes "s \<le> e" "e \<le> length xs" "length ys = e - s" "i < length xs"
  shows "put_slice xs s e ys ! i = (if s \<le> i \<and> i < e then ys ! (i - s) else xs ! i)"
proof -
  consider "i < s" | "s \<le> i" "i < e" | "e \<le> i" by linarith
  then show ?thesis
    by cases (use assms in \<open>auto simp: put_slice_def nth_append\<close>)
qed

lemma take_put_slice [go_simps]: "s \<le> length xs \<Longrightarrow> take s (put_slice xs s e ys) = take s xs"
  by (simp add: put_slice_def)

text \<open>\<open>resize xs n\<close> is \<open>xs\<close> cut or padded with zero bytes to length \<open>n\<close>.\<close>

definition resize :: "bytes \<Rightarrow> nat \<Rightarrow> bytes" where
  "resize xs n = take n xs @ replicate (n - length xs) zero_byte"

lemma length_resize [simp]: "length (resize xs n) = n"
  by (simp add: resize_def)

lemma resize_same [simp]: "resize xs (length xs) = xs"
  by (simp add: resize_def)

lemma nth_resize: "i < n \<Longrightarrow> resize xs n ! i = (if i < length xs then xs ! i else zero_byte)"
  by (simp add: resize_def nth_append)

lemma resize_Nil: "resize [] n = replicate n zero_byte"
  by (simp add: resize_def)

lemma take_resize: "m \<le> n \<Longrightarrow> m \<le> length xs \<Longrightarrow> take m (resize xs n) = take m xs"
  by (simp add: resize_def)

section \<open>Maps with string keys\<close>

text \<open>
  A Go map is an association list with at most one entry for a key. Go leaves the order
  of iteration open, so code that iterates takes the order as an argument
  (\<open>go_entries\<close>: a permutation of the keys).
\<close>

type_synonym 'v gomap = "(string \<times> 'v) list"

definition go_get :: "'v gomap \<Rightarrow> string \<Rightarrow> 'v option" where
  "go_get m k = map_of m k"

definition go_set :: "'v gomap \<Rightarrow> string \<Rightarrow> 'v \<Rightarrow> 'v gomap" where
  "go_set m k v = AList.update k v m"

definition go_del :: "'v gomap \<Rightarrow> string \<Rightarrow> 'v gomap" where
  "go_del m k = AList.delete k m"

definition go_ok :: "'v gomap \<Rightarrow> bool" where
  "go_ok m \<longleftrightarrow> distinct (map fst m)"

definition go_entries :: "(string list \<Rightarrow> string list) \<Rightarrow> 'v gomap \<Rightarrow> 'v gomap" where
  "go_entries ord m = map (\<lambda>k. (k, the (go_get m k))) (ord (map fst m))"

definition order_ok :: "(string list \<Rightarrow> string list) \<Rightarrow> bool" where
  "order_ok ord \<longleftrightarrow> (\<forall>ks. mset (ord ks) = mset ks)"

lemma go_get_set [simp]: "go_get (go_set m k v) k' = (if k' = k then Some v else go_get m k')"
  by (simp add: go_get_def go_set_def update_conv')

lemma go_get_del [simp]: "go_get (go_del m k) k' = (if k' = k then None else go_get m k')"
  by (simp add: go_get_def go_del_def delete_conv')

lemma go_get_Nil [simp]: "go_get [] k = None"
  by (simp add: go_get_def)

lemma go_ok_Nil [simp]: "go_ok []"
  by (simp add: go_ok_def)

lemma go_ok_set [simp]: "go_ok m \<Longrightarrow> go_ok (go_set m k v)"
  by (simp add: go_ok_def go_set_def distinct_update)

lemma go_ok_del [simp]: "go_ok m \<Longrightarrow> go_ok (go_del m k)"
  by (simp add: go_ok_def go_del_def distinct_delete)

lemma go_get_in_keys: "k \<in> fst ` set m \<longleftrightarrow> go_get m k \<noteq> None"
  by (simp add: go_get_def map_of_eq_None_iff)

lemma order_ok_set: "order_ok ord \<Longrightarrow> set (ord ks) = set ks"
  unfolding order_ok_def by (metis set_mset_mset)

lemma order_ok_distinct: "order_ok ord \<Longrightarrow> distinct (ord ks) = distinct ks"
  unfolding order_ok_def by (metis mset_eq_imp_distinct_iff)

lemma set_go_entries:
  assumes "order_ok ord"
  shows "set (go_entries ord m) = {(k, v). go_get m k = Some v}"
proof -
  have "set (ord (map fst m)) = {k. go_get m k \<noteq> None}"
    using go_get_in_keys [of _ m] by (auto simp: order_ok_set [OF assms])
  then show ?thesis by (auto simp: go_entries_def)
qed

lemma distinct_go_entries:
  "order_ok ord \<Longrightarrow> go_ok m \<Longrightarrow> distinct (map fst (go_entries ord m))"
  by (simp add: go_entries_def comp_def order_ok_distinct go_ok_def)

section \<open>Outcomes\<close>

text \<open>
  What a call of a method comes to: it returns a state, a result and the goroutines it
  started; it panics, leaving a state behind (with whatever locks it held); or it waits
  for ever on a lock that a panic left taken.
\<close>

datatype ('s, 'r, 'j) outcome =
    Ret (o_state: 's) (o_result: 'r) (o_jobs: "'j list")
  | Panics 's
  | Blocks

end
