(* ===== verification/LoadRanges.thy ===== *)
theory LoadRanges
  imports Prelude
begin

text \<open>
  The file \<open>load.go\<close>: the set of byte ranges of an open file that hold real data (already
  downloaded, or written locally). The state is the record \<open>Load\<close>, a list of half-open
  ranges; \<open>covered\<close> is the set of offsets it stands for. Sorting is done by the package
  \<open>golang.org/x/exp/slices\<close>, whose \<open>SortFunc\<close> is the parameter \<open>sortf\<close>: it returns a
  permutation of its argument ordered by the comparison it is given (\<open>sort_ok\<close>), and is
  not stable.
\<close>

section \<open>Data and operations\<close>

record Range =
  rstart :: int
  rend :: int

record Load =
  ranges :: "Range list"

definition newLoad :: Load where
  "newLoad = \<lparr>ranges = []\<rparr>"

definition sort_ok :: "(Range list \<Rightarrow> Range list) \<Rightarrow> bool" where
  "sort_ok sortf \<longleftrightarrow>
     (\<forall>rs. mset (sortf rs) = mset rs \<and> sorted_wrt (\<lambda>a b. rstart a \<le> rstart b) (sortf rs))"

definition sortRanges :: "(Range list \<Rightarrow> Range list) \<Rightarrow> Load \<Rightarrow> Load" where
  "sortRanges sortf l = l\<lparr>ranges := sortf (ranges l)\<rparr>"

definition addRange :: "Load \<Rightarrow> int \<Rightarrow> int \<Rightarrow> Load" where
  "addRange l s e = l\<lparr>ranges := ranges l @ [\<lparr>rstart = s, rend = e\<rparr>]\<rparr>"

text \<open>
  \<open>removeRange\<close> works on a slice, its backing array and its length: it moves the last
  element into place \<open>i\<close> and shortens the slice, and panics when \<open>i\<close> is out of range. The
  backing array keeps its old last element.
\<close>

definition removeRange :: "nat \<Rightarrow> Range list \<times> nat \<Rightarrow> (Range list \<times> nat) option" where
  "removeRange i st = (case st of (arr, len) \<Rightarrow>
     if i < len then Some (arr[i := arr ! (len - 1)], len - 1) else None)"

text \<open>
  The loop of \<open>truncate\<close>: \<open>for i, v := range load.ranges\<close> evaluates the slice once, so
  \<open>i\<close> runs over its first length and \<open>v\<close> is read from the backing array, whatever
  \<open>removeRange\<close> did to the length in between.
\<close>

fun truncate_loop :: "int \<Rightarrow> nat list \<Rightarrow> Range list \<times> nat \<Rightarrow> (Range list \<times> nat) option" where
  "truncate_loop e [] st = Some st"
| "truncate_loop e (i # is) (arr, len) =
     (let v = arr ! i in
      if e \<le> rstart v then
        (case removeRange i (arr, len) of
           None \<Rightarrow> None
         | Some st \<Rightarrow> truncate_loop e is st)
      else if e < rend v then
        (if i < len then truncate_loop e is (arr[i := (arr ! i)\<lparr>rend := e\<rparr>], len) else None)
      else truncate_loop e is (arr, len))"

definition truncate_load :: "Load \<Rightarrow> int \<Rightarrow> Load option" where
  "truncate_load l e =
     (case truncate_loop e [0..<length (ranges l)] (ranges l, length (ranges l)) of
        None \<Rightarrow> None
      | Some (arr, len) \<Rightarrow> Some (l\<lparr>ranges := take len arr\<rparr>))"

fun isReady_loop :: "Range list \<Rightarrow> int \<Rightarrow> int \<Rightarrow> bool" where
  "isReady_loop [] s e = False"
| "isReady_loop (v # vs) s e =
     (if s < rstart v then False
      else if s < rend v then (if rend v < e then isReady_loop vs (rend v) e else True)
      else isReady_loop vs s e)"

definition isReady :: "(Range list \<Rightarrow> Range list) \<Rightarrow> Load \<Rightarrow> int \<Rightarrow> int \<Rightarrow> Load \<times> bool" where
  "isReady sortf l s e =
     (let l' = sortRanges sortf l in (l', isReady_loop (ranges l') s e))"

fun bytesReady_loop :: "Range list \<Rightarrow> int \<Rightarrow> int" where
  "bytesReady_loop [] ptr = ptr"
| "bytesReady_loop (v # vs) ptr =
     (if ptr < rstart v then ptr
      else bytesReady_loop vs (if ptr \<le> rend v then rend v else ptr))"

definition bytesReady :: "(Range list \<Rightarrow> Range list) \<Rightarrow> Load \<Rightarrow> int \<Rightarrow> Load \<times> int" where
  "bytesReady sortf l s =
     (let l' = sortRanges sortf l in (l', sub64 (bytesReady_loop (ranges l') s) s))"

section \<open>The offsets a load stands for\<close>

definition covered :: "Range list \<Rightarrow> int set" where
  "covered rs = (\<Union>r \<in> set rs. {rstart r..<rend r})"

lemma covered_simps [simp]:
  "covered [] = {}"
  "covered (r # rs) = {rstart r..<rend r} \<union> covered rs"
  "covered (rs @ rs') = covered rs \<union> covered rs'"
  by (auto simp: covered_def)

lemma covered_cong: "set rs = set rs' \<Longrightarrow> covered rs = covered rs'"
  by (simp add: covered_def)

lemma covered_sort: "sort_ok sortf \<Longrightarrow> covered (sortf rs) = covered rs"
  unfolding sort_ok_def by (metis covered_cong set_mset_mset)

lemma set_sort: "sort_ok sortf \<Longrightarrow> set (sortf rs) = set rs"
  unfolding sort_ok_def by (metis set_mset_mset)

lemma sorted_sort: "sort_ok sortf \<Longrightarrow> sorted_wrt (\<lambda>a b. rstart a \<le> rstart b) (sortf rs)"
  by (simp add: sort_ok_def)

lemma covered_addRange [simp]:
  "covered (ranges (addRange l s e)) = covered (ranges l) \<union> {s..<e}"
  by (simp add: addRange_def)

lemma covered_newLoad [simp]: "covered (ranges newLoad) = {}"
  by (simp add: newLoad_def)

lemma covered_sortRanges [simp]:
  "sort_ok sortf \<Longrightarrow> covered (ranges (sortRanges sortf l)) = covered (ranges l)"
  by (simp add: sortRanges_def covered_sort)

lemma covered_isReady [simp]:
  "sort_ok sortf \<Longrightarrow> covered (ranges (fst (isReady sortf l s e))) = covered (ranges l)"
  by (simp add: isReady_def Let_def)

lemma covered_bytesReady [simp]:
  "sort_ok sortf \<Longrightarrow> covered (ranges (fst (bytesReady sortf l s))) = covered (ranges l)"
  by (simp add: bytesReady_def Let_def)

section \<open>Queries\<close>

text \<open>
  Both queries walk the sorted ranges once. A range that starts after the current
  position shows that no later one covers it.
\<close>

lemma not_covered_before:
  assumes "sorted_wrt (\<lambda>a b. rstart a \<le> rstart b) (v # vs)" and "x < rstart v"
  shows "x \<notin> covered (v # vs)"
  using assms by (fastforce simp: covered_def)

lemma isReady_loop_iff:
  assumes "sorted_wrt (\<lambda>a b. rstart a \<le> rstart b) rs" and "s < e"
  shows "isReady_loop rs s e \<longleftrightarrow> {s..<e} \<subseteq> covered rs"
  using assms
proof (induction rs arbitrary: s)
  case Nil
  then show ?case by simp
next
  case (Cons v vs)
  consider (gap) "s < rstart v" | (reach) "rstart v \<le> s" "s < rend v" "rend v < e"
    | (full) "rstart v \<le> s" "s < rend v" "e \<le> rend v" | (skip) "rstart v \<le> s" "rend v \<le> s"
    by linarith
  then show ?case
  proof cases
    case gap
    then have "s \<notin> covered (v # vs)" using Cons.prems by (intro not_covered_before)
    moreover have "s \<in> {s..<e}" using Cons.prems by simp
    ultimately have "\<not> {s..<e} \<subseteq> covered (v # vs)" by blast
    then show ?thesis using gap by simp
  next
    case reach
    have "{s..<e} = {s..<rend v} \<union> {rend v..<e}" using reach by auto
    moreover have "{s..<rend v} \<subseteq> {rstart v..<rend v}" using reach by auto
    moreover have "{rend v..<e} \<inter> {rstart v..<rend v} = {}" by auto
    ultimately have "{s..<e} \<subseteq> covered (v # vs) \<longleftrightarrow> {rend v..<e} \<subseteq> covered vs"
      by auto
    then show ?thesis using Cons.IH [of "rend v"] Cons.prems reach by simp
  next
    case full
    then have "{s..<e} \<subseteq> covered (v # vs)" by auto
    then show ?thesis using full by simp
  next
    case skip
    then have "{s..<e} \<inter> {rstart v..<rend v} = {}" by auto
    then have "{s..<e} \<subseteq> covered (v # vs) \<longleftrightarrow> {s..<e} \<subseteq> covered vs" by auto
    then show ?thesis using Cons.IH [of s] Cons.prems skip by simp
  qed
qed

lemma bytesReady_loop_ge: "ptr \<le> bytesReady_loop rs ptr"
proof (induction rs arbitrary: ptr)
  case (Cons v vs)
  show ?case
    using Cons.IH [of "rend v"] Cons.IH [of ptr] by (auto intro: order_trans)
qed simp

lemma bytesReady_loop_le:
  "\<forall>r \<in> set rs. rend r \<le> b \<Longrightarrow> ptr \<le> b \<Longrightarrow> bytesReady_loop rs ptr \<le> b"
  by (induction rs arbitrary: ptr) auto

lemma bytesReady_loop_covered: "{ptr..<bytesReady_loop rs ptr} \<subseteq> covered rs"
proof (induction rs arbitrary: ptr)
  case (Cons v vs)
  show ?case
  proof (cases "ptr < rstart v")
    case False
    have "{ptr..<bytesReady_loop vs (rend v)} \<subseteq> {rstart v..<rend v} \<union> {rend v..<bytesReady_loop vs (rend v)}"
      using False by auto
    then show ?thesis
      using False Cons.IH [of "rend v"] Cons.IH [of ptr] by auto
  qed simp
qed simp

lemma bytesReady_loop_stops:
  assumes "sorted_wrt (\<lambda>a b. rstart a \<le> rstart b) rs"
  shows "bytesReady_loop rs ptr \<notin> covered rs"
  using assms
proof (induction rs arbitrary: ptr)
  case (Cons v vs)
  show ?case
  proof (cases "ptr < rstart v")
    case True
    then show ?thesis using not_covered_before [OF Cons.prems] by simp
  next
    case False
    let ?p = "if ptr \<le> rend v then rend v else ptr"
    have "rend v \<le> bytesReady_loop vs ?p"
      using bytesReady_loop_ge [of ?p vs] by (auto split: if_splits)
    moreover have "bytesReady_loop vs ?p \<notin> covered vs" using Cons by simp
    ultimately show ?thesis using False by simp
  qed
qed simp

text \<open>Offsets of a load that stay in the range of an \<open>int64\<close>.\<close>

definition load_i64 :: "Load \<Rightarrow> bool" where
  "load_i64 l \<longleftrightarrow> (\<forall>r \<in> set (ranges l). i64 (rend r))"

lemma bytesReady_result:
  assumes "sort_ok sortf" "load_i64 l" "0 \<le> s" "i64 s"
  shows "snd (bytesReady sortf l s) = bytesReady_loop (sortf (ranges l)) s - s"
proof -
  let ?p = "bytesReady_loop (sortf (ranges l)) s"
  have "?p \<le> 9223372036854775807"
    by (rule bytesReady_loop_le) (use assms in \<open>auto simp: load_i64_def i64_def set_sort\<close>)
  moreover have "s \<le> ?p" by (rule bytesReady_loop_ge)
  ultimately have "i64 (?p - s)" using assms by (simp add: i64_def)
  then show ?thesis by (simp add: bytesReady_def Let_def sortRanges_def i64_simps)
qed

lemma isReady_correct:
  assumes "sort_ok sortf" "s < e"
  shows "snd (isReady sortf l s e) \<longleftrightarrow> {s..<e} \<subseteq> covered (ranges l)"
  using isReady_loop_iff [OF sorted_sort [OF assms(1)] assms(2), of "ranges l"] covered_sort [OF assms(1)]
  by (simp add: isReady_def Let_def sortRanges_def)

lemma bytesReady_bounds:
  assumes "sort_ok sortf" "load_i64 l" "0 \<le> s" "i64 s"
  shows "0 \<le> snd (bytesReady sortf l s)"
    and "{s..<s + snd (bytesReady sortf l s)} \<subseteq> covered (ranges l)"
    and "s + snd (bytesReady sortf l s) \<notin> covered (ranges l)"
  using bytesReady_loop_ge [of s "sortf (ranges l)"]
    bytesReady_loop_covered [of s "sortf (ranges l)"]
    bytesReady_loop_stops [OF sorted_sort [OF assms(1)], of "ranges l" s]
  by (simp_all add: bytesReady_result [OF assms] covered_sort [OF assms(1)])

text \<open>A prefix of covered offsets is reported in full.\<close>

lemma bytesReady_at_least:
  assumes "sort_ok sortf" "load_i64 l" "0 \<le> s" "i64 s" and "{s..<s + n} \<subseteq> covered (ranges l)"
  shows "n \<le> snd (bytesReady sortf l s)"
proof (rule ccontr)
  assume "\<not> n \<le> snd (bytesReady sortf l s)"
  then have "s + snd (bytesReady sortf l s) \<in> {s..<s + n}"
    using bytesReady_bounds(1) [OF assms(1-4)] by simp
  then show False using assms(5) bytesReady_bounds(3) [OF assms(1-4)] by blast
qed

section \<open>Truncation\<close>

text \<open>
  The reference: drop the ranges that start at \<open>e\<close> or later, cut the others at \<open>e\<close>.
\<close>

definition clip_range :: "int \<Rightarrow> Range \<Rightarrow> Range" where
  "clip_range e r = (if e < rend r then r\<lparr>rend := e\<rparr> else r)"

definition truncate_spec :: "int \<Rightarrow> Range list \<Rightarrow> Range list" where
  "truncate_spec e rs = map (clip_range e) (filter (\<lambda>r. rstart r < e) rs)"

definition out_of :: "int \<Rightarrow> Range \<Rightarrow> bool" where
  "out_of e r \<longleftrightarrow> e \<le> rstart r \<or> e < rend r"

definition n_removed :: "int \<Rightarrow> Range list \<Rightarrow> nat" where
  "n_removed e rs = length (filter (\<lambda>r. e \<le> rstart r) rs)"

lemma clip_range_interval:
  "{rstart (clip_range e r)..<rend (clip_range e r)} = {rstart r..<rend r} \<inter> {..<e}"
  by (auto simp: clip_range_def)

lemma covered_truncate_spec: "covered (truncate_spec e rs) = covered rs \<inter> {..<e}"
proof (induction rs)
  case (Cons r rs)
  have "\<not> rstart r < e \<Longrightarrow> {rstart r..<rend r} \<inter> {..<e} = {}" by auto
  then show ?case
    using Cons by (simp add: truncate_spec_def clip_range_interval Int_Un_distrib2)
qed (simp add: truncate_spec_def)

lemma truncate_spec_rend: "r \<in> set (truncate_spec e rs) \<Longrightarrow> rend r \<le> e"
  by (auto simp: truncate_spec_def clip_range_def split: if_splits)

lemma truncate_spec_simps:
  "truncate_spec e [] = []"
  "truncate_spec e (rs @ [r]) =
     truncate_spec e rs @ (if rstart r < e then [clip_range e r] else [])"
  by (simp_all add: truncate_spec_def)

lemma n_removed_simps [simp]:
  "n_removed e [] = 0"
  "n_removed e (rs @ [r]) = n_removed e rs + (if e \<le> rstart r then 1 else 0)"
  by (simp_all add: n_removed_def)

lemma mset_swap_remove:
  assumes "i < len" "len \<le> length arr"
  shows "mset (take len arr) = add_mset (arr ! i) (mset (take (len - 1) (arr[i := arr ! (len - 1)])))"
proof -
  obtain m where m: "len = Suc m" using assms(1) by (cases len) auto
  have t: "take len arr = take m arr @ [arr ! m]"
    using assms m by (simp add: take_Suc_conv_app_nth)
  show ?thesis
  proof (cases "i = m")
    case False
    then have "i < length (take m arr)" using assms m by simp
    then have "mset ((take m arr)[i := arr ! m]) = add_mset (arr ! m) (mset (take m arr) - {#take m arr ! i#})"
      and "take m arr ! i \<in># mset (take m arr)"
      by (simp_all only: mset_update nth_mem_mset)
    then show ?thesis using t False assms m by (simp add: take_update_swap)
  qed (use t m in simp)
qed

lemma mset_take_update:
  assumes "i < len" "len \<le> length arr"
  shows "mset (take len (arr[i := x])) = add_mset x (mset (take len arr) - {#arr ! i#})"
  using assms by (simp add: take_update_swap mset_update)

text \<open>
  The loop invariant: what is in the slice is the reference of the elements visited so far
  together with the elements to come, and the length has dropped by one for each visited
  element that starts too late.
\<close>

definition trunc_inv :: "int \<Rightarrow> Range list \<Rightarrow> nat \<Rightarrow> Range list \<Rightarrow> nat \<Rightarrow> bool" where
  "trunc_inv e rs i arr len \<longleftrightarrow>
     length arr = length rs \<and> len + n_removed e (take i rs) = length rs \<and>
     (\<forall>j. i \<le> j \<and> j < length rs \<longrightarrow> arr ! j = rs ! j) \<and>
     mset (take len arr) = mset (truncate_spec e (take i rs)) + mset (drop i rs)"

lemma trunc_inv_init: "trunc_inv e rs 0 rs (length rs)"
  by (simp add: trunc_inv_def truncate_spec_simps)

lemma mset_drop_Suc: "i < length rs \<Longrightarrow> mset (drop i rs) = add_mset (rs ! i) (mset (drop (Suc i) rs))"
  by (metis Cons_nth_drop_Suc mset.simps(2))

lemma trunc_inv_step:
  assumes inv: "trunc_inv e rs i arr len" and i: "i < length rs"
  shows "e \<le> rstart (rs ! i) \<Longrightarrow> i < len \<Longrightarrow> trunc_inv e rs (Suc i) (arr[i := arr ! (len - 1)]) (len - 1)"
    and "\<not> e \<le> rstart (rs ! i) \<Longrightarrow> e < rend (rs ! i) \<Longrightarrow> i < len \<Longrightarrow>
         trunc_inv e rs (Suc i) (arr[i := (arr ! i)\<lparr>rend := e\<rparr>]) len"
    and "\<not> e \<le> rstart (rs ! i) \<Longrightarrow> \<not> e < rend (rs ! i) \<Longrightarrow> trunc_inv e rs (Suc i) arr len"
proof -
  have tk: "take (Suc i) rs = take i rs @ [rs ! i]" using i by (simp add: take_Suc_conv_app_nth)
  have arr: "arr ! i = rs ! i" "length arr = length rs" "len \<le> length arr"
    using inv i by (auto simp: trunc_inv_def)
  {
    assume out: "e \<le> rstart (rs ! i)" and len: "i < len"
    have "mset (take len arr) = add_mset (rs ! i) (mset (take (len - 1) (arr[i := arr ! (len - 1)])))"
      using mset_swap_remove [OF len arr(3)] arr(1) by simp
    moreover have "mset (take len arr) =
        add_mset (rs ! i) (mset (truncate_spec e (take i rs)) + mset (drop (Suc i) rs))"
      using inv i by (simp add: trunc_inv_def mset_drop_Suc)
    moreover have "n_removed e (take (Suc i) rs) = n_removed e (take i rs) + 1"
      using out tk by simp
    moreover have "len + n_removed e (take i rs) = length rs"
      using inv by (simp add: trunc_inv_def)
    ultimately have "len - 1 + n_removed e (take (Suc i) rs) = length rs"
      and "mset (take (len - 1) (arr[i := arr ! (len - 1)])) =
        mset (truncate_spec e (take i rs)) + mset (drop (Suc i) rs)"
      using len by (linarith, simp)
    then show "trunc_inv e rs (Suc i) (arr[i := arr ! (len - 1)]) (len - 1)"
      using inv out by (simp add: trunc_inv_def tk truncate_spec_simps)
  }
  {
    assume keep: "\<not> e \<le> rstart (rs ! i)" and cut: "e < rend (rs ! i)" and len: "i < len"
    then have "mset (take len (arr[i := (arr ! i)\<lparr>rend := e\<rparr>])) =
        add_mset (clip_range e (rs ! i)) (mset (take len arr) - {#rs ! i#})"
      using mset_take_update [OF len arr(3)] arr(1) by (simp add: clip_range_def)
    then show "trunc_inv e rs (Suc i) (arr[i := (arr ! i)\<lparr>rend := e\<rparr>]) len"
      using inv i keep by (simp add: trunc_inv_def tk truncate_spec_simps mset_drop_Suc)
  }
  assume "\<not> e \<le> rstart (rs ! i)" "\<not> e < rend (rs ! i)"
  then show "trunc_inv e rs (Suc i) arr len"
    using inv i by (simp add: trunc_inv_def tk truncate_spec_simps mset_drop_Suc clip_range_def)
qed

lemma truncate_loop_correct:
  assumes "trunc_inv e rs i arr len" "is = [i..<length rs]" "i \<le> length rs"
    and "truncate_loop e is (arr, len) = Some (arr', len')"
  shows "mset (take len' arr') = mset (truncate_spec e rs)"
  using assms
proof (induction "is" arbitrary: i arr len)
  case Nil
  then have "[i..<length rs] = []" by simp
  then have "i = length rs" using Nil.prems(3) by auto
  then show ?case using Nil by (simp add: trunc_inv_def)
next
  case (Cons x xs)
  note i = upt_ConsD [OF Cons.prems(2)]
  then have arr: "arr ! i = rs ! i" using Cons.prems by (simp add: trunc_inv_def)
  note step = trunc_inv_step [OF Cons.prems(1) i(2)]
  have le: "Suc i \<le> length rs" using i(2) by simp
  consider (out) "e \<le> rstart (rs ! i)" | (cut) "\<not> e \<le> rstart (rs ! i)" "e < rend (rs ! i)"
    | (keep) "\<not> e \<le> rstart (rs ! i)" "\<not> e < rend (rs ! i)" by blast
  then show ?case
  proof cases
    case out
    with Cons.prems(4) i(1) arr have "i < len"
      and "truncate_loop e xs (arr[i := arr ! (len - 1)], len - 1) = Some (arr', len')"
      by (simp_all add: removeRange_def Let_def split: if_splits)
    then show ?thesis using Cons.IH [OF step(1) [OF out] i(3) le] by blast
  next
    case cut
    with Cons.prems(4) i(1) arr have "i < len"
      and "truncate_loop e xs (arr[i := (arr ! i)\<lparr>rend := e\<rparr>], len) = Some (arr', len')"
      by (simp_all add: Let_def split: if_splits)
    then show ?thesis using Cons.IH [OF step(2) [OF cut] i(3) le] by blast
  next
    case keep
    with Cons.prems(4) i(1) arr
    have "truncate_loop e xs (arr, len) = Some (arr', len')" by (simp add: Let_def)
    then show ?thesis using Cons.IH [OF step(3) [OF keep] i(3) le] by blast
  qed
qed

text \<open>
  The panic. The slice has lost \<open>n_removed\<close> elements when index \<open>j\<close> is visited, so an
  element that has to be changed there is out of range exactly when \<open>j\<close> has run past
  what is left.
\<close>

definition overruns :: "int \<Rightarrow> Range list \<Rightarrow> nat \<Rightarrow> bool" where
  "overruns e rs j \<longleftrightarrow>
     j < length rs \<and> out_of e (rs ! j) \<and> length rs \<le> j + n_removed e (take j rs)"

lemma truncate_loop_panics:
  assumes "trunc_inv e rs i arr len" "is = [i..<length rs]" "i \<le> length rs"
  shows "truncate_loop e is (arr, len) = None \<longleftrightarrow> (\<exists>j \<ge> i. overruns e rs j)"
  using assms
proof (induction "is" arbitrary: i arr len)
  case Nil
  then have "[i..<length rs] = []" by simp
  then show ?case using Nil.prems(3) by (auto simp: overruns_def)
next
  case (Cons x xs)
  note i = upt_ConsD [OF Cons.prems(2)]
  then have arr: "arr ! i = rs ! i" using Cons.prems by (simp add: trunc_inv_def)
  note step = trunc_inv_step [OF Cons.prems(1) i(2)]
  have le: "Suc i \<le> length rs" using i(2) by simp
  have split: "(\<exists>j \<ge> i. overruns e rs j) \<longleftrightarrow> overruns e rs i \<or> (\<exists>j \<ge> Suc i. overruns e rs j)"
    by (metis le_eq_less_or_eq Suc_le_eq)
  have here: "overruns e rs i \<longleftrightarrow> out_of e (rs ! i) \<and> \<not> i < len"
    using Cons.prems(1) i(2) by (auto simp: overruns_def trunc_inv_def)
  consider (out) "e \<le> rstart (rs ! i)" | (cut) "\<not> e \<le> rstart (rs ! i)" "e < rend (rs ! i)"
    | (keep) "\<not> e \<le> rstart (rs ! i)" "\<not> e < rend (rs ! i)" by blast
  then show ?case
  proof cases
    case out
    then show ?thesis
      using i(1) arr split here Cons.IH [OF step(1) [OF out] i(3) le]
      by (cases "i < len") (simp_all add: removeRange_def Let_def out_of_def)
  next
    case cut
    then show ?thesis
      using i(1) arr split here Cons.IH [OF step(2) [OF cut] i(3) le]
      by (cases "i < len") (simp_all add: Let_def out_of_def)
  next
    case keep
    then show ?thesis
      using i(1) arr split here Cons.IH [OF step(3) [OF keep] i(3) le]
      by (simp add: Let_def out_of_def)
  qed
qed

lemma truncate_Some:
  assumes "truncate_load l e = Some l'"
  shows "mset (ranges l') = mset (truncate_spec e (ranges l))"
proof -
  let ?rs = "ranges l"
  obtain arr len where "truncate_loop e [0..<length ?rs] (?rs, length ?rs) = Some (arr, len)"
    and "l' = l\<lparr>ranges := take len arr\<rparr>"
    using assms by (auto simp: truncate_load_def split: option.splits)
  then show ?thesis using truncate_loop_correct [OF trunc_inv_init refl] by simp
qed

lemma truncate_None_iff: "truncate_load l e = None \<longleftrightarrow> (\<exists>j. overruns e (ranges l) j)"
  using truncate_loop_panics [OF trunc_inv_init [of e "ranges l"] refl le0]
  by (auto simp: truncate_load_def split: option.splits)

lemma covered_truncate:
  "truncate_load l e = Some l' \<Longrightarrow> covered (ranges l') = covered (ranges l) \<inter> {..<e}"
  by (metis truncate_Some set_mset_mset covered_cong covered_truncate_spec)

lemma truncate_rend: "truncate_load l e = Some l' \<Longrightarrow> r \<in> set (ranges l') \<Longrightarrow> rend r \<le> e"
  by (metis truncate_Some set_mset_mset truncate_spec_rend)

text \<open>No range has to go: no panic.\<close>

lemma n_removed_0: "(\<forall>r \<in> set rs. rstart r < e) \<Longrightarrow> n_removed e rs = 0"
  by (auto simp: n_removed_def filter_empty_conv not_le)

lemma truncate_no_panic:
  assumes "\<forall>r \<in> set (ranges l). rstart r < e"
  shows "\<exists>l'. truncate_load l e = Some l'"
proof -
  have "n_removed e (take j (ranges l)) = 0" for j
    using assms by (intro n_removed_0) (auto dest: in_set_takeD)
  then have "\<not> overruns e (ranges l) j" for j by (simp add: overruns_def)
  then show ?thesis using truncate_None_iff by (metis not_Some_eq)
qed

text \<open>Two ranges have to go, the last of them at the end of the slice: a panic.\<close>

lemma truncate_panics:
  assumes "i < j" "Suc j = length (ranges l)"
    and "e \<le> rstart (ranges l ! i)" "e \<le> rstart (ranges l ! j)"
  shows "truncate_load l e = None"
proof -
  have "ranges l ! i \<in> set (filter (\<lambda>r. e \<le> rstart r) (take j (ranges l)))"
    using assms by (auto simp: in_set_conv_nth intro!: exI [of _ i])
  then have "0 < n_removed e (take j (ranges l))"
    unfolding n_removed_def by (rule length_pos_if_in_set)
  then have "overruns e (ranges l) j" using assms by (simp add: overruns_def out_of_def)
  then show ?thesis using truncate_None_iff by blast
qed

end
