(* ===== verification/CacheStore.thy ===== *)
theory CacheStore
  imports Prelude
begin

text \<open>
  The file \<open>cache.go\<close>: the content of an open file, kept in memory or in a temporary file.
  \<open>MemoryCache\<close> holds a Go slice: its backing array, whose length is the slice's capacity,
  and its length. \<open>DiskCache\<close> holds a file of the operating system (\<open>OsFile\<close>: content,
  position, whether it was closed) and a size field of its own. Both implement the
  interface \<open>Cache\<close>; the locale \<open>cache_contract\<close> states what its users rely on, and is
  interpreted on both and on the dispatch between them.

  Parameters: \<open>grow\<close> is the spare capacity the Go runtime adds when \<open>append\<close> moves a slice
  to a new array; \<open>lw\<close> is the writer of the package \<open>go.skia.org/infra/go/util/limitwriter\<close>:
  from a limit and a buffer, the bytes it passes on and the count it returns
  (\<open>limitwriter_ok\<close>: it passes on the buffer cut at the limit, and returns the count of
  the buffer when nothing was cut). Input and output errors of the temporary file are not
  modelled: a full disk, a failed \<open>CreateTemp\<close>.
\<close>

section \<open>MemoryCache\<close>

record MemoryCache =
  mc_array :: bytes
  mc_len :: nat

definition NewMemoryCache :: MemoryCache where
  "NewMemoryCache = \<lparr>mc_array = [], mc_len = 0\<rparr>"

definition mem_Size :: "MemoryCache \<Rightarrow> int" where
  "mem_Size c = int (mc_len c)"

text \<open>
  \<open>c.data[start:end]\<close> may reach up to the capacity of the slice, beyond its length, and
  panics otherwise.
\<close>

definition mem_ReadRange :: "MemoryCache \<Rightarrow> int \<Rightarrow> int \<Rightarrow> bytes \<Rightarrow> (MemoryCache \<times> bytes \<times> int) option" where
  "mem_ReadRange c s e buffer =
     (if slice_ok s e (length (mc_array c)) then
        (let part = sub_slice (mc_array c) (nat s) (nat e)
         in Some (c, go_copy buffer part, int (copy_count buffer part)))
      else None)"

definition mem_WriteRange :: "MemoryCache \<Rightarrow> int \<Rightarrow> int \<Rightarrow> bytes \<Rightarrow> (MemoryCache \<times> int) option" where
  "mem_WriteRange c s e buffer =
     (if slice_ok s e (length (mc_array c)) then
        (let part = sub_slice (mc_array c) (nat s) (nat e)
         in Some (c\<lparr>mc_array := put_slice (mc_array c) (nat s) (nat e) (go_copy part buffer)\<rparr>,
                  int (copy_count part buffer)))
      else None)"

text \<open>\<open>append(c.data, make([]byte, n)...)\<close>: in place when the capacity allows it.\<close>

definition append_zeros :: "(nat \<Rightarrow> nat) \<Rightarrow> MemoryCache \<Rightarrow> nat \<Rightarrow> MemoryCache" where
  "append_zeros grow c n =
     (let m = mc_len c + n in
      if m \<le> length (mc_array c)
      then c\<lparr>mc_array := put_slice (mc_array c) (mc_len c) m (replicate n zero_byte), mc_len := m\<rparr>
      else c\<lparr>mc_array := take (mc_len c) (mc_array c) @ replicate n zero_byte @ replicate (grow m) zero_byte,
             mc_len := m\<rparr>)"

definition mem_Truncate :: "(nat \<Rightarrow> nat) \<Rightarrow> MemoryCache \<Rightarrow> int \<Rightarrow> MemoryCache option" where
  "mem_Truncate grow c n =
     (if mem_Size c < n then Some (append_zeros grow c (nat (n - mem_Size c)))
      else if slice_ok 0 n (length (mc_array c)) then Some (c\<lparr>mc_len := nat n\<rparr>)
      else None)"

definition mem_Rm :: "MemoryCache \<Rightarrow> MemoryCache" where
  "mem_Rm c = \<lparr>mc_array = [], mc_len = 0\<rparr>"

section \<open>DiskCache\<close>

text \<open>The operations of \<open>os.File\<close> on a regular file; on a closed file they only fail.\<close>

record OsFile =
  of_bytes :: bytes
  of_pos :: int
  of_closed :: bool

definition os_Seek :: "OsFile \<Rightarrow> int \<Rightarrow> OsFile" where
  "os_Seek f p = (if of_closed f \<or> p < 0 then f else f\<lparr>of_pos := p\<rparr>)"

definition os_Read :: "OsFile \<Rightarrow> nat \<Rightarrow> OsFile \<times> bytes" where
  "os_Read f n =
     (if of_closed f then (f, [])
      else let got = take n (drop (nat (of_pos f)) (of_bytes f))
           in (f\<lparr>of_pos := of_pos f + int (length got)\<rparr>, got))"

definition os_Write :: "OsFile \<Rightarrow> bytes \<Rightarrow> OsFile" where
  "os_Write f b =
     (if of_closed f \<or> b = [] then f
      else let p = nat (of_pos f); padded = resize (of_bytes f) (max p (length (of_bytes f)))
           in f\<lparr>of_bytes := take p padded @ b @ drop (p + length b) padded,
                of_pos := of_pos f + int (length b)\<rparr>)"

definition os_Truncate :: "OsFile \<Rightarrow> int \<Rightarrow> OsFile" where
  "os_Truncate f n =
     (if of_closed f \<or> n < 0 then f else f\<lparr>of_bytes := resize (of_bytes f) (nat n)\<rparr>)"

definition os_Close :: "OsFile \<Rightarrow> OsFile" where
  "os_Close f = f\<lparr>of_closed := True\<rparr>"

record DiskCache =
  dc_file :: OsFile
  dc_size :: int

definition NewDiskCache :: DiskCache where
  "NewDiskCache = \<lparr>dc_file = \<lparr>of_bytes = [], of_pos = 0, of_closed = False\<rparr>, dc_size = 0\<rparr>"

definition limitwriter_ok :: "(int \<Rightarrow> bytes \<Rightarrow> bytes \<times> int) \<Rightarrow> bool" where
  "limitwriter_ok lw \<longleftrightarrow>
     (\<forall>lim b. 0 \<le> lim \<longrightarrow> fst (lw lim b) = take (nat lim) b \<and>
        (int (length b) \<le> lim \<longrightarrow> snd (lw lim b) = int (length b)))"

text \<open>
  \<open>io.LimitReader(c.file, end-start).Read(buffer)\<close> reads nothing for a limit that is not
  positive, and at most the limit otherwise. Errors are dropped, as in the source.
\<close>

definition disk_ReadRange :: "DiskCache \<Rightarrow> int \<Rightarrow> int \<Rightarrow> bytes \<Rightarrow> (DiskCache \<times> bytes \<times> int) option" where
  "disk_ReadRange c s e buffer =
     (let f = os_Seek (dc_file c) s; n = sub64 e s in
      if n \<le> 0 then Some (c\<lparr>dc_file := f\<rparr>, buffer, 0)
      else (case os_Read f (min (length buffer) (nat n)) of
              (f', got) \<Rightarrow> Some (c\<lparr>dc_file := f'\<rparr>, go_copy buffer got, int (length got))))"

definition disk_WriteRange ::
    "(int \<Rightarrow> bytes \<Rightarrow> bytes \<times> int) \<Rightarrow> DiskCache \<Rightarrow> int \<Rightarrow> int \<Rightarrow> bytes \<Rightarrow> (DiskCache \<times> int) option" where
  "disk_WriteRange lw c s e buffer =
     (let f = os_Seek (dc_file c) s in
      case lw (sub64 e s) buffer of
        (passed, write) \<Rightarrow> Some (c\<lparr>dc_file := os_Write f passed\<rparr>, write))"

definition disk_Truncate :: "DiskCache \<Rightarrow> int \<Rightarrow> DiskCache option" where
  "disk_Truncate c n = Some (c\<lparr>dc_file := os_Truncate (dc_file c) n, dc_size := n\<rparr>)"

definition disk_Size :: "DiskCache \<Rightarrow> int" where
  "disk_Size c = dc_size c"

definition disk_Rm :: "DiskCache \<Rightarrow> DiskCache" where
  "disk_Rm c = c\<lparr>dc_file := os_Close (dc_file c)\<rparr>"

section \<open>The interface\<close>

datatype Cache = Mem MemoryCache | Disk DiskCache

text \<open>The parameters of the two caches.\<close>

record cache_env =
  ce_grow :: "nat \<Rightarrow> nat"
  ce_limitw :: "int \<Rightarrow> bytes \<Rightarrow> bytes \<times> int"

definition ReadRange :: "Cache \<Rightarrow> int \<Rightarrow> int \<Rightarrow> bytes \<Rightarrow> (Cache \<times> bytes \<times> int) option" where
  "ReadRange c s e buffer = (case c of
     Mem m \<Rightarrow> map_option (map_prod Mem id) (mem_ReadRange m s e buffer)
   | Disk d \<Rightarrow> map_option (map_prod Disk id) (disk_ReadRange d s e buffer))"

definition WriteRange :: "cache_env \<Rightarrow> Cache \<Rightarrow> int \<Rightarrow> int \<Rightarrow> bytes \<Rightarrow> (Cache \<times> int) option" where
  "WriteRange E c s e buffer = (case c of
     Mem m \<Rightarrow> map_option (map_prod Mem id) (mem_WriteRange m s e buffer)
   | Disk d \<Rightarrow> map_option (map_prod Disk id) (disk_WriteRange (ce_limitw E) d s e buffer))"

definition Truncate :: "cache_env \<Rightarrow> Cache \<Rightarrow> int \<Rightarrow> Cache option" where
  "Truncate E c n = (case c of
     Mem m \<Rightarrow> map_option Mem (mem_Truncate (ce_grow E) m n)
   | Disk d \<Rightarrow> map_option Disk (disk_Truncate d n))"

definition Size :: "Cache \<Rightarrow> int" where
  "Size c = (case c of Mem m \<Rightarrow> mem_Size m | Disk d \<Rightarrow> disk_Size d)"

definition Rm :: "Cache \<Rightarrow> Cache" where
  "Rm c = (case c of Mem m \<Rightarrow> Mem (mem_Rm m) | Disk d \<Rightarrow> Disk (disk_Rm d))"

section \<open>The contract\<close>

text \<open>
  What users of a cache rely on: it stands for a sequence of bytes (\<open>contents\<close>) of the size
  it reports; reading a range inside it delivers that part of the sequence and changes
  nothing; writing a range replaces exactly that part; truncating cuts the sequence or
  extends it with zero bytes.
\<close>

locale cache_contract =
  fixes rd :: "'c \<Rightarrow> int \<Rightarrow> int \<Rightarrow> bytes \<Rightarrow> ('c \<times> bytes \<times> int) option"
    and wr :: "'c \<Rightarrow> int \<Rightarrow> int \<Rightarrow> bytes \<Rightarrow> ('c \<times> int) option"
    and tr :: "'c \<Rightarrow> int \<Rightarrow> 'c option"
    and sz :: "'c \<Rightarrow> int"
    and contents :: "'c \<Rightarrow> bytes"
    and ok :: "'c \<Rightarrow> bool"
  assumes size_law: "ok c \<Longrightarrow> sz c = int (length (contents c))"
    and size_i64: "ok c \<Longrightarrow> i64 (sz c)"
    and read_law: "ok c \<Longrightarrow> 0 \<le> s \<Longrightarrow> s \<le> e \<Longrightarrow> e \<le> sz c \<Longrightarrow>
      \<exists>c'. rd c s e buf =
          Some (c', go_copy buf (sub_slice (contents c) (nat s) (nat e)),
                int (copy_count buf (sub_slice (contents c) (nat s) (nat e)))) \<and>
        ok c' \<and> contents c' = contents c"
    and write_law: "ok c \<Longrightarrow> 0 \<le> s \<Longrightarrow> s \<le> e \<Longrightarrow> e \<le> sz c \<Longrightarrow>
      \<exists>c' n. wr c s e buf = Some (c', n) \<and> ok c' \<and>
        contents c' = put_slice (contents c) (nat s) (nat e)
          (go_copy (sub_slice (contents c) (nat s) (nat e)) buf) \<and>
        (int (length buf) \<le> e - s \<longrightarrow> n = int (length buf))"
    and truncate_law: "ok c \<Longrightarrow> 0 \<le> n \<Longrightarrow> i64 n \<Longrightarrow>
      \<exists>c'. tr c n = Some c' \<and> ok c' \<and> contents c' = resize (contents c) (nat n)"
begin

lemma read_total:
  assumes "ok c" "0 \<le> s" "s \<le> e" "e \<le> sz c"
  obtains c' where "rd c s e buf =
      Some (c', go_copy buf (sub_slice (contents c) (nat s) (nat e)),
            min (int (length buf)) (e - s))"
    and "ok c'" and "contents c' = contents c"
proof -
  have len: "length (sub_slice (contents c) (nat s) (nat e)) = nat (e - s)"
    using assms size_law [OF assms(1)] by auto
  have "int (copy_count buf (sub_slice (contents c) (nat s) (nat e))) = min (int (length buf)) (e - s)"
    unfolding copy_count_def len using assms(3) by simp
  then show ?thesis using read_law [OF assms, of buf] that by auto
qed

text \<open>A write whose buffer fills its range.\<close>

lemma write_exact:
  assumes "ok c" "0 \<le> s" "e = s + int (length buf)" "e \<le> sz c"
  obtains c' where "wr c s e buf = Some (c', int (length buf))" and "ok c'"
    and "contents c' = put_slice (contents c) (nat s) (nat e) buf" and "sz c' = sz c"
proof -
  have len: "length (sub_slice (contents c) (nat s) (nat e)) = length buf"
    using assms size_law [OF assms(1)] by auto
  have "s \<le> e" using assms by simp
  then obtain c' where c': "wr c s e buf = Some (c', int (length buf))" "ok c'"
    "contents c' = put_slice (contents c) (nat s) (nat e) buf"
    using write_law [OF assms(1,2) _ assms(4), of buf] assms(3) len
    by (auto simp: go_copy_same_length)
  moreover have "sz c' = sz c"
    using c' assms size_law [OF assms(1)] size_law [OF c'(2)] by simp
  ultimately show ?thesis using that by blast
qed

lemma truncate_total:
  assumes "ok c" "0 \<le> n" "i64 n"
  obtains c' where "tr c n = Some c'" and "ok c'"
    and "contents c' = resize (contents c) (nat n)" and "sz c' = n"
proof -
  obtain c' where c': "tr c n = Some c'" "ok c'" "contents c' = resize (contents c) (nat n)"
    using truncate_law [OF assms] by blast
  moreover have "sz c' = n" using c' assms size_law [OF c'(2)] by simp
  ultimately show ?thesis using that by blast
qed

end

section \<open>The caches honour the contract\<close>

definition mem_contents :: "MemoryCache \<Rightarrow> bytes" where
  "mem_contents c = take (mc_len c) (mc_array c)"

definition mem_ok :: "MemoryCache \<Rightarrow> bool" where
  "mem_ok c \<longleftrightarrow> mc_len c \<le> length (mc_array c) \<and> i64 (int (mc_len c))"

definition disk_contents :: "DiskCache \<Rightarrow> bytes" where
  "disk_contents c = of_bytes (dc_file c)"

definition disk_ok :: "(int \<Rightarrow> bytes \<Rightarrow> bytes \<times> int) \<Rightarrow> DiskCache \<Rightarrow> bool" where
  "disk_ok lw c \<longleftrightarrow> limitwriter_ok lw \<and> \<not> of_closed (dc_file c) \<and>
     dc_size c = int (length (of_bytes (dc_file c))) \<and> i64 (dc_size c)"

lemma sub_slice_take: "e \<le> n \<Longrightarrow> sub_slice (take n xs) s e = sub_slice xs s e"
  by (simp add: sub_slice_def drop_take min_def)

lemma take_put_slice_beyond:
  "s \<le> e \<Longrightarrow> e \<le> n \<Longrightarrow> n \<le> length xs \<Longrightarrow> length ys = e - s \<Longrightarrow>
   take n (put_slice xs s e ys) = put_slice (take n xs) s e ys"
  by (simp add: put_slice_def drop_take)

lemma append_zeros_contents:
  assumes "mem_ok c"
  shows "mem_contents (append_zeros grow c n) = mem_contents c @ replicate n zero_byte"
    and "mc_len (append_zeros grow c n) = mc_len c + n"
    and "mc_len (append_zeros grow c n) \<le> length (mc_array (append_zeros grow c n))"
  using assms by (auto simp: append_zeros_def mem_contents_def mem_ok_def put_slice_def Let_def)

interpretation memcache: cache_contract mem_ReadRange mem_WriteRange "mem_Truncate grow" mem_Size
    mem_contents mem_ok for grow
proof unfold_locales
  fix c s e and buf :: bytes
  assume "mem_ok c" and b: "0 \<le> s" "s \<le> e" "e \<le> mem_Size c"
  then have len: "nat e \<le> mc_len c" "nat s \<le> nat e" "mc_len c \<le> length (mc_array c)"
    by (auto simp: mem_ok_def mem_Size_def)
  then have ok: "slice_ok s e (length (mc_array c))" using b by (simp add: slice_ok_def)
  have sub: "sub_slice (mem_contents c) (nat s) (nat e) = sub_slice (mc_array c) (nat s) (nat e)"
    using len by (simp add: mem_contents_def sub_slice_take)
  show "\<exists>c'. mem_ReadRange c s e buf =
          Some (c', go_copy buf (sub_slice (mem_contents c) (nat s) (nat e)),
                int (copy_count buf (sub_slice (mem_contents c) (nat s) (nat e)))) \<and>
        mem_ok c' \<and> mem_contents c' = mem_contents c"
    using ok \<open>mem_ok c\<close> by (simp add: mem_ReadRange_def sub Let_def)
  let ?part = "sub_slice (mc_array c) (nat s) (nat e)"
  have "length ?part = nat e - nat s" using len by simp
  then have "mem_contents (c\<lparr>mc_array := put_slice (mc_array c) (nat s) (nat e) (go_copy ?part buf)\<rparr>) =
      put_slice (mem_contents c) (nat s) (nat e) (go_copy ?part buf)"
    and "mem_ok (c\<lparr>mc_array := put_slice (mc_array c) (nat s) (nat e) (go_copy ?part buf)\<rparr>)"
    and "int (length buf) \<le> e - s \<Longrightarrow> copy_count ?part buf = length buf"
    using len \<open>mem_ok c\<close> b
    by (simp_all add: mem_contents_def take_put_slice_beyond mem_ok_def copy_count_def)
  then show "\<exists>c' n. mem_WriteRange c s e buf = Some (c', n) \<and> mem_ok c' \<and>
        mem_contents c' = put_slice (mem_contents c) (nat s) (nat e)
          (go_copy (sub_slice (mem_contents c) (nat s) (nat e)) buf) \<and>
        (int (length buf) \<le> e - s \<longrightarrow> n = int (length buf))"
    using ok by (simp add: mem_WriteRange_def sub Let_def)
next
  fix c n
  assume c: "mem_ok c" and n: "0 \<le> n" "i64 n"
  have len: "length (mem_contents c) = mc_len c"
    using c by (simp add: mem_contents_def mem_ok_def)
  show "\<exists>c'. mem_Truncate grow c n = Some c' \<and> mem_ok c' \<and> mem_contents c' = resize (mem_contents c) (nat n)"
  proof (cases "mem_Size c < n")
    case True
    then have "mc_len c + nat (n - mem_Size c) = nat n" "nat (n - mem_Size c) = nat n - mc_len c"
      "mc_len c \<le> nat n"
      by (auto simp: mem_Size_def)
    then show ?thesis
      using True n len append_zeros_contents [OF c, of grow "nat (n - mem_Size c)"]
      by (auto simp: mem_Truncate_def mem_ok_def resize_def)
  next
    case False
    then show ?thesis
      using c n len
      by (auto simp: mem_Truncate_def mem_Size_def mem_ok_def slice_ok_def resize_def mem_contents_def min_def)
  qed
qed (auto simp: mem_Size_def mem_ok_def mem_contents_def)

lemma os_Write_inside:
  assumes "\<not> of_closed f" "0 \<le> of_pos f" "nat (of_pos f) + length b \<le> length (of_bytes f)"
  shows "of_bytes (os_Write f b) = put_slice (of_bytes f) (nat (of_pos f)) (nat (of_pos f) + length b) b"
    and "of_closed (os_Write f b) = of_closed f"
proof -
  have m: "max (nat (of_pos f)) (length (of_bytes f)) = length (of_bytes f)"
    using assms(3) by (simp add: max_def)
  show "of_bytes (os_Write f b) = put_slice (of_bytes f) (nat (of_pos f)) (nat (of_pos f) + length b) b"
    using assms by (simp add: os_Write_def m put_slice_def Let_def)
  show "of_closed (os_Write f b) = of_closed f" by (simp add: os_Write_def Let_def)
qed

lemma put_slice_short:
  assumes "s \<le> e" "e \<le> length xs"
  shows "put_slice xs s e (go_copy (sub_slice xs s e) b) =
    put_slice xs s (s + length (take (e - s) b)) (take (e - s) b)"
proof -
  have "drop (length b) (sub_slice xs s e) @ drop e xs = drop (s + length (take (e - s) b)) xs"
  proof (cases "length b \<le> e - s")
    case True
    have "drop (length b) (take (e - s) (drop s xs)) @ drop e xs =
        drop (length b) (take (e - s) (drop s xs) @ drop (e - s) (drop s xs))"
      using True assms by (simp add: min_def)
    also have "\<dots> = drop (length b) (drop s xs)" by (simp only: append_take_drop_id)
    also have "\<dots> = drop (s + length b) xs" by (simp add: add.commute)
    finally show ?thesis using True by (simp add: sub_slice_def)
  next
    case False
    then show ?thesis using assms by (simp add: sub_slice_def min_def)
  qed
  moreover have "length (sub_slice xs s e) = e - s" using assms by simp
  ultimately show ?thesis by (simp add: put_slice_def go_copy_def)
qed

interpretation diskcache: cache_contract disk_ReadRange "disk_WriteRange lw" disk_Truncate disk_Size
    disk_contents "disk_ok lw" for lw
proof unfold_locales
  fix c s e and buf :: bytes
  assume c: "disk_ok lw c" and b: "0 \<le> s" "s \<le> e" "e \<le> disk_Size c"
  let ?f = "dc_file c"
  let ?part = "sub_slice (disk_contents c) (nat s) (nat e)"
  have opn: "\<not> of_closed ?f" and lw: "limitwriter_ok lw"
    and sz: "disk_Size c = int (length (of_bytes ?f))" and "i64 (disk_Size c)"
    using c by (auto simp: disk_ok_def disk_Size_def)
  then have e: "nat e \<le> length (of_bytes ?f)" "nat s \<le> nat e" using b by auto
  have "i64 e" using b \<open>i64 (disk_Size c)\<close> by (auto simp: i64_def)
  then have n: "sub64 e s = e - s" using b by (simp add: i64_simps i64_nonneg_diff i64_between)
  have seek: "os_Seek ?f s = ?f\<lparr>of_pos := s\<rparr>" using opn b by (simp add: os_Seek_def)
  have part: "length ?part = nat e - nat s" using e by (simp add: disk_contents_def)
  have got: "take (min (length buf) (nat (e - s))) (drop (nat s) (of_bytes ?f)) = take (length buf) ?part"
    using b by (simp add: sub_slice_def disk_contents_def nat_diff_distrib min.commute)
  show "\<exists>c'. disk_ReadRange c s e buf =
          Some (c', go_copy buf ?part, int (copy_count buf ?part)) \<and>
        disk_ok lw c' \<and> disk_contents c' = disk_contents c"
  proof (cases "s < e")
    case True
    have "length (take (length buf) ?part) = copy_count buf ?part"
      by (simp add: copy_count_def min.commute)
    then show ?thesis
      using True c opn by (auto simp: disk_ReadRange_def n seek os_Read_def got disk_ok_def
          disk_contents_def Let_def)
  next
    case False
    then have "?part = []" and "e - s \<le> 0" using b by (simp_all add: sub_slice_def)
    then show ?thesis
      using c by (auto simp: disk_ReadRange_def n seek disk_ok_def disk_contents_def
          copy_count_def Let_def)
  qed
  obtain passed cnt where pw: "lw (e - s) buf = (passed, cnt)" by fastforce
  then have passed: "passed = take (nat e - nat s) buf"
    and cnt: "int (length buf) \<le> e - s \<Longrightarrow> cnt = int (length buf)"
    using lw b unfolding limitwriter_ok_def
    by (metis diff_ge_0_iff_ge fst_conv nat_diff_distrib, metis diff_ge_0_iff_ge snd_conv)
  have fits: "nat s + length passed \<le> length (of_bytes ?f)" using e passed by simp
  let ?g = "os_Write (?f\<lparr>of_pos := s\<rparr>) passed"
  have g: "of_bytes ?g = put_slice (of_bytes ?f) (nat s) (nat s + length passed) passed"
    "of_closed ?g = of_closed ?f"
    using os_Write_inside [of "?f\<lparr>of_pos := s\<rparr>" passed] opn b fits by simp_all
  have "of_bytes ?g = put_slice (disk_contents c) (nat s) (nat e) (go_copy ?part buf)"
    using put_slice_short [OF e(2) e(1), of buf] g(1) unfolding passed disk_contents_def by simp
  moreover have "length (of_bytes ?g) = length (of_bytes ?f)" using g fits by simp
  ultimately show "\<exists>c' n. disk_WriteRange lw c s e buf = Some (c', n) \<and> disk_ok lw c' \<and>
        disk_contents c' = put_slice (disk_contents c) (nat s) (nat e) (go_copy ?part buf) \<and>
        (int (length buf) \<le> e - s \<longrightarrow> n = int (length buf))"
    using c cnt g by (auto simp: disk_WriteRange_def n seek pw disk_ok_def disk_contents_def Let_def)
next
  fix c n
  assume "disk_ok lw c" "0 \<le> n" "i64 n"
  then show "\<exists>c'. disk_Truncate c n = Some c' \<and> disk_ok lw c' \<and>
      disk_contents c' = resize (disk_contents c) (nat n)"
    by (auto simp: disk_Truncate_def os_Truncate_def disk_ok_def disk_contents_def)
qed (auto simp: disk_Size_def disk_ok_def disk_contents_def)

definition cache_bytes :: "Cache \<Rightarrow> bytes" where
  "cache_bytes c = (case c of Mem m \<Rightarrow> mem_contents m | Disk d \<Rightarrow> disk_contents d)"

definition cache_ok :: "cache_env \<Rightarrow> Cache \<Rightarrow> bool" where
  "cache_ok E c = (case c of Mem m \<Rightarrow> mem_ok m | Disk d \<Rightarrow> disk_ok (ce_limitw E) d)"

interpretation anycache: cache_contract ReadRange "WriteRange E" "Truncate E" Size cache_bytes
    "cache_ok E" for E
proof unfold_locales
  fix c s e and buf :: bytes
  assume c: "cache_ok E c" and b: "0 \<le> s" "s \<le> e" "e \<le> Size c"
  show "\<exists>c'. ReadRange c s e buf =
          Some (c', go_copy buf (sub_slice (cache_bytes c) (nat s) (nat e)),
                int (copy_count buf (sub_slice (cache_bytes c) (nat s) (nat e)))) \<and>
        cache_ok E c' \<and> cache_bytes c' = cache_bytes c"
    using c b memcache.read_law [of _ s e buf] diskcache.read_law [of "ce_limitw E" _ s e buf]
    by (cases c) (fastforce simp: cache_ok_def cache_bytes_def ReadRange_def Size_def)+
  show "\<exists>c' n. WriteRange E c s e buf = Some (c', n) \<and> cache_ok E c' \<and>
        cache_bytes c' = put_slice (cache_bytes c) (nat s) (nat e)
          (go_copy (sub_slice (cache_bytes c) (nat s) (nat e)) buf) \<and>
        (int (length buf) \<le> e - s \<longrightarrow> n = int (length buf))"
    using c b memcache.write_law [of _ s e buf] diskcache.write_law [of "ce_limitw E" _ s e buf]
    by (cases c) (fastforce simp: cache_ok_def cache_bytes_def WriteRange_def Size_def)+
next
  fix c n
  assume "cache_ok E c" "0 \<le> n" "i64 n"
  then show "\<exists>c'. Truncate E c n = Some c' \<and> cache_ok E c' \<and> cache_bytes c' = resize (cache_bytes c) (nat n)"
    using memcache.truncate_law [of _ n "ce_grow E"] diskcache.truncate_law [of "ce_limitw E" _ n]
    by (cases c) (fastforce simp: cache_ok_def cache_bytes_def Truncate_def)+
next
  fix c
  assume "cache_ok E c"
  then show "Size c = int (length (cache_bytes c))" and "i64 (Size c)"
    using memcache.size_law memcache.size_i64 diskcache.size_law diskcache.size_i64
    by (auto simp: cache_ok_def cache_bytes_def Size_def split: Cache.splits)
qed

lemma NewMemoryCache_ok [simp]: "mem_ok NewMemoryCache" "mem_contents NewMemoryCache = []"
  by (simp_all add: NewMemoryCache_def mem_ok_def mem_contents_def i64_def)

lemma NewDiskCache_ok [simp]: "disk_ok lw NewDiskCache = limitwriter_ok lw" "disk_contents NewDiskCache = []"
  by (simp_all add: NewDiskCache_def disk_ok_def disk_contents_def i64_def)

end
