(* ===== verification/GoPath.thy ===== *)
theory GoPath
  imports Prelude
begin

text \<open>
  The file \<open>utils.go\<close> and what it needs of the package \<open>path/filepath\<close>. The flag \<open>win\<close> says
  whether the program runs on Windows, where the separators are both slashes and the
  backslash is the one \<open>Clean\<close> writes; paths have no volume name, as those a FUSE layer
  passes. Canonical paths are those of a list of names (\<open>mkpath\<close>); on them \<open>getDir\<close> drops
  the last name and \<open>filepath.Base\<close> returns it.
\<close>

section \<open>The library functions\<close>

abbreviation slash :: char where
  "slash \<equiv> CHR 0x2F"

abbreviation backslash :: char where
  "backslash \<equiv> CHR 0x5C"

definition is_sep :: "bool \<Rightarrow> char \<Rightarrow> bool" where
  "is_sep win c \<longleftrightarrow> c = slash \<or> win \<and> c = backslash"

definition sep_char :: "bool \<Rightarrow> char" where
  "sep_char win = (if win then backslash else slash)"

fun split_on :: "(char \<Rightarrow> bool) \<Rightarrow> string \<Rightarrow> string list" where
  "split_on p [] = [[]]"
| "split_on p (c # cs) =
     (if p c then [] # split_on p cs
      else (case split_on p cs of [] \<Rightarrow> [[c]] | w # ws \<Rightarrow> (c # w) # ws))"

fun join_with :: "char \<Rightarrow> string list \<Rightarrow> string" where
  "join_with c [] = []"
| "join_with c [w] = w"
| "join_with c (w # v # ws) = w @ c # join_with c (v # ws)"

text \<open>One element of a path, against the elements kept so far (the last one first).\<close>

definition clean_step :: "bool \<Rightarrow> string list \<Rightarrow> string \<Rightarrow> string list" where
  "clean_step rooted st w =
     (if w = [] \<or> w = ''.'' then st
      else if w = ''..'' then
        (case st of
           [] \<Rightarrow> if rooted then [] else [''..'']
         | t # ts \<Rightarrow> if t = ''..'' then ''..'' # st else ts)
      else w # st)"

definition filepath_Clean :: "bool \<Rightarrow> string \<Rightarrow> string" where
  "filepath_Clean win p =
     (if p = [] then ''.''
      else let rooted = is_sep win (hd p);
               ws = rev (foldl (clean_step rooted) [] (split_on (is_sep win) p))
           in if rooted then sep_char win # join_with (sep_char win) ws
              else if ws = [] then ''.''
              else join_with (sep_char win) ws)"

definition filepath_Dir :: "bool \<Rightarrow> string \<Rightarrow> string" where
  "filepath_Dir win p = filepath_Clean win (rev (dropWhile (\<lambda>c. \<not> is_sep win c) (rev p)))"

definition filepath_Base :: "bool \<Rightarrow> string \<Rightarrow> string" where
  "filepath_Base win p =
     (if p = [] then ''.''
      else let q = rev (takeWhile (\<lambda>c. \<not> is_sep win c) (dropWhile (is_sep win) (rev p)))
           in if q = [] then [sep_char win] else q)"

definition ReplaceAll_char :: "char \<Rightarrow> char \<Rightarrow> string \<Rightarrow> string" where
  "ReplaceAll_char old new s = map (\<lambda>c. if c = old then new else c) s"

definition getDir :: "bool \<Rightarrow> string \<Rightarrow> string" where
  "getDir win path = ReplaceAll_char backslash slash (filepath_Dir win path)"

section \<open>Canonical paths\<close>

definition good_name :: "string \<Rightarrow> bool" where
  "good_name w \<longleftrightarrow>
     w \<noteq> [] \<and> w \<noteq> ''.'' \<and> w \<noteq> ''..'' \<and> slash \<notin> set w \<and> backslash \<notin> set w"

definition path_body :: "string list \<Rightarrow> string" where
  "path_body ws = concat (map (\<lambda>w. slash # w) ws)"

definition mkpath :: "string list \<Rightarrow> string" where
  "mkpath ws = (if ws = [] then [slash] else path_body ws)"

definition components :: "string \<Rightarrow> string list" where
  "components p = filter (\<lambda>w. w \<noteq> []) (split_on (\<lambda>c. c = slash) p)"

definition wf_path :: "string \<Rightarrow> bool" where
  "wf_path p \<longleftrightarrow> list_all good_name (components p) \<and> p = mkpath (components p)"

lemma path_body_simps [simp]:
  "path_body [] = []"
  "path_body (w # ws) = slash # w @ path_body ws"
  "path_body (ws @ vs) = path_body ws @ path_body vs"
  by (simp_all add: path_body_def)

lemma good_name_no_sep: "good_name w \<Longrightarrow> c \<in> set w \<Longrightarrow> \<not> is_sep win c"
  by (auto simp: good_name_def is_sep_def)

lemma is_sep_slash [simp]: "is_sep win slash"
  by (simp add: is_sep_def)

lemma split_on_word:
  assumes "\<forall>c \<in> set w. \<not> p c" and "p s"
  shows "split_on p (w @ s # rest) = w # split_on p rest"
  using assms by (induction w) auto

lemma split_on_last: "\<forall>c \<in> set w. \<not> p c \<Longrightarrow> split_on p w = [w]"
  by (induction w) auto

lemma split_on_body:
  assumes "\<forall>c \<in> set w. \<not> p c" "p slash" "\<forall>v \<in> set ws. \<forall>c \<in> set v. \<not> p c"
  shows "split_on p (w @ path_body ws) = w # ws"
    and "split_on p (w @ path_body ws @ [slash]) = w # ws @ [[]]"
  using assms by (induction ws arbitrary: w) (auto simp: split_on_word split_on_last)

lemma components_mkpath:
  assumes "list_all good_name ws"
  shows "components (mkpath ws) = ws"
proof -
  have "\<forall>v \<in> set ws. \<forall>c \<in> set v. c \<noteq> slash" and "\<forall>v \<in> set ws. v \<noteq> []"
    using assms by (auto simp: list_all_iff good_name_def)
  then show ?thesis
    using split_on_body(1) [of "[]" "\<lambda>c. c = slash" ws]
    by (auto simp: components_def mkpath_def filter_id_conv)
qed

lemma wf_path_mkpath [simp]: "list_all good_name ws \<Longrightarrow> wf_path (mkpath ws)"
  by (simp add: wf_path_def components_mkpath)

lemma wf_pathE:
  assumes "wf_path p"
  obtains ws where "list_all good_name ws" and "p = mkpath ws"
  using assms by (auto simp: wf_path_def)

lemma mkpath_inject:
  "list_all good_name ws \<Longrightarrow> list_all good_name vs \<Longrightarrow> mkpath ws = mkpath vs \<longleftrightarrow> ws = vs"
  by (metis components_mkpath)

lemma foldl_clean_good:
  "list_all good_name ws \<Longrightarrow> foldl (clean_step r) st ws = rev ws @ st"
  by (induction ws arbitrary: st) (auto simp: clean_step_def good_name_def)

lemma replace_join:
  assumes "list_all good_name ws"
  shows "ReplaceAll_char backslash slash (sep_char win # join_with (sep_char win) ws) = mkpath ws"
proof -
  have w: "good_name w \<Longrightarrow> map (\<lambda>c. if c = backslash then slash else c) w = w" for w
    by (rule map_idI) (auto simp: good_name_def)
  have s: "(if sep_char win = backslash then slash else sep_char win) = slash"
    by (simp add: sep_char_def)
  have "ws \<noteq> [] \<Longrightarrow>
      slash # map (\<lambda>c. if c = backslash then slash else c) (join_with (sep_char win) ws) = path_body ws"
    using assms by (induction "sep_char win" ws rule: join_with.induct) (auto simp: w s)
  then show ?thesis by (simp add: ReplaceAll_char_def mkpath_def s)
qed

lemma clean_body:
  assumes "list_all good_name ws"
  shows "ReplaceAll_char backslash slash (filepath_Clean win (path_body ws @ [slash])) = mkpath ws"
proof -
  have "\<forall>v \<in> set ws. \<forall>c \<in> set v. \<not> is_sep win c"
    using assms good_name_no_sep by (auto simp: list_all_iff)
  then have "split_on (is_sep win) (path_body ws @ [slash]) = [] # ws @ [[]]"
    using split_on_body(2) [of "[]" "is_sep win" ws] by simp
  moreover have "is_sep win (hd (path_body ws @ [slash]))" by (cases ws) simp_all
  ultimately show ?thesis
    using assms replace_join [OF assms, of win]
    by (simp add: filepath_Clean_def foldl_clean_good clean_step_def Let_def)
qed

lemma mkpath_snoc: "mkpath (ws @ [w]) = path_body ws @ slash # w"
  by (simp add: mkpath_def)

lemma getDir_mkpath:
  assumes "list_all good_name ws" "good_name w"
  shows "getDir win (mkpath (ws @ [w])) = mkpath ws"
proof -
  have "dropWhile (\<lambda>c. \<not> is_sep win c) (rev (mkpath (ws @ [w]))) = slash # rev (path_body ws)"
    using assms(2) by (simp add: mkpath_snoc dropWhile_append good_name_no_sep)
  then show ?thesis using clean_body [OF assms(1)] by (simp add: getDir_def filepath_Dir_def)
qed

lemma getDir_root [simp]: "getDir win [slash] = [slash]"
  by (cases win) (simp_all add: getDir_def filepath_Dir_def filepath_Clean_def is_sep_def clean_step_def
      ReplaceAll_char_def sep_char_def)

lemma filepath_Base_mkpath:
  assumes "good_name w"
  shows "filepath_Base win (mkpath (ws @ [w])) = w"
proof -
  have ne: "rev w \<noteq> []" and last: "\<not> is_sep win (hd (rev w))"
    using assms good_name_no_sep by (auto simp: good_name_def hd_rev)
  then have "dropWhile (is_sep win) (rev w @ slash # rev (path_body ws)) = rev w @ slash # rev (path_body ws)"
    by (cases "rev w") auto
  moreover have "takeWhile (\<lambda>c. \<not> is_sep win c) (rev w @ slash # rev (path_body ws)) = rev w"
    using assms by (simp add: takeWhile_append good_name_no_sep)
  ultimately show ?thesis using ne by (simp add: filepath_Base_def mkpath_snoc)
qed

lemma wf_path_cases:
  assumes "wf_path p"
  obtains (root) "p = [slash]"
    | (child) ws w where "list_all good_name ws" "good_name w" "p = mkpath (ws @ [w])"
proof -
  obtain ws where ws: "list_all good_name ws" "p = mkpath ws" using assms by (rule wf_pathE)
  show ?thesis
  proof (cases ws rule: rev_cases)
    case Nil
    then show ?thesis using ws root by (simp add: mkpath_def)
  next
    case (snoc vs v)
    then show ?thesis using ws child [of vs v] by simp
  qed
qed

lemma wf_path_root [simp]: "wf_path [slash]"
  using wf_path_mkpath [of "[]"] by (simp add: mkpath_def)

lemma wf_path_getDir:
  assumes "wf_path p"
  shows "wf_path (getDir win p)"
  using assms
proof (cases p rule: wf_path_cases)
  case (child ws w)
  then show ?thesis using getDir_mkpath [OF child(1,2)] by simp
qed simp

text \<open>A path is a prefix of each path below it.\<close>

lemma prefix_getDir:
  assumes "wf_path p"
  shows "prefix (getDir win p) p"
  using assms
proof (cases p rule: wf_path_cases)
  case (child ws w)
  then have "getDir win p = mkpath ws" using getDir_mkpath [OF child(1,2)] by simp
  then show ?thesis using child by (simp add: mkpath_def)
qed simp

lemma getDir_neq:
  assumes "wf_path p" "p \<noteq> [slash]"
  shows "getDir win p \<noteq> p"
  using assms(1)
proof (cases p rule: wf_path_cases)
  case (child ws w)
  then show ?thesis using getDir_mkpath [OF child(1,2)] by (simp add: mkpath_inject)
qed (simp add: assms)

lemma getDir_Base_inject:
  assumes p: "wf_path p" "p \<noteq> [slash]" and q: "wf_path q" "q \<noteq> [slash]"
    and eq: "getDir win p = getDir win q" "filepath_Base win p = filepath_Base win q"
  shows "p = q"
proof -
  obtain ws w where p': "list_all good_name ws" "good_name w" "p = mkpath (ws @ [w])"
    using p by (cases p rule: wf_path_cases) auto
  obtain vs v where q': "list_all good_name vs" "good_name v" "q = mkpath (vs @ [v])"
    using q by (cases q rule: wf_path_cases) auto
  have "mkpath ws = mkpath vs" using eq(1) p' q' by (simp only: getDir_mkpath)
  then have "ws = vs" using p' q' by (simp add: mkpath_inject)
  moreover have "w = v" using eq(2) p' q' by (simp only: filepath_Base_mkpath)
  ultimately show ?thesis using p' q' by simp
qed

end
