(* ===== verification/TxModel.thy ===== *)
theory TxModel
  imports Prelude
begin

text \<open>
  The constants of \<open>common.go\<close> and the transaction record of \<open>tx.go\<close>. \<open>TxType\<close> and
  \<open>InodeType\<close> are Go integers: a transaction read from the log may carry any value. A
  \<open>time.Time\<close> is its Unix time in seconds and nanoseconds. The JSON encoder and decoder
  are a package of their own: parameters (\<open>marshal\<close>, \<open>unmarshal\<close>) where they are used.
\<close>

section \<open>Constants\<close>

definition TxChannelName :: string where
  "TxChannelName = ''tx''"

definition DataChannelName :: string where
  "DataChannelName = ''data''"

definition MaxDiscordFileSize :: int where
  "MaxDiscordFileSize = 26214400"

definition FileBlockSize :: int where
  "FileBlockSize = 8388119"

definition MaxDiscordMessageRequest :: nat where
  "MaxDiscordMessageRequest = 100"

definition MaxDiscordFileCount :: nat where
  "MaxDiscordFileCount = 10"

definition MaxRetries :: nat where
  "MaxRetries = 20"

type_synonym TxType = int

definition WriteTx :: TxType where
  "WriteTx = 0"

definition DeleteTx :: TxType where
  "DeleteTx = 1"

type_synonym InodeType = int

definition FileType :: InodeType where
  "FileType = 0"

definition FolderType :: InodeType where
  "FolderType = 1"

lemma type_distinct [simp]:
  "WriteTx \<noteq> DeleteTx" "DeleteTx \<noteq> WriteTx" "FileType \<noteq> FolderType" "FolderType \<noteq> FileType"
  by (simp_all add: WriteTx_def DeleteTx_def FileType_def FolderType_def)

section \<open>Transactions\<close>

type_synonym Time = "int \<times> int"

definition zero_time :: Time where
  "zero_time = (- 62135596800, 0)"

record Tx =
  tx_Ctim :: Time
  tx_Mtim :: Time
  tx_Path :: string
  tx_FileIDs :: "string list"
  tx_Checksums :: "string list"
  tx_Tx :: TxType
  tx_Type :: InodeType
  tx_Size :: int

definition zero_Tx :: Tx where
  "zero_Tx = \<lparr>tx_Ctim = zero_time, tx_Mtim = zero_time, tx_Path = [], tx_FileIDs = [],
     tx_Checksums = [], tx_Tx = 0, tx_Type = 0, tx_Size = 0\<rparr>"

definition createDeleteTx :: "string \<Rightarrow> Tx" where
  "createDeleteTx path = zero_Tx\<lparr>tx_Tx := DeleteTx, tx_Path := path\<rparr>"

definition folderTx :: "string \<Rightarrow> Tx" where
  "folderTx path = zero_Tx\<lparr>tx_Tx := WriteTx, tx_Path := path, tx_Type := FolderType\<rparr>"

lemma createDeleteTx_sel [simp]:
  "tx_Tx (createDeleteTx p) = DeleteTx" "tx_Path (createDeleteTx p) = p"
  by (simp_all add: createDeleteTx_def)

lemma folderTx_sel [simp]:
  "tx_Tx (folderTx p) = WriteTx" "tx_Path (folderTx p) = p" "tx_Type (folderTx p) = FolderType"
  by (simp_all add: folderTx_def)

end
