(* ===== verification/DbStore.thy ===== *)
theory DbStore
  imports TxModel
begin

text \<open>
  The first part of \<open>db.go\<close>: the database of transactions by path, behind the interface
  \<open>DB\<close>. \<open>MapDB\<close> is a Go map; \<open>RadixDB\<close> is a tree of the package
  \<open>hashicorp/go-immutable-radix\<close>, whose operations are the parameter \<open>iradix\<close>
  (\<open>iradix_laws\<close>: the tree behaves as a finite map, and an iterator after \<open>SeekPrefix\<close>
  yields each entry whose key has the prefix once). The iterators are modelled by what
  their \<open>Next\<close> still has to deliver. The locale \<open>db_contract\<close> is what the file system
  relies on, and is interpreted on both databases behind the interface.

  \<open>MapDB.Iterator\<close> starts a goroutine that sends the entries on an unbuffered channel; how it
  runs beside its caller is in \<open>MapIter\<close>.
\<close>

section \<open>Iterators\<close>

type_synonym Iterator = "(string \<times> Tx) list"

text \<open>\<open>Next\<close> returns the key, the transaction if there is one, and whether there is.\<close>

definition Next :: "Iterator \<Rightarrow> (string \<times> Tx option \<times> bool) \<times> Iterator" where
  "Next it = (case it of [] \<Rightarrow> (([], None, False), []) | (k, tx) # it' \<Rightarrow> ((k, Some tx, True), it'))"

text \<open>\<open>for key, tx, ok := it.Next(); ok; key, tx, ok = it.Next()\<close>\<close>

function drain :: "Iterator \<Rightarrow> (string \<times> Tx) list" where
  "drain it = (case Next it of
     ((k, Some tx, True), it') \<Rightarrow> (k, tx) # drain it'
   | _ \<Rightarrow> [])"
  by pat_completeness auto
termination
  by (relation "measure length") (auto simp: Next_def split: list.splits)

declare drain.simps [simp del]

lemma drain_all [simp]: "drain it = it"
proof (induction it)
  case Nil
  show ?case by (subst drain.simps) (simp add: Next_def)
next
  case (Cons x it)
  then show ?case by (cases x) (subst drain.simps, simp add: Next_def)
qed

section \<open>RadixDB\<close>

record 't iradix =
  ir_New :: 't
  ir_Get :: "'t \<Rightarrow> string \<Rightarrow> Tx option"
  ir_Insert :: "'t \<Rightarrow> string \<Rightarrow> Tx \<Rightarrow> 't"
  ir_Delete :: "'t \<Rightarrow> string \<Rightarrow> 't"
  ir_SeekPrefix :: "'t \<Rightarrow> string \<Rightarrow> (string \<times> Tx) list"

definition iradix_laws :: "'t iradix \<Rightarrow> bool" where
  "iradix_laws R \<longleftrightarrow>
     (\<forall>k. ir_Get R (ir_New R) k = None) \<and>
     (\<forall>t k v k'. ir_Get R (ir_Insert R t k v) k' = (if k' = k then Some v else ir_Get R t k')) \<and>
     (\<forall>t k k'. ir_Get R (ir_Delete R t k) k' = (if k' = k then None else ir_Get R t k')) \<and>
     (\<forall>t p. distinct (map fst (ir_SeekPrefix R t p)) \<and>
        set (ir_SeekPrefix R t p) = {(k, v). ir_Get R t k = Some v \<and> prefix p k})"

definition radix_Get :: "'t iradix \<Rightarrow> 't \<Rightarrow> string \<Rightarrow> Tx option" where
  "radix_Get R t key = ir_Get R t key"

definition radix_Insert :: "'t iradix \<Rightarrow> 't \<Rightarrow> string \<Rightarrow> Tx \<Rightarrow> 't" where
  "radix_Insert R t key v = ir_Insert R t key v"

definition radix_Delete :: "'t iradix \<Rightarrow> 't \<Rightarrow> string \<Rightarrow> 't" where
  "radix_Delete R t key = ir_Delete R t key"

definition radix_Iterator :: "'t iradix \<Rightarrow> 't \<Rightarrow> string \<Rightarrow> Iterator" where
  "radix_Iterator R t p = ir_SeekPrefix R t p"

section \<open>MapDB\<close>

definition map_Get :: "Tx gomap \<Rightarrow> string \<Rightarrow> Tx option" where
  "map_Get m key = go_get m key"

definition map_Insert :: "Tx gomap \<Rightarrow> string \<Rightarrow> Tx \<Rightarrow> Tx gomap" where
  "map_Insert m key v = go_set m key v"

definition map_Delete :: "Tx gomap \<Rightarrow> string \<Rightarrow> Tx gomap" where
  "map_Delete m key = go_del m key"

definition map_Iterator :: "(string list \<Rightarrow> string list) \<Rightarrow> Tx gomap \<Rightarrow> string \<Rightarrow> Iterator" where
  "map_Iterator ord m p = filter (\<lambda>(key, tx). prefix p key) (go_entries ord m)"

section \<open>The interface\<close>

datatype 't DB = RadixDB 't | MapDB "Tx gomap"

record 't db_env =
  de_iradix :: "'t iradix"
  de_order :: "string list \<Rightarrow> string list"

definition GetNewDB :: "'t db_env \<Rightarrow> string \<Rightarrow> 't DB option" where
  "GetNewDB E dbType =
     (if dbType = ''radix'' then Some (RadixDB (ir_New (de_iradix E)))
      else if dbType = ''map'' then Some (MapDB [])
      else None)"

definition db_Get :: "'t db_env \<Rightarrow> 't DB \<Rightarrow> string \<Rightarrow> Tx option" where
  "db_Get E d key = (case d of RadixDB t \<Rightarrow> radix_Get (de_iradix E) t key | MapDB m \<Rightarrow> map_Get m key)"

definition db_Insert :: "'t db_env \<Rightarrow> 't DB \<Rightarrow> string \<Rightarrow> Tx \<Rightarrow> 't DB" where
  "db_Insert E d key v = (case d of
     RadixDB t \<Rightarrow> RadixDB (radix_Insert (de_iradix E) t key v)
   | MapDB m \<Rightarrow> MapDB (map_Insert m key v))"

definition db_Delete :: "'t db_env \<Rightarrow> 't DB \<Rightarrow> string \<Rightarrow> 't DB" where
  "db_Delete E d key = (case d of
     RadixDB t \<Rightarrow> RadixDB (radix_Delete (de_iradix E) t key)
   | MapDB m \<Rightarrow> MapDB (map_Delete m key))"

definition db_Iterator :: "'t db_env \<Rightarrow> 't DB \<Rightarrow> string \<Rightarrow> Iterator" where
  "db_Iterator E d p = (case d of
     RadixDB t \<Rightarrow> radix_Iterator (de_iradix E) t p
   | MapDB m \<Rightarrow> map_Iterator (de_order E) m p)"

section \<open>The contract\<close>

locale db_contract =
  fixes get :: "'d \<Rightarrow> string \<Rightarrow> Tx option"
    and ins :: "'d \<Rightarrow> string \<Rightarrow> Tx \<Rightarrow> 'd"
    and del :: "'d \<Rightarrow> string \<Rightarrow> 'd"
    and iter :: "'d \<Rightarrow> string \<Rightarrow> Iterator"
    and ok :: "'d \<Rightarrow> bool"
  assumes get_insert: "ok d \<Longrightarrow> get (ins d k v) k' = (if k' = k then Some v else get d k')"
    and get_delete: "ok d \<Longrightarrow> get (del d k) k' = (if k' = k then None else get d k')"
    and ok_insert: "ok d \<Longrightarrow> ok (ins d k v)"
    and ok_delete: "ok d \<Longrightarrow> ok (del d k)"
    and set_iter: "ok d \<Longrightarrow> set (iter d p) = {(k, v). get d k = Some v \<and> prefix p k}"
    and distinct_iter: "ok d \<Longrightarrow> distinct (map fst (iter d p))"
begin

text \<open>The test for an empty folder: the iterator yields no key but the folder's own.\<close>

lemma only_itself:
  assumes "ok d"
  shows "list_all (\<lambda>(k, v). k = p) (iter d p) \<longleftrightarrow> (\<forall>k. get d k \<noteq> None \<and> prefix p k \<longrightarrow> k = p)"
  using set_iter [OF assms, of p] by (auto simp: list_all_iff)

lemma iter_lookup:
  assumes "ok d"
  shows "(k, v) \<in> set (iter d p) \<longleftrightarrow> get d k = Some v \<and> prefix p k"
  using set_iter [OF assms] by simp

text \<open>Replaying a list of insertions and deletions.\<close>

lemma replay:
  assumes "ok d"
  shows "ok (foldl (\<lambda>d (k, v). case v of Some tx \<Rightarrow> ins d k tx | None \<Rightarrow> del d k) d ops) \<and>
    get (foldl (\<lambda>d (k, v). case v of Some tx \<Rightarrow> ins d k tx | None \<Rightarrow> del d k) d ops) =
      foldl (\<lambda>m (k, v). m(k := v)) (get d) ops"
  using assms
proof (induction ops arbitrary: d)
  case (Cons x ops)
  obtain k v where x: "x = (k, v)" by fastforce
  let ?d = "case v of Some tx \<Rightarrow> ins d k tx | None \<Rightarrow> del d k"
  have "ok ?d" and "get ?d = (get d)(k := v)"
    using Cons.prems by (auto simp: ok_insert ok_delete get_insert get_delete fun_eq_iff split: option.splits)
  then show ?case using Cons.IH [of ?d] x by simp
qed simp

lemma mset_iter:
  assumes "ok d" "ok d'" "get d = get d'"
  shows "mset (iter d p) = mset (iter d' p)"
  using set_iter [OF assms(1), of p] set_iter [OF assms(2), of p] assms(3)
    distinct_iter [OF assms(1), of p] distinct_iter [OF assms(2), of p]
  by (auto simp: distinct_map intro!: set_eq_iff_mset_eq_distinct [THEN iffD1])

end

definition db_ok :: "'t db_env \<Rightarrow> 't DB \<Rightarrow> bool" where
  "db_ok E d = (case d of
     RadixDB t \<Rightarrow> iradix_laws (de_iradix E)
   | MapDB m \<Rightarrow> go_ok m \<and> order_ok (de_order E))"

interpretation mapdb: db_contract map_Get map_Insert map_Delete "map_Iterator ord"
    "\<lambda>m. go_ok m \<and> order_ok ord" for ord
  by unfold_locales
    (auto simp: map_Get_def map_Insert_def map_Delete_def map_Iterator_def set_go_entries
      distinct_map_filter distinct_go_entries)

interpretation radixdb: db_contract "radix_Get R" "radix_Insert R" "radix_Delete R"
    "radix_Iterator R" "\<lambda>t. iradix_laws R" for R
  by unfold_locales
    (simp_all add: iradix_laws_def radix_Get_def radix_Insert_def radix_Delete_def radix_Iterator_def)

interpretation anydb: db_contract "db_Get E" "db_Insert E" "db_Delete E" "db_Iterator E" "db_ok E"
    for E
proof unfold_locales
  fix d :: "'a DB" and k k' p v
  assume d: "db_ok E d"
  show "db_Get E (db_Insert E d k v) k' = (if k' = k then Some v else db_Get E d k')"
    using d by (auto simp: mapdb.get_insert radixdb.get_insert db_ok_def db_Get_def db_Insert_def split: DB.splits)
  show "db_Get E (db_Delete E d k) k' = (if k' = k then None else db_Get E d k')"
    using d by (auto simp: mapdb.get_delete radixdb.get_delete db_ok_def db_Get_def db_Delete_def split: DB.splits)
  show "db_ok E (db_Insert E d k v)" "db_ok E (db_Delete E d k)"
    using d by (auto simp: db_ok_def db_Insert_def db_Delete_def map_Insert_def map_Delete_def
        split: DB.splits)
  show "set (db_Iterator E d p) = {(k, v). db_Get E d k = Some v \<and> prefix p k}"
    using d by (auto simp: mapdb.set_iter radixdb.set_iter db_ok_def db_Get_def db_Iterator_def split: DB.splits)
  show "distinct (map fst (db_Iterator E d p))"
    using d by (auto simp: mapdb.distinct_iter radixdb.distinct_iter db_ok_def db_Iterator_def split: DB.splits)
qed

lemma iradix_laws_New: "iradix_laws R \<Longrightarrow> ir_Get R (ir_New R) k = None"
  by (simp add: iradix_laws_def)

lemma GetNewDB_empty:
  assumes "GetNewDB E t = Some d" "iradix_laws (de_iradix E)" "order_ok (de_order E)"
  shows "db_ok E d" and "db_Get E d k = None"
  using assms iradix_laws_New [OF assms(2)]
  by (auto simp: GetNewDB_def db_ok_def db_Get_def radix_Get_def map_Get_def split: if_splits)

end
