(* ===== verification/FuseTypes.thy ===== *)
theory FuseTypes
  imports TxModel "HOL-Library.Word"
begin

text \<open>
  The types and constants of the package \<open>fuse\<close> that the file system uses: the records of
  \<open>fsop.go\<close>, and the error codes and mode bits of \<open>fsop_nocgo_windows.go\<close>, the build whose
  constants the source spells out (in the cgo builds they come from the C headers; no
  theorem depends on more than their being distinct and positive). Unsigned 32-bit and
  64-bit fields are words.
\<close>

unbundle bit_operations_syntax

section \<open>Error codes\<close>

definition E2BIG :: int where "E2BIG = 7"
definition EACCES :: int where "EACCES = 13"
definition EADDRINUSE :: int where "EADDRINUSE = 100"
definition EADDRNOTAVAIL :: int where "EADDRNOTAVAIL = 101"
definition EAFNOSUPPORT :: int where "EAFNOSUPPORT = 102"
definition EAGAIN :: int where "EAGAIN = 11"
definition EALREADY :: int where "EALREADY = 103"
definition EBADF :: int where "EBADF = 9"
definition EBADMSG :: int where "EBADMSG = 104"
definition EBUSY :: int where "EBUSY = 16"
definition ECANCELED :: int where "ECANCELED = 105"
definition ECHILD :: int where "ECHILD = 10"
definition ECONNABORTED :: int where "ECONNABORTED = 106"
definition ECONNREFUSED :: int where "ECONNREFUSED = 107"
definition ECONNRESET :: int where "ECONNRESET = 108"
definition EDEADLK :: int where "EDEADLK = 36"
definition EDESTADDRREQ :: int where "EDESTADDRREQ = 109"
definition EDOM :: int where "EDOM = 33"
definition EEXIST :: int where "EEXIST = 17"
definition EFAULT :: int where "EFAULT = 14"
definition EFBIG :: int where "EFBIG = 27"
definition EHOSTUNREACH :: int where "EHOSTUNREACH = 110"
definition EIDRM :: int where "EIDRM = 111"
definition EILSEQ :: int where "EILSEQ = 42"
definition EINPROGRESS :: int where "EINPROGRESS = 112"
definition EINTR :: int where "EINTR = 4"
definition EINVAL :: int where "EINVAL = 22"
definition EIO :: int where "EIO = 5"
definition EISCONN :: int where "EISCONN = 113"
definition EISDIR :: int where "EISDIR = 21"
definition ELOOP :: int where "ELOOP = 114"
definition EMFILE :: int where "EMFILE = 24"
definition EMLINK :: int where "EMLINK = 31"
definition EMSGSIZE :: int where "EMSGSIZE = 115"
definition ENAMETOOLONG :: int where "ENAMETOOLONG = 38"
definition ENETDOWN :: int where "ENETDOWN = 116"
definition ENETRESET :: int where "ENETRESET = 117"
definition ENETUNREACH :: int where "ENETUNREACH = 118"
definition ENFILE :: int where "ENFILE = 23"
definition ENOBUFS :: int where "ENOBUFS = 119"
definition ENODATA :: int where "ENODATA = 120"
definition ENODEV :: int where "ENODEV = 19"
definition ENOENT :: int where "ENOENT = 2"
definition ENOEXEC :: int where "ENOEXEC = 8"
definition ENOLCK :: int where "ENOLCK = 39"
definition ENOLINK :: int where "ENOLINK = 121"
definition ENOMEM :: int where "ENOMEM = 12"
definition ENOMSG :: int where "ENOMSG = 122"
definition ENOPROTOOPT :: int where "ENOPROTOOPT = 123"
definition ENOSPC :: int where "ENOSPC = 28"
definition ENOSR :: int where "ENOSR = 124"
definition ENOSTR :: int where "ENOSTR = 125"
definition ENOSYS :: int where "ENOSYS = 40"
definition ENOTCONN :: int where "ENOTCONN = 126"
definition ENOTDIR :: int where "ENOTDIR = 20"
definition ENOTEMPTY :: int where "ENOTEMPTY = 41"
definition ENOTRECOVERABLE :: int where "ENOTRECOVERABLE = 127"
definition ENOTSOCK :: int where "ENOTSOCK = 128"
definition ENOTSUP :: int where "ENOTSUP = 129"
definition ENOTTY :: int where "ENOTTY = 25"
definition ENXIO :: int where "ENXIO = 6"
definition EOPNOTSUPP :: int where "EOPNOTSUPP = 130"
definition EOVERFLOW :: int where "EOVERFLOW = 132"
definition EOWNERDEAD :: int where "EOWNERDEAD = 133"
definition EPERM :: int where "EPERM = 1"
definition EPIPE :: int where "EPIPE = 32"
definition EPROTO :: int where "EPROTO = 134"
definition EPROTONOSUPPORT :: int where "EPROTONOSUPPORT = 135"
definition EPROTOTYPE :: int where "EPROTOTYPE = 136"
definition ERANGE :: int where "ERANGE = 34"
definition EROFS :: int where "EROFS = 30"
definition ESPIPE :: int where "ESPIPE = 29"
definition ESRCH :: int where "ESRCH = 3"
definition ETIME :: int where "ETIME = 137"
definition ETIMEDOUT :: int where "ETIMEDOUT = 138"
definition ETXTBSY :: int where "ETXTBSY = 139"
definition EWOULDBLOCK :: int where "EWOULDBLOCK = 140"
definition EXDEV :: int where "EXDEV = 18"
definition ENOATTR :: int where "ENOATTR = ENODATA"

lemmas errno_defs =
  E2BIG_def EACCES_def EADDRINUSE_def EADDRNOTAVAIL_def EAFNOSUPPORT_def EAGAIN_def
  EALREADY_def EBADF_def EBADMSG_def EBUSY_def ECANCELED_def ECHILD_def ECONNABORTED_def
  ECONNREFUSED_def ECONNRESET_def EDEADLK_def EDESTADDRREQ_def EDOM_def EEXIST_def EFAULT_def
  EFBIG_def EHOSTUNREACH_def EIDRM_def EILSEQ_def EINPROGRESS_def EINTR_def EINVAL_def EIO_def
  EISCONN_def EISDIR_def ELOOP_def EMFILE_def EMLINK_def EMSGSIZE_def ENAMETOOLONG_def
  ENETDOWN_def ENETRESET_def ENETUNREACH_def ENFILE_def ENOATTR_def ENOBUFS_def ENODATA_def
  ENODEV_def ENOENT_def ENOEXEC_def ENOLCK_def ENOLINK_def ENOMEM_def ENOMSG_def
  ENOPROTOOPT_def ENOSPC_def ENOSR_def ENOSTR_def ENOSYS_def ENOTCONN_def ENOTDIR_def
  ENOTEMPTY_def ENOTRECOVERABLE_def ENOTSOCK_def ENOTSUP_def ENOTTY_def ENXIO_def
  EOPNOTSUPP_def EOVERFLOW_def EOWNERDEAD_def EPERM_def EPIPE_def EPROTO_def
  EPROTONOSUPPORT_def EPROTOTYPE_def ERANGE_def EROFS_def ESPIPE_def ESRCH_def ETIME_def
  ETIMEDOUT_def ETXTBSY_def EWOULDBLOCK_def EXDEV_def

section \<open>File types\<close>

definition S_IFREG :: "32 word" where "S_IFREG = 0x8000"
definition S_IFDIR :: "32 word" where "S_IFDIR = 0x4000"

text \<open>The mode bits \<open>0o777\<close>.\<close>

definition mode_777 :: "32 word" where "mode_777 = 0x1FF"

section \<open>Records\<close>

record Timespec =
  ts_Sec :: int
  ts_Nsec :: int

definition NewTimespec :: "Time \<Rightarrow> Timespec" where
  "NewTimespec t = \<lparr>ts_Sec = fst t, ts_Nsec = snd t\<rparr>"

definition zero_Timespec :: Timespec where
  "zero_Timespec = \<lparr>ts_Sec = 0, ts_Nsec = 0\<rparr>"

record Stat_t =
  st_Dev :: "64 word"
  st_Ino :: "64 word"
  st_Mode :: "32 word"
  st_Nlink :: "32 word"
  st_Uid :: "32 word"
  st_Gid :: "32 word"
  st_Rdev :: "64 word"
  st_Size :: int
  st_Atim :: Timespec
  st_Mtim :: Timespec
  st_Ctim :: Timespec
  st_Blksize :: int
  st_Blocks :: int
  st_Birthtim :: Timespec
  st_Flags :: "32 word"

definition zero_Stat :: Stat_t where
  "zero_Stat = \<lparr>st_Dev = 0, st_Ino = 0, st_Mode = 0, st_Nlink = 0, st_Uid = 0, st_Gid = 0, st_Rdev = 0,
     st_Size = 0, st_Atim = zero_Timespec, st_Mtim = zero_Timespec, st_Ctim = zero_Timespec,
     st_Blksize = 0, st_Blocks = 0, st_Birthtim = zero_Timespec, st_Flags = 0\<rparr>"

record Statfs_t =
  sf_Bsize :: "64 word"
  sf_Frsize :: "64 word"
  sf_Blocks :: "64 word"
  sf_Bfree :: "64 word"
  sf_Bavail :: "64 word"
  sf_Files :: "64 word"
  sf_Ffree :: "64 word"
  sf_Favail :: "64 word"
  sf_Fsid :: "64 word"
  sf_Flag :: "64 word"
  sf_Namemax :: "64 word"

definition zero_Statfs :: Statfs_t where
  "zero_Statfs = \<lparr>sf_Bsize = 0, sf_Frsize = 0, sf_Blocks = 0, sf_Bfree = 0, sf_Bavail = 0,
     sf_Files = 0, sf_Ffree = 0, sf_Favail = 0, sf_Fsid = 0, sf_Flag = 0, sf_Namemax = 0\<rparr>"

text \<open>The file handle \<open>^uint64(0)\<close> of a failed open.\<close>

definition no_handle :: "64 word" where
  "no_handle = NOT 0"

lemma mode_distinct [simp]: "S_IFREG OR mode_777 \<noteq> S_IFDIR OR mode_777"
  by (simp add: S_IFREG_def S_IFDIR_def mode_777_def)

end
