(* ===== verification/Dsfs.thy ===== *)
theory Dsfs
  imports LoadRanges CacheStore GoPath DbStore FuseTypes
begin

text \<open>
  The file \<open>fs.go\<close> without its background work: the state of the file system and the
  methods the FUSE layer calls, each as one function on the state.

  State. \<open>Dsfs\<close> holds the database, the map of open files and the lock \<open>fs.lock\<close>.
  The open map holds pointers: \<open>fs_heap\<close> is the store of \<open>FileData\<close> objects and a pointer
  is an index into it, so that a path can be renamed while a goroutine keeps the pointer.
  Locks are free between two calls, unless a panic left one taken: \<open>fs_locked\<close> for
  \<open>fs.lock\<close>, \<open>fd_lock\<close> for the lock of a file. A call that needs such a lock \<open>Blocks\<close>.

  Goroutines. A method's outcome lists the goroutines it starts (\<open>job\<close>): the sends of
  transactions, the download that follows an \<open>Open\<close> and the upload that follows a
  \<open>Release\<close>. Their bodies are modelled in the theory \<open>Sync\<close>.

  Parameters (\<open>env\<close>): those of the caches and of the database, the sort of the load
  ranges, the platform, the checksum (SHA-1 in base64), and the JSON encoder. The clock is
  an argument of the methods that read it.
\<close>

section \<open>State\<close>

datatype lock = Free | RHeld | WHeld

record FileData =
  fd_mtim :: Time
  fd_ctim :: Time
  fd_syncing :: bool
  fd_load :: Load
  fd_cache :: Cache
  fd_lock :: lock
  fd_dirty :: bool

record 't Dsfs =
  fs_db :: "'t DB"
  fs_open :: "nat gomap"
  fs_heap :: "FileData list"
  fs_locked :: bool
  fs_cacheType :: string
  fs_txChannel :: string
  fs_dataChannel :: string

record 't env =
  env_cache :: cache_env
  env_db :: "'t db_env"
  env_sort :: "Range list \<Rightarrow> Range list"
  env_win :: bool
  env_sum :: "bytes \<Rightarrow> string"
  env_marshal :: "Tx \<Rightarrow> string"

datatype job =
    SendTx string
  | SendTxs string string
  | LoadFile string Tx
  | Upload nat string Tx "Tx option"

definition NewDsfs :: "'t DB \<Rightarrow> string \<Rightarrow> string \<Rightarrow> string \<Rightarrow> 't Dsfs" where
  "NewDsfs d txChannel dataChannel cacheType =
     \<lparr>fs_db = d, fs_open = [], fs_heap = [], fs_locked = False, fs_cacheType = cacheType,
      fs_txChannel = txChannel, fs_dataChannel = dataChannel\<rparr>"

text \<open>\<open>GetNewCache\<close> panics for an unknown cache type.\<close>

definition GetNewCache :: "'t Dsfs \<Rightarrow> Cache option" where
  "GetNewCache s =
     (if fs_cacheType s = ''disk'' then Some (Disk NewDiskCache)
      else if fs_cacheType s = ''memory'' then Some (Mem NewMemoryCache)
      else None)"

definition get :: "'t env \<Rightarrow> 't Dsfs \<Rightarrow> string \<Rightarrow> Tx option" where
  "get E s path = db_Get (env_db E) (fs_db s) path"

definition file_at :: "'t Dsfs \<Rightarrow> nat \<Rightarrow> FileData" where
  "file_at s r = fs_heap s ! r"

definition set_file :: "'t Dsfs \<Rightarrow> nat \<Rightarrow> FileData \<Rightarrow> 't Dsfs" where
  "set_file s r f = s\<lparr>fs_heap := (fs_heap s)[r := f]\<rparr>"

text \<open>\<open>fs.open[path] = &FileData{...}\<close>\<close>

definition open_new :: "'t Dsfs \<Rightarrow> string \<Rightarrow> FileData \<Rightarrow> 't Dsfs" where
  "open_new s path f =
     s\<lparr>fs_heap := fs_heap s @ [f], fs_open := go_set (fs_open s) path (length (fs_heap s))\<rparr>"

definition fresh_file :: "Cache \<Rightarrow> Time \<Rightarrow> Time \<Rightarrow> FileData" where
  "fresh_file c mtim ctim =
     \<lparr>fd_mtim = mtim, fd_ctim = ctim, fd_syncing = False, fd_load = newLoad, fd_cache = c,
      fd_lock = Free, fd_dirty = False\<rparr>"

section \<open>Names\<close>

definition Mknod ::
    "'t env \<Rightarrow> Time \<Rightarrow> Time \<Rightarrow> string \<Rightarrow> 't Dsfs \<Rightarrow> ('t Dsfs, int, job) outcome" where
  "Mknod E now1 now2 path s =
     (if fs_locked s then Blocks
      else if go_get (fs_open s) path \<noteq> None then Ret s (- EEXIST) []
      else if get E s (getDir (env_win E) path) = None then Ret s (- ENOENT) []
      else if get E s path \<noteq> None then Ret s (- EEXIST) []
      else (case GetNewCache s of
              None \<Rightarrow> Panics s
            | Some c \<Rightarrow> Ret (open_new s path (fresh_file c now1 now2)) 0 []))"

definition Mkdir :: "'t env \<Rightarrow> string \<Rightarrow> 't Dsfs \<Rightarrow> ('t Dsfs, int, job) outcome" where
  "Mkdir E path s =
     (if fs_locked s then Blocks
      else if get E s (getDir (env_win E) path) = None then Ret s (- ENOENT) []
      else if get E s path \<noteq> None then Ret s (- EEXIST) []
      else
        let tx = folderTx path;
            s' = s\<lparr>fs_db := db_Insert (env_db E) (fs_db s) path tx\<rparr>;
            b = env_marshal E tx
        in if MaxDiscordFileSize < int (length b) then Ret s' (- EACCES) []
           else Ret s' 0 [SendTx b])"

definition Open :: "'t env \<Rightarrow> string \<Rightarrow> 't Dsfs \<Rightarrow> ('t Dsfs, int \<times> 64 word, job) outcome" where
  "Open E path s =
     (if fs_locked s then Blocks
      else if go_get (fs_open s) path \<noteq> None then Ret s (0, 1) []
      else (case get E s path of
        None \<Rightarrow> Ret s (- EEXIST, no_handle) []
      | Some tx \<Rightarrow>
          if tx_Type tx = FolderType then Ret s (0, 1) []
          else (case Option.bind (GetNewCache s) (\<lambda>c. Truncate (env_cache E) c (tx_Size tx)) of
              None \<Rightarrow> Panics (s\<lparr>fs_locked := True\<rparr>)
            | Some c \<Rightarrow>
                Ret (open_new s path (fresh_file c (tx_Mtim tx) (tx_Ctim tx))) (0, 1)
                    [LoadFile path tx])))"

definition Unlink :: "'t env \<Rightarrow> string \<Rightarrow> 't Dsfs \<Rightarrow> ('t Dsfs, int, job) outcome" where
  "Unlink E path s =
     (if fs_locked s then Blocks
      else (case get E s path of
        None \<Rightarrow>
          if go_get (fs_open s) path \<noteq> None
          then Ret (s\<lparr>fs_open := go_del (fs_open s) path\<rparr>) 0 []
          else Ret s (- ENOENT) []
      | Some tx \<Rightarrow>
          if tx_Type tx = FolderType then Ret s (- EISDIR) []
          else
            let s' = s\<lparr>fs_open := go_del (fs_open s) path,
                       fs_db := db_Delete (env_db E) (fs_db s) path\<rparr>;
                b = env_marshal E (createDeleteTx path)
            in if MaxDiscordFileSize < int (length b) then Ret s' (- EACCES) []
               else Ret s' 0 [SendTx b]))"

text \<open>The loop over the iterator that looks for a key other than the folder's own.\<close>

definition has_other_key :: "'t env \<Rightarrow> 't Dsfs \<Rightarrow> string \<Rightarrow> bool" where
  "has_other_key E s path =
     list_ex (\<lambda>(key, tx). key \<noteq> path) (drain (db_Iterator (env_db E) (fs_db s) path))"

definition Rmdir :: "'t env \<Rightarrow> string \<Rightarrow> 't Dsfs \<Rightarrow> ('t Dsfs, int, job) outcome" where
  "Rmdir E path s =
     (if fs_locked s then Blocks
      else (case get E s path of
        None \<Rightarrow> Ret s (- ENOENT) []
      | Some tx \<Rightarrow>
          if tx_Type tx \<noteq> FolderType then Ret s (- ENOTDIR) []
          else if has_other_key E s path then Ret s (- ENOTEMPTY) []
          else
            let s' = s\<lparr>fs_db := db_Delete (env_db E) (fs_db s) path\<rparr>;
                b = env_marshal E (createDeleteTx path)
            in if MaxDiscordFileSize < int (length b) then Ret s' (- EACCES) []
               else Ret s' 0 [SendTx b]))"

text \<open>\<open>fs.open[newpath] = val; delete(fs.open, oldpath)\<close>, when \<open>oldpath\<close> is open.\<close>

definition move_open :: "'t Dsfs \<Rightarrow> string \<Rightarrow> string \<Rightarrow> 't Dsfs" where
  "move_open s oldpath newpath = (case go_get (fs_open s) oldpath of
     None \<Rightarrow> s
   | Some val \<Rightarrow> s\<lparr>fs_open := go_del (go_set (fs_open s) newpath val) oldpath\<rparr>)"

text \<open>
  The second half of \<open>Rename\<close>, after the first critical section. \<open>tx\<close> points at the
  transaction in the database, so \<open>tx.Path = newpath\<close> changes the entry of \<open>oldpath\<close>
  before the lengths are checked.
\<close>

definition rename_commit ::
    "'t env \<Rightarrow> string \<Rightarrow> string \<Rightarrow> Tx \<Rightarrow> 't Dsfs \<Rightarrow> ('t Dsfs, int, job) outcome" where
  "rename_commit E oldpath newpath tx0 s =
     (let tx = tx0\<lparr>tx_Path := newpath\<rparr>;
          s1 = s\<lparr>fs_db := db_Insert (env_db E) (fs_db s) oldpath tx\<rparr>;
          writeTxBytes = env_marshal E tx;
          deleteTxBytes = env_marshal E (createDeleteTx oldpath)
      in if MaxDiscordFileSize < int (length writeTxBytes) then Ret s1 (- EACCES) []
         else if MaxDiscordFileSize < int (length deleteTxBytes) then Ret s1 (- EACCES) []
         else
           let jobs = (if MaxDiscordFileSize < int (length writeTxBytes + length deleteTxBytes)
                       then [SendTxs writeTxBytes deleteTxBytes]
                       else [SendTx (writeTxBytes @ CHR 0x0A # deleteTxBytes)])
           in Ret (s1\<lparr>fs_db := db_Delete (env_db E) (db_Insert (env_db E) (fs_db s1) newpath tx) oldpath\<rparr>)
                  0 jobs)"

definition Rename :: "'t env \<Rightarrow> string \<Rightarrow> string \<Rightarrow> 't Dsfs \<Rightarrow> ('t Dsfs, int, job) outcome" where
  "Rename E oldpath newpath s =
     (if fs_locked s then Blocks
      else if get E s (getDir (env_win E) newpath) = None then Ret s (- ENOENT) []
      else (case get E s oldpath of
        None \<Rightarrow>
          if go_get (fs_open s) oldpath \<noteq> None then Ret (move_open s oldpath newpath) 0 []
          else Ret s (- ENOENT) []
      | Some tx \<Rightarrow>
          if tx_Type tx = FolderType
          then (if has_other_key E s oldpath then Ret s (- ENOTEMPTY) []
                else rename_commit E oldpath newpath tx s)
          else rename_commit E oldpath newpath tx (move_open s oldpath newpath)))"

text \<open>
  The same in parts, for other goroutines to come in between: the first critical section,
  what follows it without a lock, and the second critical section. The transaction is
  changed in the database as long as it is the one that is stored there. A sum holds the
  return value of a \<open>Rename\<close> that has ended, or the transaction with which it goes on.
\<close>

definition rename_check ::
    "'t env \<Rightarrow> string \<Rightarrow> string \<Rightarrow> 't Dsfs \<Rightarrow> ('t Dsfs, int + Tx, job) outcome" where
  "rename_check E oldpath newpath s =
     (if fs_locked s then Blocks
      else if get E s (getDir (env_win E) newpath) = None then Ret s (Inl (- ENOENT)) []
      else (case get E s oldpath of
        None \<Rightarrow>
          if go_get (fs_open s) oldpath \<noteq> None then Ret (move_open s oldpath newpath) (Inl 0) []
          else Ret s (Inl (- ENOENT)) []
      | Some tx \<Rightarrow>
          if tx_Type tx = FolderType
          then (if has_other_key E s oldpath then Ret s (Inl (- ENOTEMPTY)) [] else Ret s (Inr tx) [])
          else Ret (move_open s oldpath newpath) (Inr tx) []))"

definition rename_send ::
    "'t env \<Rightarrow> string \<Rightarrow> string \<Rightarrow> Tx \<Rightarrow> 't Dsfs \<Rightarrow> ('t Dsfs, int + Tx, job) outcome" where
  "rename_send E oldpath newpath tx0 s =
     (let tx = tx0\<lparr>tx_Path := newpath\<rparr>;
          s1 = (if get E s oldpath = Some tx0
                then s\<lparr>fs_db := db_Insert (env_db E) (fs_db s) oldpath tx\<rparr> else s);
          writeTxBytes = env_marshal E tx;
          deleteTxBytes = env_marshal E (createDeleteTx oldpath)
      in if MaxDiscordFileSize < int (length writeTxBytes) then Ret s1 (Inl (- EACCES)) []
         else if MaxDiscordFileSize < int (length deleteTxBytes) then Ret s1 (Inl (- EACCES)) []
         else Ret s1 (Inr tx)
                (if MaxDiscordFileSize < int (length writeTxBytes + length deleteTxBytes)
                 then [SendTxs writeTxBytes deleteTxBytes]
                 else [SendTx (writeTxBytes @ CHR 0x0A # deleteTxBytes)]))"

definition rename_store ::
    "'t env \<Rightarrow> string \<Rightarrow> string \<Rightarrow> Tx \<Rightarrow> 't Dsfs \<Rightarrow> ('t Dsfs, int, job) outcome" where
  "rename_store E oldpath newpath tx s =
     (if fs_locked s then Blocks
      else Ret (s\<lparr>fs_db := db_Delete (env_db E) (db_Insert (env_db E) (fs_db s) newpath tx) oldpath\<rparr>) 0 [])"

text \<open>One after the other they are \<open>Rename\<close>.\<close>

lemma Rename_sections:
  "Rename E oldpath newpath s = (case rename_check E oldpath newpath s of
     Ret s1 (Inl r) js \<Rightarrow> Ret s1 r js
   | Ret s1 (Inr tx0) js1 \<Rightarrow> (case rename_send E oldpath newpath tx0 s1 of
        Ret s2 (Inl r) js \<Rightarrow> Ret s2 r js
      | Ret s2 (Inr tx) js \<Rightarrow> (case rename_store E oldpath newpath tx s2 of
           Ret s3 r js3 \<Rightarrow> Ret s3 r js
         | Panics s3 \<Rightarrow> Panics s3
         | Blocks \<Rightarrow> Blocks)
      | Panics s2 \<Rightarrow> Panics s2
      | Blocks \<Rightarrow> Blocks)
   | Panics s1 \<Rightarrow> Panics s1
   | Blocks \<Rightarrow> Blocks)"
proof -
  have "get E (move_open s oldpath newpath) k = get E s k"
    "fs_locked (move_open s oldpath newpath) = fs_locked s" for k
    by (simp_all add: get_def move_open_def split: option.splits)
  then show ?thesis
    by (cases "get E s oldpath"; cases "go_get (fs_open s) oldpath")
      (simp_all add: Rename_def rename_check_def rename_commit_def rename_send_def rename_store_def Let_def)
qed

section \<open>Attributes and directories\<close>

definition file_stat :: "int \<Rightarrow> Time \<Rightarrow> Time \<Rightarrow> Stat_t \<Rightarrow> Stat_t" where
  "file_stat sz ctim mtim stat =
     stat\<lparr>st_Mode := S_IFREG OR mode_777, st_Size := sz, st_Ctim := NewTimespec ctim,
          st_Mtim := NewTimespec mtim\<rparr>"

definition dir_stat :: "Stat_t \<Rightarrow> Stat_t" where
  "dir_stat stat = stat\<lparr>st_Mode := S_IFDIR OR mode_777\<rparr>"

definition Getattr ::
    "'t env \<Rightarrow> string \<Rightarrow> Stat_t \<Rightarrow> 't Dsfs \<Rightarrow> ('t Dsfs, int \<times> Stat_t, job) outcome" where
  "Getattr E path stat s =
     (if fs_locked s then Blocks
      else (case go_get (fs_open s) path of
        Some r \<Rightarrow>
          let file = file_at s r
          in Ret s (0, file_stat (Size (fd_cache file)) (fd_ctim file) (fd_mtim file) stat) []
      | None \<Rightarrow> (case get E s path of
            None \<Rightarrow> Ret s (- ENOENT, stat) []
          | Some tx \<Rightarrow>
              if tx_Type tx = FileType
              then Ret s (0, file_stat (tx_Size tx) (tx_Ctim tx) (tx_Mtim tx) stat) []
              else Ret s (0, dir_stat stat) [])))"

text \<open>A call of \<open>fill\<close>: the name, the attributes if any, and the offset.\<close>

type_synonym fill_call = "string \<times> Stat_t option \<times> int"

definition Opendir :: "string \<Rightarrow> int \<times> 64 word" where
  "Opendir path = (0, 1)"

definition db_fill :: "string \<Rightarrow> Tx \<Rightarrow> fill_call" where
  "db_fill name tx =
     (name,
      Some (if tx_Type tx = FileType
            then file_stat (tx_Size tx) (tx_Ctim tx) (tx_Mtim tx) zero_Stat
            else dir_stat zero_Stat),
      0)"

definition Readdir ::
    "'t env \<Rightarrow> string \<Rightarrow> 't Dsfs \<Rightarrow> ('t Dsfs, int \<times> fill_call list, job) outcome" where
  "Readdir E path s =
     (if fs_locked s then Blocks
      else
        let win = env_win E;
            dots = [(''.'', Some (dir_stat zero_Stat), 0), (''..'', None, 0)];
            stored = [db_fill (filepath_Base win key) tx.
                      (key, tx) \<leftarrow> drain (db_Iterator (env_db E) (fs_db s) path),
                      go_get (fs_open s) key = None \<and> \<not> (key = path \<or> getDir win key \<noteq> path)];
            opened = [(filepath_Base win key,
                       Some (file_stat (Size (fd_cache (file_at s r))) (fd_ctim (file_at s r))
                                       (fd_mtim (file_at s r)) zero_Stat),
                       0).
                      (key, r) \<leftarrow> go_entries (de_order (env_db E)) (fs_open s),
                      getDir win key = path]
        in Ret s (0, dots @ stored @ opened) [])"

definition Releasedir :: "string \<Rightarrow> int" where
  "Releasedir path = 0"

definition Statfs :: "string \<Rightarrow> Statfs_t \<Rightarrow> int \<times> Statfs_t" where
  "Statfs path stat =
     (let s1 = stat\<lparr>sf_Bsize := 4096\<rparr>;
          s2 = s1\<lparr>sf_Frsize := sf_Bsize s1\<rparr>;
          s3 = s2\<lparr>sf_Blocks := 256 * 1024 * 1024 * 1024\<rparr>;
          s4 = s3\<lparr>sf_Bfree := sf_Blocks s3\<rparr>
      in (0, s4\<lparr>sf_Bavail := sf_Blocks s4\<rparr>))"

end
