(* ===== verification/FileOps.thy ===== *)
theory FileOps
  imports Dsfs
begin

text \<open>
  The methods of \<open>fs.go\<close> on the content of an open file: \<open>Truncate\<close> (here \<open>fs_Truncate\<close>),
  \<open>Read\<close>, \<open>Write\<close> and the part of \<open>Release\<close> the caller waits for.

  None of them defers the release of \<open>file.lock\<close>: a panic in between leaves it taken, for
  writing (\<open>WHeld\<close>) or for reading (\<open>RHeld\<close>), and the load ranges, which nobody can read
  any more, as they were. \<open>Read\<close> gives its lock up while it waits for bytes to arrive:
  \<open>bg k\<close> is what the other goroutines do to the file during its \<open>k\<close>-th pause.
\<close>

section \<open>Truncate\<close>

definition fs_Truncate ::
    "'t env \<Rightarrow> Time \<Rightarrow> string \<Rightarrow> int \<Rightarrow> 't Dsfs \<Rightarrow> ('t Dsfs, int, job) outcome" where
  "fs_Truncate E now path sz s =
     (if fs_locked s then Blocks
      else (case go_get (fs_open s) path of
        None \<Rightarrow> Ret s (- ENOENT) []
      | Some r \<Rightarrow>
          let file = file_at s r; filesize = Size (fd_cache file) in
          if fd_lock file \<noteq> Free then Blocks
          else if sz = filesize then Ret s 0 []
          else (case (if sz < filesize then truncate_load (fd_load file) sz
                      else Some (addRange (fd_load file) filesize (add64 filesize sz))) of
            None \<Rightarrow> Panics (set_file s r (file\<lparr>fd_lock := WHeld\<rparr>))
          | Some load \<Rightarrow>
              (case Truncate (env_cache E) (fd_cache file) sz of
                 None \<Rightarrow> Panics (set_file s r (file\<lparr>fd_load := load, fd_lock := WHeld\<rparr>))
               | Some cache \<Rightarrow>
                   Ret (set_file s r (file\<lparr>fd_load := load, fd_cache := cache, fd_mtim := now,
                                            fd_dirty := True\<rparr>)) 0 []))))"

section \<open>Read\<close>

text \<open>How the wait for bytes ends: with a number of bytes to read, after the last retry, or
  not at all, because the lock is never released.\<close>

datatype wait = Ready FileData int | GaveUp FileData | Stuck FileData

function read_wait ::
    "(Range list \<Rightarrow> Range list) \<Rightarrow> (nat \<Rightarrow> FileData \<Rightarrow> FileData) \<Rightarrow> int \<Rightarrow> int \<Rightarrow> nat \<Rightarrow> FileData \<Rightarrow> wait" where
  "read_wait sortf bg buffLen ofst retries file =
     (if fd_lock file = WHeld then Stuck file
      else
        let filesize = Size (fd_cache file);
            (load, ready) = bytesReady sortf (fd_load file) ofst;
            file' = file\<lparr>fd_load := load\<rparr>
        in if 0 < ready then
             (let n = (if buffLen < ready then buffLen else ready)
              in Ready file' (if filesize < add64 ofst n then sub64 filesize ofst else n))
           else if MaxRetries \<le> retries then GaveUp file'
           else read_wait sortf bg buffLen ofst (Suc retries) (bg retries file'))"
  by pat_completeness auto
termination
  by (relation "measure (\<lambda>(sortf, bg, buffLen, ofst, retries, file). MaxRetries - retries)") auto

declare read_wait.simps [simp del]

definition Read ::
    "'t env \<Rightarrow> (nat \<Rightarrow> FileData \<Rightarrow> FileData) \<Rightarrow> string \<Rightarrow> bytes \<Rightarrow> int \<Rightarrow> 't Dsfs \<Rightarrow>
     ('t Dsfs, int \<times> bytes, job) outcome" where
  "Read E bg path buff ofst s =
     (if fs_locked s then Blocks
      else (case go_get (fs_open s) path of
        None \<Rightarrow> Ret s (- ENOENT, buff) []
      | Some r \<Rightarrow>
          (case read_wait (env_sort E) bg (int (length buff)) ofst 0 (file_at s r) of
             Stuck file \<Rightarrow> Blocks
           | GaveUp file \<Rightarrow> Ret (set_file s r file) (0, buff) []
           | Ready file n \<Rightarrow>
               (case ReadRange (fd_cache file) ofst (add64 ofst n) buff of
                  None \<Rightarrow> Panics (set_file s r (file\<lparr>fd_lock := RHeld\<rparr>))
                | Some (cache, buff', bytesRead) \<Rightarrow>
                    Ret (set_file s r (file\<lparr>fd_cache := cache\<rparr>)) (bytesRead, buff') []))))"

section \<open>Write\<close>

definition Write ::
    "'t env \<Rightarrow> Time \<Rightarrow> string \<Rightarrow> bytes \<Rightarrow> int \<Rightarrow> 't Dsfs \<Rightarrow> ('t Dsfs, int, job) outcome" where
  "Write E now path buff ofst s =
     (if fs_locked s then Blocks
      else (case go_get (fs_open s) path of
        None \<Rightarrow> Ret s (- ENOENT) []
      | Some r \<Rightarrow>
          let file = file_at s r; endofst = add64 ofst (int (length buff));
              filesize = Size (fd_cache file) in
          if fd_lock file \<noteq> Free then Blocks
          else (case (if filesize < endofst then Truncate (env_cache E) (fd_cache file) endofst
                      else Some (fd_cache file)) of
            None \<Rightarrow> Panics (set_file s r (file\<lparr>fd_lock := WHeld\<rparr>))
          | Some grown \<Rightarrow>
              (case WriteRange (env_cache E) grown ofst endofst buff of
                 None \<Rightarrow> Panics (set_file s r (file\<lparr>fd_cache := grown, fd_lock := WHeld\<rparr>))
               | Some (cache, bytesWrite) \<Rightarrow>
                   let (load, ready) = isReady (env_sort E) (fd_load file) ofst endofst;
                       load' = (if ready then load else addRange load ofst endofst)
                   in Ret (set_file s r (file\<lparr>fd_cache := cache, fd_load := load', fd_mtim := now,
                                              fd_dirty := True\<rparr>)) bytesWrite []))))"

section \<open>Release\<close>

text \<open>The transaction \<open>Release\<close> prepares for the upload.\<close>

definition releaseTx :: "string \<Rightarrow> FileData \<Rightarrow> Tx" where
  "releaseTx path file =
     \<lparr>tx_Ctim = fd_ctim file, tx_Mtim = fd_mtim file, tx_Path = path, tx_FileIDs = [],
      tx_Checksums = [], tx_Tx = WriteTx, tx_Type = FileType, tx_Size = Size (fd_cache file)\<rparr>"

definition Release :: "'t env \<Rightarrow> string \<Rightarrow> 't Dsfs \<Rightarrow> ('t Dsfs, int, job) outcome" where
  "Release E path s =
     (if fs_locked s then Blocks
      else (case go_get (fs_open s) path of
        None \<Rightarrow> Ret s (- ENOENT) []
      | Some r \<Rightarrow>
          let file = file_at s r in
          if \<not> fd_dirty file then Ret s 0 []
          else Ret s 0 [Upload r path (releaseTx path file) (get E s path)]))"

end
