(* ===== verification/FsInvariant.thy ===== *)
theory FsInvariant
  imports FileOps
begin

text \<open>
  The invariant of the file system's state (\<open>fs_ok\<close>) and its preservation by each method:
  the database honours its contract and holds sizes an \<open>int64\<close> can express, the open map
  is a map into the heap that gives no two paths the same object, each cache honours the
  cache contract and each load range starts inside the range of offsets. The invariant
  does not say that the load ranges stay inside the file: \<open>Truncate\<close> breaks that.
\<close>

named_theorems fs_defs \<open>the methods of the file system\<close>
named_theorems fs_pres \<open>methods that preserve the invariant\<close>

section \<open>The environment\<close>

text \<open>The documented behaviour of the packages the file system is built on.\<close>

definition env_ok :: "'t env \<Rightarrow> bool" where
  "env_ok E \<longleftrightarrow> sort_ok (env_sort E) \<and> limitwriter_ok (ce_limitw (env_cache E)) \<and>
     iradix_laws (de_iradix (env_db E)) \<and> order_ok (de_order (env_db E))"

lemma env_okD:
  assumes "env_ok E"
  shows "sort_ok (env_sort E)" and "limitwriter_ok (ce_limitw (env_cache E))"
    and "iradix_laws (de_iradix (env_db E))" and "order_ok (de_order (env_db E))"
  using assms by (simp_all add: env_ok_def)

section \<open>The invariant\<close>

definition range_ok :: "Range \<Rightarrow> bool" where
  "range_ok r \<longleftrightarrow> 0 \<le> rstart r \<and> i64 (rstart r) \<and> i64 (rend r)"

definition load_ok :: "Load \<Rightarrow> bool" where
  "load_ok l \<longleftrightarrow> (\<forall>r \<in> set (ranges l). range_ok r)"

definition file_ok :: "'t env \<Rightarrow> FileData \<Rightarrow> bool" where
  "file_ok E f \<longleftrightarrow> cache_ok (env_cache E) (fd_cache f) \<and> load_ok (fd_load f)"

definition tx_ok :: "Tx \<Rightarrow> bool" where
  "tx_ok tx \<longleftrightarrow> 0 \<le> tx_Size tx \<and> i64 (tx_Size tx)"

definition open_ok :: "nat gomap \<Rightarrow> nat \<Rightarrow> bool" where
  "open_ok m n \<longleftrightarrow> go_ok m \<and> (\<forall>k r. go_get m k = Some r \<longrightarrow> r < n) \<and>
     (\<forall>k k' r. go_get m k = Some r \<longrightarrow> go_get m k' = Some r \<longrightarrow> k = k')"

definition fs_ok :: "'t env \<Rightarrow> 't Dsfs \<Rightarrow> bool" where
  "fs_ok E s \<longleftrightarrow> db_ok (env_db E) (fs_db s) \<and> (\<forall>k tx. get E s k = Some tx \<longrightarrow> tx_ok tx) \<and>
     open_ok (fs_open s) (length (fs_heap s)) \<and> (\<forall>f \<in> set (fs_heap s). file_ok E f)"

definition out_ok :: "'t env \<Rightarrow> ('t Dsfs, 'r, job) outcome \<Rightarrow> bool" where
  "out_ok E out = (case out of Ret s r js \<Rightarrow> fs_ok E s | Panics s \<Rightarrow> fs_ok E s | Blocks \<Rightarrow> True)"

lemma out_ok_simps [simp]:
  "out_ok E (Ret s r js) = fs_ok E s" "out_ok E (Panics s) = fs_ok E s" "out_ok E Blocks"
  by (simp_all add: out_ok_def)

section \<open>Its parts\<close>

lemma load_ok_simps [simp]:
  "load_ok newLoad"
  "load_ok (addRange l s e) = (load_ok l \<and> 0 \<le> s \<and> i64 s \<and> i64 e)"
  by (auto simp: load_ok_def newLoad_def addRange_def range_ok_def)

lemma load_ok_i64 [simp]: "load_ok l \<Longrightarrow> load_i64 l"
  by (simp add: load_ok_def load_i64_def range_ok_def)

lemma load_ok_sort [simp]: "sort_ok sf \<Longrightarrow> load_ok (sortRanges sf l) = load_ok l"
  by (simp add: load_ok_def sortRanges_def set_sort)

lemma load_ok_queries [simp]:
  "sort_ok sf \<Longrightarrow> load_ok (fst (isReady sf l s e)) = load_ok l"
  "sort_ok sf \<Longrightarrow> load_ok (fst (bytesReady sf l s)) = load_ok l"
  by (simp_all add: isReady_def bytesReady_def Let_def)

lemma load_ok_truncate:
  assumes "truncate_load l e = Some l'" "load_ok l" "i64 e"
  shows "load_ok l'"
proof -
  have "set (ranges l') = set (truncate_spec e (ranges l))"
    by (metis truncate_Some [OF assms(1)] set_mset_mset)
  then show ?thesis
    using assms(2,3) by (auto simp: load_ok_def range_ok_def truncate_spec_def clip_range_def)
qed

lemma add64_i64 [simp]: "i64 (add64 x y)" and sub64_i64 [simp]: "i64 (sub64 x y)"
  by (simp_all add: add64_def sub64_def)

text \<open>A read never changes what is in a cache, whatever its bounds.\<close>

lemma ReadRange_keeps:
  assumes "ReadRange c s e buf = Some (c', buf', n)"
  shows "cache_ok E c' = cache_ok E c" and "cache_bytes c' = cache_bytes c" and "Size c' = Size c"
    and "length buf' = length buf"
proof -
  have seek: "of_bytes (os_Seek f p) = of_bytes f" "of_closed (os_Seek f p) = of_closed f" for f p
    by (simp_all add: os_Seek_def)
  have read: "os_Read f m = (f', got) \<Longrightarrow> of_bytes f' = of_bytes f \<and> of_closed f' = of_closed f"
    for f m f' got
    by (auto simp: os_Read_def Let_def split: if_splits)
  show "cache_ok E c' = cache_ok E c" and "cache_bytes c' = cache_bytes c" and "Size c' = Size c"
    and "length buf' = length buf"
    using assms
    by (auto simp: ReadRange_def mem_ReadRange_def disk_ReadRange_def cache_ok_def cache_bytes_def
        Size_def disk_Size_def disk_ok_def disk_contents_def seek Let_def
        split: Cache.splits if_splits prod.splits dest!: read)
qed

lemma WriteRange_ok:
  assumes "cache_ok E c" "0 \<le> s" "e = s + int (length buf)" "e \<le> Size c"
  shows "\<exists>c'. WriteRange E c s e buf = Some (c', int (length buf)) \<and> cache_ok E c' \<and>
    cache_bytes c' = put_slice (cache_bytes c) (nat s) (nat e) buf \<and> Size c' = Size c"
  using anycache.write_exact [OF assms] by metis

lemma Truncate_ok:
  assumes "cache_ok E c" "0 \<le> n" "i64 n"
  shows "\<exists>c'. Truncate E c n = Some c' \<and> cache_ok E c' \<and>
    cache_bytes c' = resize (cache_bytes c) (nat n) \<and> Size c' = n"
  using anycache.truncate_total [OF assms] by metis

lemma Truncate_ok':
  assumes "Truncate E c n = Some c'" "cache_ok E c" "0 \<le> n" "i64 n"
  shows "cache_ok E c'" and "cache_bytes c' = resize (cache_bytes c) (nat n)" and "Size c' = n"
  using Truncate_ok [OF assms(2-4)] assms(1) by auto

lemma Size_ok:
  assumes "cache_ok E c"
  shows "Size c = int (length (cache_bytes c))" and "0 \<le> Size c" and "i64 (Size c)"
  using anycache.size_law [OF assms] anycache.size_i64 [OF assms] by simp_all

lemma GetNewCache_ok:
  "GetNewCache s = Some c \<Longrightarrow> limitwriter_ok (ce_limitw E) \<Longrightarrow> cache_ok E c \<and> cache_bytes c = []"
  by (auto simp: GetNewCache_def cache_ok_def cache_bytes_def split: if_splits)

lemma open_ok_simps [simp]:
  "open_ok [] n"
  "open_ok m n \<Longrightarrow> open_ok (go_del m k) n"
  "open_ok m n \<Longrightarrow> open_ok (go_set m k n) (Suc n)"
  by (auto simp: open_ok_def less_Suc_eq)

lemma open_okD:
  assumes "open_ok m n"
  shows "go_ok m" and "go_get m k = Some r \<Longrightarrow> r < n"
    and "go_get m k = Some r \<Longrightarrow> go_get m k' = Some r \<Longrightarrow> k' = k"
  using assms by (auto simp: open_ok_def)

lemma open_ok_move:
  "open_ok m n \<Longrightarrow> go_get m old = Some r \<Longrightarrow> open_ok (go_del (go_set m new r) old) n"
  unfolding open_ok_def by (auto split: if_splits)

lemma fs_okD:
  assumes "fs_ok E s"
  shows "db_ok (env_db E) (fs_db s)" and "get E s k = Some tx \<Longrightarrow> tx_ok tx"
    and "open_ok (fs_open s) (length (fs_heap s))"
    and "go_get (fs_open s) p = Some r \<Longrightarrow> r < length (fs_heap s)"
    and "go_get (fs_open s) p = Some r \<Longrightarrow> file_ok E (file_at s r)"
  using assms by (auto simp: fs_ok_def open_ok_def file_at_def)

lemma fs_ok_set_file:
  assumes "fs_ok E s" "file_ok E f"
  shows "fs_ok E (set_file s r f)"
  using assms set_update_subset_insert [of "fs_heap s" r f] by (auto simp: fs_ok_def set_file_def get_def)

lemma fs_ok_locked [simp]: "fs_ok E (s\<lparr>fs_locked := b\<rparr>) = fs_ok E s"
  by (simp add: fs_ok_def get_def)

lemma fs_ok_open:
  "fs_ok E s \<Longrightarrow> open_ok m (length (fs_heap s)) \<Longrightarrow> fs_ok E (s\<lparr>fs_open := m\<rparr>)"
  by (simp add: fs_ok_def get_def)

lemma fs_ok_open_new:
  "fs_ok E s \<Longrightarrow> file_ok E f \<Longrightarrow> fs_ok E (open_new s p f)"
  by (auto simp: fs_ok_def get_def open_new_def)

lemma fs_ok_insert:
  "fs_ok E s \<Longrightarrow> tx_ok tx \<Longrightarrow> fs_ok E (s\<lparr>fs_db := db_Insert (env_db E) (fs_db s) k tx\<rparr>)"
  by (auto simp: fs_ok_def get_def anydb.get_insert anydb.ok_insert split: if_splits)

lemma fs_ok_delete:
  "fs_ok E s \<Longrightarrow> fs_ok E (s\<lparr>fs_db := db_Delete (env_db E) (fs_db s) k\<rparr>)"
  by (auto simp: fs_ok_def get_def anydb.get_delete anydb.ok_delete split: if_splits)

lemma tx_ok_simps [simp]:
  "tx_ok (folderTx p)" "tx_ok (createDeleteTx p)" "tx_ok (tx\<lparr>tx_Path := p\<rparr>) = tx_ok tx"
  "cache_ok F (fd_cache f) \<Longrightarrow> tx_ok (releaseTx p f)"
  using Size_ok [of F "fd_cache f"]
  by (simp_all add: tx_ok_def folderTx_def createDeleteTx_def zero_Tx_def i64_def releaseTx_def)

lemma file_ok_fresh:
  "file_ok E (fresh_file c m ct) = cache_ok (env_cache E) c"
  by (simp add: file_ok_def fresh_file_def)

section \<open>The methods\<close>

lemma Mknod_ok [fs_pres]:
  assumes "env_ok E" "fs_ok E s"
  shows "out_ok E (Mknod E t1 t2 path s)"
  using assms GetNewCache_ok [of s] env_okD(2) [OF assms(1)]
  by (auto simp: Mknod_def fs_ok_open_new file_ok_fresh split: option.splits)

lemma Mkdir_ok [fs_pres]: "fs_ok E s \<Longrightarrow> out_ok E (Mkdir E path s)"
  by (simp add: Mkdir_def fs_ok_insert Let_def)

lemma Open_ok [fs_pres]:
  assumes "env_ok E" "fs_ok E s"
  shows "out_ok E (Open E path s)"
proof -
  have "file_ok E (fresh_file c m ct)"
    if "get E s path = Some tx" "GetNewCache s = Some c0"
      "Truncate (env_cache E) c0 (tx_Size tx) = Some c" for tx c0 c m ct
    using that GetNewCache_ok [OF that(2) env_okD(2) [OF assms(1)]] fs_okD(2) [OF assms(2) that(1)]
      Truncate_ok'(1) [OF that(3)]
    by (simp add: file_ok_fresh tx_ok_def)
  then show ?thesis
    using assms
    by (auto simp: Open_def fs_ok_open_new split: option.splits Option.bind_splits)
qed

lemma Unlink_ok [fs_pres]: "fs_ok E s \<Longrightarrow> out_ok E (Unlink E path s)"
  using fs_ok_delete [of E "s\<lparr>fs_open := go_del (fs_open s) path\<rparr>" path]
  by (auto simp: Unlink_def fs_ok_open fs_okD Let_def split: option.splits)

lemma Rmdir_ok [fs_pres]: "fs_ok E s \<Longrightarrow> out_ok E (Rmdir E path s)"
  by (auto simp: Rmdir_def fs_ok_delete Let_def split: option.splits)

lemma move_open_ok: "fs_ok E s \<Longrightarrow> fs_ok E (move_open s old new)"
  by (auto simp: move_open_def fs_ok_open open_ok_move fs_okD split: option.splits)

lemma rename_commit_ok:
  assumes "fs_ok E s" "tx_ok tx"
  shows "out_ok E (rename_commit E old new tx s)"
proof -
  let ?tx = "tx\<lparr>tx_Path := new\<rparr>"
  let ?s1 = "s\<lparr>fs_db := db_Insert (env_db E) (fs_db s) old ?tx\<rparr>"
  let ?s2 = "?s1\<lparr>fs_db := db_Insert (env_db E) (fs_db ?s1) new ?tx\<rparr>"
  have "fs_ok E ?s1" using assms by (simp add: fs_ok_insert)
  then have "fs_ok E ?s2" by (rule fs_ok_insert) (simp add: assms(2))
  then have "fs_ok E (?s2\<lparr>fs_db := db_Delete (env_db E) (fs_db ?s2) old\<rparr>)" by (rule fs_ok_delete)
  then show ?thesis using \<open>fs_ok E ?s1\<close> by (simp add: rename_commit_def Let_def)
qed

lemma Rename_ok [fs_pres]: "fs_ok E s \<Longrightarrow> out_ok E (Rename E old new s)"
  by (auto simp: Rename_def move_open_ok rename_commit_ok fs_okD(2) split: option.splits)

text \<open>The parts of \<open>Rename\<close>.\<close>

lemma rename_check_ok: "fs_ok E s \<Longrightarrow> out_ok E (rename_check E old new s)"
  by (auto simp: rename_check_def move_open_ok split: option.splits)

lemma rename_check_tx: "fs_ok E s \<Longrightarrow> rename_check E old new s = Ret s' (Inr tx) js \<Longrightarrow> tx_ok tx"
  by (auto simp: rename_check_def fs_okD(2) split: option.splits if_splits)

lemma rename_send_ok: "fs_ok E s \<Longrightarrow> tx_ok tx \<Longrightarrow> out_ok E (rename_send E old new tx s)"
  by (simp add: rename_send_def Let_def fs_ok_insert)

lemma rename_send_tx: "rename_send E old new tx s = Ret s' (Inr tx') js \<Longrightarrow> tx_ok tx' = tx_ok tx"
  by (auto simp: rename_send_def Let_def split: if_splits)

lemma rename_store_ok: "fs_ok E s \<Longrightarrow> tx_ok tx \<Longrightarrow> out_ok E (rename_store E old new tx s)"
  using fs_ok_delete [OF fs_ok_insert, of E s tx new old] by (simp add: rename_store_def)

lemma Getattr_ok [fs_pres]: "fs_ok E s \<Longrightarrow> out_ok E (Getattr E path st s)"
  by (auto simp: Getattr_def Let_def split: option.splits)

lemma Readdir_ok [fs_pres]: "fs_ok E s \<Longrightarrow> out_ok E (Readdir E path s)"
  by (simp add: Readdir_def Let_def)

lemma Release_ok [fs_pres]: "fs_ok E s \<Longrightarrow> out_ok E (Release E path s)"
  by (auto simp: Release_def Let_def split: option.splits)

lemma file_ok_cong:
  "fd_cache f = fd_cache g \<Longrightarrow> fd_load f = fd_load g \<Longrightarrow> file_ok E f = file_ok E g"
  by (simp add: file_ok_def)

lemma fs_Truncate_ok [fs_pres]:
  assumes "env_ok E" "fs_ok E s" "0 \<le> sz" "i64 sz"
  shows "out_ok E (fs_Truncate E now path sz s)"
proof (cases "go_get (fs_open s) path")
  case None
  then show ?thesis using assms by (simp add: fs_Truncate_def)
next
  case (Some r)
  let ?f = "file_at s r"
  have f: "cache_ok (env_cache E) (fd_cache ?f)" "load_ok (fd_load ?f)"
    using fs_okD(5) [OF assms(2) Some] by (simp_all add: file_ok_def)
  have l: "load_ok l"
    if "(if sz < Size (fd_cache ?f) then truncate_load (fd_load ?f) sz
         else Some (addRange (fd_load ?f) (Size (fd_cache ?f)) (add64 (Size (fd_cache ?f)) sz))) = Some l" for l
    using that f load_ok_truncate assms(4) Size_ok [OF f(1)] by (auto split: if_splits)
  obtain c where c: "Truncate (env_cache E) (fd_cache ?f) sz = Some c" "cache_ok (env_cache E) c"
    using Truncate_ok [OF f(1) assms(3,4)] by blast
  show ?thesis
    using assms(2) f l c Some
    by (auto simp: fs_Truncate_def Let_def file_ok_def fs_ok_set_file split: option.splits)
qed

text \<open>What goes on while \<open>Read\<close> waits has to keep the invariant of the file.\<close>

definition bg_ok :: "'t env \<Rightarrow> (nat \<Rightarrow> FileData \<Rightarrow> FileData) \<Rightarrow> bool" where
  "bg_ok E bg \<longleftrightarrow> (\<forall>k f. file_ok E f \<longrightarrow> file_ok E (bg k f))"

lemma read_wait_ok:
  assumes "env_ok E" "bg_ok E bg" "file_ok E f"
  shows "case read_wait (env_sort E) bg len ofst k f of
      Ready g n \<Rightarrow> file_ok E g | GaveUp g \<Rightarrow> file_ok E g | Stuck g \<Rightarrow> True"
  using assms
proof (induction "env_sort E" bg len ofst k f rule: read_wait.induct)
  case (1 bg len ofst k f)
  have "file_ok E (f\<lparr>fd_load := fst (bytesReady (env_sort E) (fd_load f) ofst)\<rparr>)"
    using "1.prems" env_okD(1) [OF "1.prems"(1)] by (simp add: file_ok_def)
  then show ?case
    using 1 by (subst read_wait.simps) (auto simp: bg_ok_def Let_def split: prod.splits)
qed

lemma Read_ok [fs_pres]:
  assumes "env_ok E" "fs_ok E s" "bg_ok E bg"
  shows "out_ok E (Read E bg path buff ofst s)"
proof (cases "go_get (fs_open s) path")
  case None
  then show ?thesis using assms by (simp add: Read_def)
next
  case (Some r)
  show ?thesis
    using assms(2) Some ReadRange_keeps(1) fs_okD(5) [OF assms(2) Some]
      read_wait_ok [OF assms(1,3) fs_okD(5) [OF assms(2) Some], of "int (length buff)" ofst 0]
    by (auto simp: Read_def fs_ok_set_file file_ok_def split: wait.splits option.splits)
qed

text \<open>The content after a write: the old one, grown when needed, with the range replaced.\<close>

definition write_bytes :: "bytes \<Rightarrow> nat \<Rightarrow> bytes \<Rightarrow> bytes" where
  "write_bytes old ofst buff =
     put_slice (resize old (max (length old) (ofst + length buff))) ofst (ofst + length buff) buff"

lemma grow_cache:
  assumes "cache_ok E c" "0 \<le> e" "i64 e"
  shows "\<exists>g. (if Size c < e then Truncate E c e else Some c) = Some g \<and> cache_ok E g \<and> e \<le> Size g \<and>
    cache_bytes g = resize (cache_bytes c) (max (length (cache_bytes c)) (nat e))"
proof (cases "Size c < e")
  case True
  then have "max (length (cache_bytes c)) (nat e) = nat e" using Size_ok(1) [OF assms(1)] by simp
  then show ?thesis using Truncate_ok [OF assms] True by auto
next
  case False
  then have "max (length (cache_bytes c)) (nat e) = length (cache_bytes c)"
    using Size_ok(1) [OF assms(1)] by simp
  then show ?thesis using False assms(1) by simp
qed

text \<open>How \<open>Write\<close> and \<open>ApplyLiveTx\<close> mark what they have written.\<close>

lemma mark_ready:
  assumes "env_ok E" "load_ok l" "0 \<le> ofst" "i64 ofst" "i64 e" "isReady (env_sort E) l ofst e = (l0, b)"
  shows "load_ok (if b then l0 else addRange l0 ofst e)"
    and "covered (ranges (if b then l0 else addRange l0 ofst e)) = covered (ranges l) \<union> {ofst..<e}"
proof -
  note srt = env_okD(1) [OF assms(1)]
  have l: "load_ok l0" "covered (ranges l0) = covered (ranges l)"
    using assms(2) load_ok_queries(1) [OF srt, of l ofst e] covered_isReady [OF srt, of l ofst e]
    by (simp_all add: assms(6))
  have "b \<Longrightarrow> {ofst..<e} \<subseteq> covered (ranges l)"
    using isReady_correct [OF srt, of ofst e l] assms(6) by (cases "ofst < e") auto
  then show "covered (ranges (if b then l0 else addRange l0 ofst e)) = covered (ranges l) \<union> {ofst..<e}"
    using l(2) by auto
  show "load_ok (if b then l0 else addRange l0 ofst e)" using l assms(3-5) by simp
qed

lemma Write_effect:
  assumes "env_ok E" "fs_ok E s" "\<not> fs_locked s" "go_get (fs_open s) path = Some r"
    and "fd_lock (file_at s r) = Free" "0 \<le> ofst" "i64 (ofst + int (length buff))"
  shows "\<exists>c l. Write E now path buff ofst s =
      Ret (set_file s r ((file_at s r)\<lparr>fd_cache := c, fd_load := l, fd_mtim := now, fd_dirty := True\<rparr>))
        (int (length buff)) [] \<and>
    cache_ok (env_cache E) c \<and> load_ok l \<and>
    cache_bytes c = write_bytes (cache_bytes (fd_cache (file_at s r))) (nat ofst) buff \<and>
    covered (ranges l) = covered (ranges (fd_load (file_at s r))) \<union> {ofst..<ofst + int (length buff)}"
proof -
  let ?f = "file_at s r" and ?e = "ofst + int (length buff)"
  have f: "cache_ok (env_cache E) (fd_cache ?f)" "load_ok (fd_load ?f)"
    using fs_okD(5) [OF assms(2,4)] by (simp_all add: file_ok_def)
  have e: "add64 ofst (int (length buff)) = ?e" using assms(7) by (simp add: i64_simps)
  have ne: "nat ?e = nat ofst + length buff" "0 \<le> ?e" "i64 ofst"
    using assms(6,7) by (auto simp: i64_def)
  obtain g where g: "(if Size (fd_cache ?f) < ?e then Truncate (env_cache E) (fd_cache ?f) ?e
      else Some (fd_cache ?f)) = Some g" "cache_ok (env_cache E) g" "?e \<le> Size g"
    "cache_bytes g = resize (cache_bytes (fd_cache ?f)) (max (length (cache_bytes (fd_cache ?f))) (nat ?e))"
    using grow_cache [OF f(1) ne(2) assms(7)] by metis
  obtain c where c: "WriteRange (env_cache E) g ofst ?e buff = Some (c, int (length buff))"
    "cache_ok (env_cache E) c" "cache_bytes c = put_slice (cache_bytes g) (nat ofst) (nat ?e) buff"
    using WriteRange_ok [OF g(2) assms(6) refl g(3)] by blast
  obtain l0 b where l0: "isReady (env_sort E) (fd_load ?f) ofst ?e = (l0, b)" by fastforce
  note mark_ready [OF assms(1) f(2) assms(6) ne(3) assms(7) l0]
  then show ?thesis
    using assms(3-5) g(1,4) c ne(1)
    by (intro exI [of _ c] exI [of _ "if b then l0 else addRange l0 ofst ?e"])
      (simp add: Write_def e l0 write_bytes_def del: of_nat_add cong: if_cong)
qed

lemma Write_ok [fs_pres]:
  assumes "env_ok E" "fs_ok E s" "0 \<le> ofst" "i64 (ofst + int (length buff))"
  shows "out_ok E (Write E now path buff ofst s)"
proof (cases "\<not> fs_locked s \<and> (\<exists>r. go_get (fs_open s) path = Some r \<and> fd_lock (file_at s r) = Free)")
  case True
  then obtain r where r: "\<not> fs_locked s" "go_get (fs_open s) path = Some r" "fd_lock (file_at s r) = Free"
    by blast
  show ?thesis
    using Write_effect [OF assms(1,2) r assms(3,4), of now] assms(2)
    by (auto simp: fs_ok_set_file file_ok_def)
next
  case False
  then show ?thesis using assms(2) by (auto simp: Write_def Let_def split: option.splits)
qed

end
