(* ===== verification/FileContent.thy ===== *)
theory FileContent
  imports FsInvariant
begin

text \<open>
  What the methods on an open file promise: a file is seen as its bytes (\<open>content\<close>) and
  the set of offsets whose bytes are known to be real (\<open>ready\<close>). The lemmas give the effect
  of \<open>Read\<close>, \<open>Write\<close> and \<open>Truncate\<close> on this view, for both kinds of cache.
\<close>

section \<open>The view of a file\<close>

definition file_bytes :: "FileData \<Rightarrow> bytes" where
  "file_bytes f = cache_bytes (fd_cache f)"

definition file_ready :: "FileData \<Rightarrow> int set" where
  "file_ready f = covered (ranges (fd_load f))"

definition content :: "'t Dsfs \<Rightarrow> string \<Rightarrow> bytes option" where
  "content s p = map_option (\<lambda>r. file_bytes (file_at s r)) (go_get (fs_open s) p)"

definition ready :: "'t Dsfs \<Rightarrow> string \<Rightarrow> int set" where
  "ready s p = (case go_get (fs_open s) p of None \<Rightarrow> {} | Some r \<Rightarrow> file_ready (file_at s r))"

text \<open>The file at \<open>p\<close> is open, and nobody holds its lock or the lock of the file system.\<close>

definition usable :: "'t Dsfs \<Rightarrow> string \<Rightarrow> bool" where
  "usable s p \<longleftrightarrow> \<not> fs_locked s \<and>
     (case go_get (fs_open s) p of None \<Rightarrow> False | Some r \<Rightarrow> fd_lock (file_at s r) = Free)"

lemma usableE:
  assumes "usable s p"
  obtains r where "\<not> fs_locked s" "go_get (fs_open s) p = Some r" "fd_lock (file_at s r) = Free"
  using assms by (auto simp: usable_def split: option.splits)

lemma set_file_sel [simp]:
  "fs_open (set_file s r f) = fs_open s" "fs_db (set_file s r f) = fs_db s"
  "fs_locked (set_file s r f) = fs_locked s" "length (fs_heap (set_file s r f)) = length (fs_heap s)"
  "get E (set_file s r f) p = get E s p"
  by (simp_all add: set_file_def get_def)

lemma file_at_set_file:
  "r < length (fs_heap s) \<Longrightarrow> file_at (set_file s r f) r' = (if r' = r then f else file_at s r')"
  by (simp add: file_at_def set_file_def nth_list_update)

text \<open>Changing the file at \<open>p\<close> changes the view of no other path.\<close>

lemma view_set_file:
  assumes "fs_ok E s" "go_get (fs_open s) p = Some r"
  shows "content (set_file s r f) q = (if q = p then Some (file_bytes f) else content s q)"
    and "ready (set_file s r f) q = (if q = p then file_ready f else ready s q)"
proof -
  have r: "r < length (fs_heap s)" using fs_okD(4) [OF assms] .
  have "q \<noteq> p \<Longrightarrow> go_get (fs_open s) q \<noteq> Some r"
    using open_okD(3) [OF fs_okD(3) [OF assms(1)] assms(2)] by metis
  then show "content (set_file s r f) q = (if q = p then Some (file_bytes f) else content s q)"
    and "ready (set_file s r f) q = (if q = p then file_ready f else ready s q)"
    using assms(2) r
    by (cases "go_get (fs_open s) q"; auto simp: content_def ready_def file_at_set_file)+
qed

lemma contentE:
  assumes "go_get (fs_open s) p = Some r"
  shows "content s p = Some (file_bytes (file_at s r))" and "ready s p = file_ready (file_at s r)"
  using assms by (simp_all add: content_def ready_def)

section \<open>Write\<close>

lemma Write_view:
  assumes "env_ok E" "fs_ok E s" "usable s p" "0 \<le> ofst" "i64 (ofst + int (length buff))"
  shows "\<exists>s'. Write E now p buff ofst s = Ret s' (int (length buff)) [] \<and> fs_ok E s' \<and>
      usable s' p \<and> fs_db s' = fs_db s \<and>
      content s' = (content s)(p := map_option (\<lambda>b. write_bytes b (nat ofst) buff) (content s p)) \<and>
      ready s' = (ready s)(p := ready s p \<union> {ofst..<ofst + int (length buff)})"
proof -
  obtain r where r: "\<not> fs_locked s" "go_get (fs_open s) p = Some r" "fd_lock (file_at s r) = Free"
    using assms(3) by (rule usableE)
  obtain c l where cl: "Write E now p buff ofst s =
      Ret (set_file s r ((file_at s r)\<lparr>fd_cache := c, fd_load := l, fd_mtim := now, fd_dirty := True\<rparr>))
        (int (length buff)) []" "cache_ok (env_cache E) c" "load_ok l"
    "cache_bytes c = write_bytes (cache_bytes (fd_cache (file_at s r))) (nat ofst) buff"
    "covered (ranges l) = covered (ranges (fd_load (file_at s r))) \<union> {ofst..<ofst + int (length buff)}"
    using Write_effect [OF assms(1,2) r assms(4,5), of now] by blast
  show ?thesis
    unfolding cl(1)
    using r cl(2-) assms(2) fs_okD(4) [OF assms(2) r(2)]
    by (auto simp: fun_eq_iff view_set_file [OF assms(2) r(2)] contentE [OF r(2)] file_bytes_def
        file_ready_def usable_def file_at_set_file intro!: fs_ok_set_file simp: file_ok_def)
qed

text \<open>The bytes of the result.\<close>

lemma nth_write_bytes:
  assumes "i < max (length old) (ofst + length buff)"
  shows "write_bytes old ofst buff ! i =
    (if ofst \<le> i \<and> i < ofst + length buff then buff ! (i - ofst)
     else if i < length old then old ! i else zero_byte)"
  using assms by (simp add: write_bytes_def nth_put_slice nth_resize)

lemma length_write_bytes [simp]:
  "length (write_bytes old ofst buff) = max (length old) (ofst + length buff)"
  by (simp add: write_bytes_def)

lemma sub_slice_write_bytes:
  "sub_slice (write_bytes old ofst buff) ofst (ofst + length buff) = buff"
  by (simp add: write_bytes_def sub_put_slice_same)

section \<open>Read\<close>

text \<open>
  What a wait that ends with bytes says of the file it ends with: the bytes are there, as
  many as the buffer takes and the file has.
\<close>

definition wait_ready :: "int \<Rightarrow> int \<Rightarrow> FileData \<Rightarrow> int \<Rightarrow> bool" where
  "wait_ready buffLen ofst f n \<longleftrightarrow>
     ofst \<in> file_ready f \<and> n \<le> buffLen \<and> 0 \<le> ofst + n \<and> ofst + n \<le> Size (fd_cache f) \<and>
     (0 < n \<longrightarrow> {ofst..<ofst + n} \<subseteq> file_ready f)"

lemma bytesReady_file:
  assumes "sort_ok sf" "load_ok l" "0 \<le> s" "i64 s" "bytesReady sf l s = (l', n)"
  shows "0 \<le> n" and "i64 (s + n)" and "{s..<s + n} \<subseteq> covered (ranges l)"
    and "s + n \<notin> covered (ranges l)" and "covered (ranges l') = covered (ranges l)" and "load_ok l'"
proof -
  note l = load_ok_i64 [OF assms(2)]
  have n: "n = snd (bytesReady sf l s)" and l': "l' = fst (bytesReady sf l s)"
    by (simp_all add: assms(5))
  have "\<forall>r \<in> set (sf (ranges l)). rend r \<le> 9223372036854775807"
    using assms(2) by (auto simp: load_ok_def range_ok_def i64_def set_sort [OF assms(1)])
  then have "bytesReady_loop (sf (ranges l)) s \<le> 9223372036854775807"
    by (rule bytesReady_loop_le) (use assms(4) in \<open>simp add: i64_def\<close>)
  moreover have "s + n = bytesReady_loop (sf (ranges l)) s"
    using bytesReady_result [OF assms(1) l assms(3,4)] n by simp
  ultimately show "i64 (s + n)"
    using bytesReady_loop_ge [of s "sf (ranges l)"] assms(3) by (simp add: i64_def)
  show "0 \<le> n" "{s..<s + n} \<subseteq> covered (ranges l)" "s + n \<notin> covered (ranges l)"
    using bytesReady_bounds [OF assms(1) l assms(3,4)] unfolding n by blast+
  show "covered (ranges l') = covered (ranges l)" "load_ok l'"
    unfolding l' using assms(1,2) by simp_all
qed

text \<open>One turn of the wait that finds bytes.\<close>

definition clip_ready :: "int \<Rightarrow> int \<Rightarrow> int \<Rightarrow> int \<Rightarrow> int" where
  "clip_ready filesize ofst buffLen n = min (min buffLen n) (filesize - ofst)"

lemma read_turn:
  assumes "sort_ok sf" "load_ok (fd_load f)" "0 \<le> ofst" "i64 ofst"
    and "fd_lock f \<noteq> WHeld" "ofst \<in> file_ready f" "0 \<le> len" "0 \<le> Size (fd_cache f)" "i64 (Size (fd_cache f))"
  shows "\<exists>l n. read_wait sf bg len ofst k f =
      Ready (f\<lparr>fd_load := l\<rparr>) (clip_ready (Size (fd_cache f)) ofst len n) \<and>
    load_ok l \<and> covered (ranges l) = file_ready f \<and> 0 < n \<and>
    {ofst..<ofst + n} \<subseteq> file_ready f \<and> ofst + n \<notin> file_ready f"
proof -
  obtain l n where b: "bytesReady sf (fd_load f) ofst = (l, n)" by fastforce
  note bf = bytesReady_file [OF assms(1-4) b]
  have "0 < n" using bf(1,4) assms(6) by (cases "n = 0") (auto simp: file_ready_def)
  define m where "m = (if len < n then len else n)"
  then have m: "m = min len n" by (simp add: min_def)
  have "add64 ofst m = ofst + m"
    using assms(3,7) \<open>0 < n\<close> m by (intro add64_id i64_between [OF _ _ bf(2)]) auto
  moreover have "sub64 (Size (fd_cache f)) ofst = Size (fd_cache f) - ofst"
    using assms by (intro sub64_id i64_nonneg_diff)
  ultimately have "(if Size (fd_cache f) < add64 ofst m then sub64 (Size (fd_cache f)) ofst else m) =
      clip_ready (Size (fd_cache f)) ofst len n"
    using m by (auto simp: clip_ready_def)
  then have "read_wait sf bg len ofst k f =
      Ready (f\<lparr>fd_load := l\<rparr>) (clip_ready (Size (fd_cache f)) ofst len n)"
    using assms(5) b \<open>0 < n\<close> unfolding m_def by (subst read_wait.simps) (simp add: Let_def)
  then show ?thesis using bf \<open>0 < n\<close> by (auto simp: file_ready_def)
qed

text \<open>One turn that finds none.\<close>

lemma poll_turn:
  assumes "fd_lock f \<noteq> WHeld" "bytesReady sf (fd_load f) ofst = (l, n)" "n \<le> 0"
  shows "read_wait sf bg len ofst k f =
    (if MaxRetries \<le> k then GaveUp (f\<lparr>fd_load := l\<rparr>)
     else read_wait sf bg len ofst (Suc k) (bg k (f\<lparr>fd_load := l\<rparr>)))"
  using assms by (subst read_wait.simps) simp

lemma stuck_turn: "fd_lock f = WHeld \<Longrightarrow> read_wait sf bg len ofst k f = Stuck f"
  by (subst read_wait.simps) simp

lemma read_wait_Ready:
  assumes "env_ok E" "bg_ok E bg" "file_ok E f" "0 \<le> ofst" "i64 ofst" "0 \<le> len"
    and "read_wait (env_sort E) bg len ofst k f = Ready g n"
  shows "file_ok E g \<and> wait_ready len ofst g n"
  using assms
proof (induction "env_sort E" bg len ofst k f rule: read_wait.induct)
  case (1 bg len ofst k f)
  note srt = env_okD(1) [OF "1.prems"(1)]
  have f: "load_ok (fd_load f)" "cache_ok (env_cache E) (fd_cache f)"
    using "1.prems"(3) by (simp_all add: file_ok_def)
  have nb: "fd_lock f \<noteq> WHeld"
    using "1.prems"(7) stuck_turn [of f "env_sort E" bg len ofst k] by auto
  obtain l m where b: "bytesReady (env_sort E) (fd_load f) ofst = (l, m)" by fastforce
  note bf = bytesReady_file [OF srt f(1) "1.prems"(4,5) b]
  show ?case
  proof (cases "ofst \<in> file_ready f")
    case True
    obtain l' n' where t: "read_wait (env_sort E) bg len ofst k f =
        Ready (f\<lparr>fd_load := l'\<rparr>) (clip_ready (Size (fd_cache f)) ofst len n')" "load_ok l'"
      "covered (ranges l') = file_ready f" "{ofst..<ofst + n'} \<subseteq> file_ready f" "0 < n'"
      using read_turn [OF srt f(1) "1.prems"(4,5) nb True "1.prems"(6)] Size_ok(2,3) [OF f(2)] by blast
    then have g: "g = f\<lparr>fd_load := l'\<rparr>" "n = clip_ready (Size (fd_cache f)) ofst len n'"
      using "1.prems"(7) by simp_all
    have "{ofst..<ofst + n} \<subseteq> {ofst..<ofst + n'}" using g by (auto simp: clip_ready_def)
    moreover have "0 \<le> ofst + n"
      using g(2) t(5) "1.prems"(4,6) Size_ok(2) [OF f(2)] by (auto simp: clip_ready_def min_def)
    ultimately have "wait_ready len ofst g n"
      using g t True by (auto simp: wait_ready_def file_ready_def clip_ready_def)
    then show ?thesis using g t(2) f by (simp add: file_ok_def)
  next
    case False
    then have "m = 0"
      using bf(1,3) by (force simp: file_ready_def)
    let ?f = "f\<lparr>fd_load := l\<rparr>"
    have rest: "\<not> MaxRetries \<le> k" "read_wait (env_sort E) bg len ofst (Suc k) (bg k ?f) = Ready g n"
      using "1.prems"(7) poll_turn [OF nb b, of bg len k] \<open>m = 0\<close> by (simp_all split: if_splits)
    have "file_ok E (bg k ?f)"
      using "1.prems"(2) f bf by (auto simp: bg_ok_def file_ok_def)
    then show ?thesis
      using "1.hyps" [OF nb refl b [symmetric] refl refl _ rest(1) "1.prems"(1,2) _ "1.prems"(4-6) rest(2)]
        \<open>m = 0\<close> by simp
  qed
qed


text \<open>Reading the range of a wait that ended well.\<close>

lemma ReadRange_wait:
  assumes "cache_ok F (fd_cache g)" "0 \<le> ofst" "0 \<le> n" "n \<le> int (length buff)" "ofst + n \<le> Size (fd_cache g)"
  shows "\<exists>c. ReadRange (fd_cache g) ofst (add64 ofst n) buff =
      Some (c, go_copy buff (sub_slice (file_bytes g) (nat ofst) (nat (ofst + n))), n) \<and>
    cache_ok F c \<and> cache_bytes c = file_bytes g"
proof -
  have "i64 (ofst + n)" using assms Size_ok [OF assms(1)] by (intro i64_between [OF _ assms(5)]) auto
  then have "add64 ofst n = ofst + n" by (simp add: i64_simps)
  moreover have "min (int (length buff)) (ofst + n - ofst) = n" using assms(4) by simp
  ultimately show ?thesis
    using anycache.read_total [OF assms(1,2) _ assms(5), of buff] assms(3)
    by (metis (no_types, lifting) file_bytes_def le_add_same_cancel1)
qed

lemma take_drop_go_copy:
  assumes "length src = n" "n \<le> length buff"
  shows "take n (go_copy buff src) = src" and "drop n (go_copy buff src) = drop n buff"
  using assms by (simp_all add: go_copy_def)

text \<open>
  Every read that returns bytes returns bytes that were ready, and the ones the file holds
  there at that moment; the rest of the buffer is left alone.
\<close>

lemma Read_sound:
  assumes "env_ok E" "bg_ok E bg" "fs_ok E s" "go_get (fs_open s) p = Some r" "0 \<le> ofst" "i64 ofst"
    and "Read E bg p buff ofst s = Ret s' (n, buff') js"
  shows "0 \<le> n" and "n \<le> int (length buff)" and "drop (nat n) buff' = drop (nat n) buff"
    and "{ofst..<ofst + n} \<subseteq> ready s' p"
    and "0 < n \<Longrightarrow> \<exists>b. content s' p = Some b \<and> ofst + n \<le> int (length b) \<and>
      take (nat n) buff' = sub_slice b (nat ofst) (nat (ofst + n))"
proof -
  have nl: "\<not> fs_locked s" using assms(7) by (auto simp: Read_def split: if_splits)
  have f: "file_ok E (file_at s r)" using fs_okD(5) [OF assms(3,4)] .
  have r: "r < length (fs_heap s)" using fs_okD(4) [OF assms(3,4)] .
  have "0 \<le> n \<and> n \<le> int (length buff) \<and> drop (nat n) buff' = drop (nat n) buff \<and>
    {ofst..<ofst + n} \<subseteq> ready s' p \<and>
    (0 < n \<longrightarrow> (\<exists>b. content s' p = Some b \<and> ofst + n \<le> int (length b) \<and>
       take (nat n) buff' = sub_slice b (nat ofst) (nat (ofst + n))))"
  proof (cases "read_wait (env_sort E) bg (int (length buff)) ofst 0 (file_at s r)")
    case (Ready g m)
    have g: "file_ok E g" "wait_ready (int (length buff)) ofst g m"
      using read_wait_Ready [OF assms(1,2) f assms(5,6) _ Ready] by simp_all
    then have cg: "cache_ok (env_cache E) (fd_cache g)" by (simp add: file_ok_def)
    obtain c where c: "ReadRange (fd_cache g) ofst (add64 ofst m) buff = Some (c, buff', n)"
      "s' = set_file s r (g\<lparr>fd_cache := c\<rparr>)"
      using assms(4,7) nl Ready by (auto simp: Read_def split: option.splits)
    show ?thesis
    proof (cases "0 \<le> m")
      case True
      let ?src = "sub_slice (file_bytes g) (nat ofst) (nat (ofst + m))"
      obtain c' where c': "ReadRange (fd_cache g) ofst (add64 ofst m) buff = Some (c', go_copy buff ?src, m)"
        "cache_bytes c' = file_bytes g"
        using ReadRange_wait [OF cg assms(5) True] g(2) by (auto simp: wait_ready_def)
      then have eq: "c' = c" "buff' = go_copy buff ?src" "n = m" using c(1) by simp_all
      have sz: "ofst + m \<le> int (length (file_bytes g))"
        using g(2) Size_ok(1) [OF cg] by (simp add: wait_ready_def file_bytes_def)
      then have len: "length ?src = nat m" using assms(5) True by (simp add: nat_add_distrib)
      have m: "nat m \<le> length buff" using g(2) by (simp add: wait_ready_def nat_le_iff)
      have v: "content s' p = Some (file_bytes g)" "ready s' p = file_ready g"
        using c(2) assms(4) r c'(2) eq(1)
        by (auto simp: content_def ready_def file_at_set_file file_bytes_def file_ready_def)
      have sub: "{ofst..<ofst + m} \<subseteq> file_ready g"
        using g(2) True by (cases "m = 0") (simp_all add: wait_ready_def)
      have "m \<le> int (length buff)" using m by (simp add: nat_le_iff)
      then show ?thesis
        unfolding eq v using take_drop_go_copy [OF len m] sub sz True by simp
    next
      case False
      have om: "0 \<le> ofst + m" "ofst + m \<le> ofst" using g(2) False by (simp_all add: wait_ready_def)
      have "i64 (ofst + m)" and "i64 m"
        using om assms(5,6) False by (auto simp: i64_def)
      then have "sub64 (add64 ofst m) ofst \<le> 0" and "\<not> slice_ok ofst (add64 ofst m) k" for k
        using False by (simp_all add: i64_simps slice_ok_def)
      then have "n = 0 \<and> buff' = buff"
        using c(1) by (auto simp: ReadRange_def mem_ReadRange_def disk_ReadRange_def Let_def split: Cache.splits)
      then show ?thesis by simp
    qed
  next
    case (GaveUp g)
    then show ?thesis using assms(4,7) nl by (auto simp: Read_def)
  next
    case (Stuck g)
    then show ?thesis using assms(4,7) nl by (auto simp: Read_def)
  qed
  then show "0 \<le> n" "n \<le> int (length buff)" "drop (nat n) buff' = drop (nat n) buff"
    "{ofst..<ofst + n} \<subseteq> ready s' p"
    "0 < n \<Longrightarrow> \<exists>b. content s' p = Some b \<and> ofst + n \<le> int (length b) \<and>
      take (nat n) buff' = sub_slice b (nat ofst) (nat (ofst + n))"
    by simp_all
qed

text \<open>
  A read whose first byte is ready does not wait: it returns the bytes that are ready there,
  as far as the buffer and the file go.
\<close>

lemma Read_ready:
  assumes "env_ok E" "fs_ok E s" "usable s p" "content s p = Some b"
    and "0 \<le> ofst" "ofst < int (length b)" "ofst \<in> ready s p"
  shows "\<exists>s' n buff'. Read E bg p buff ofst s = Ret s' (clip_ready (int (length b)) ofst (int (length buff)) n, buff') [] \<and>
    0 < n \<and> {ofst..<ofst + n} \<subseteq> ready s p \<and> ofst + n \<notin> ready s p \<and>
    content s' = content s \<and> ready s' = ready s \<and> usable s' p \<and> fs_db s' = fs_db s \<and>
    buff' = go_copy buff (sub_slice b (nat ofst)
      (nat (ofst + clip_ready (int (length b)) ofst (int (length buff)) n)))"
proof -
  obtain r where r: "\<not> fs_locked s" "go_get (fs_open s) p = Some r" "fd_lock (file_at s r) = Free"
    using assms(3) by (rule usableE)
  let ?f = "file_at s r"
  have f: "cache_ok (env_cache E) (fd_cache ?f)" "load_ok (fd_load ?f)" and b: "b = file_bytes ?f"
    and sz: "Size (fd_cache ?f) = int (length b)"
    using fs_okD(5) [OF assms(2) r(2)] Size_ok(1) assms(4) contentE(1) [OF r(2)]
    by (auto simp: file_ok_def file_bytes_def)
  have rl: "r < length (fs_heap s)" using fs_okD(4) [OF assms(2) r(2)] .
  have i: "i64 ofst"
    using Size_ok(3) [OF f(1)] assms(5,6) sz by (auto intro: i64_between [of ofst "Size (fd_cache ?f)"])
  obtain l n where t: "read_wait (env_sort E) bg (int (length buff)) ofst 0 ?f =
      Ready (?f\<lparr>fd_load := l\<rparr>) (clip_ready (int (length b)) ofst (int (length buff)) n)"
    "load_ok l" "covered (ranges l) = file_ready ?f" "0 < n" "{ofst..<ofst + n} \<subseteq> file_ready ?f"
    "ofst + n \<notin> file_ready ?f"
    using read_turn [OF env_okD(1) [OF assms(1)] f(2) assms(5) i, of "int (length buff)" bg 0]
      assms(7) contentE(2) [OF r(2)] r(3) Size_ok(2,3) [OF f(1)] by (auto simp: sz)
  define m where "m = clip_ready (int (length b)) ofst (int (length buff)) n"
  have m: "0 \<le> m" "m \<le> int (length buff)" "ofst + m \<le> Size (fd_cache ?f)"
    using assms(6) t(4) sz by (auto simp: m_def clip_ready_def)
  obtain c where c: "ReadRange (fd_cache ?f) ofst (add64 ofst m) buff =
      Some (c, go_copy buff (sub_slice b (nat ofst) (nat (ofst + m))), m)"
    "cache_bytes c = b"
    using ReadRange_wait [OF f(1) assms(5) m] by (auto simp: b)
  let ?s' = "set_file s r (?f\<lparr>fd_load := l, fd_cache := c\<rparr>)"
  have "Read E bg p buff ofst s = Ret ?s' (m, go_copy buff (sub_slice b (nat ofst) (nat (ofst + m)))) []"
    using r t(1) c(1) by (simp add: Read_def m_def)
  moreover have "content ?s' = content s" "ready ?s' = ready s" "usable ?s' p"
    using view_set_file [OF assms(2) r(2), of "?f\<lparr>fd_load := l, fd_cache := c\<rparr>"] r t(3) c(2) b rl
    by (auto simp: fun_eq_iff contentE [OF r(2)] file_bytes_def file_ready_def usable_def file_at_set_file)
  ultimately show ?thesis
    using t(4-6) contentE(2) [OF r(2)] unfolding m_def by (intro exI [of _ ?s'] exI [of _ n]) simp
qed

lemma read_wait_idle:
  assumes "sort_ok sf" "load_ok (fd_load f)" "0 \<le> ofst" "i64 ofst" "fd_lock f = Free" "ofst \<notin> file_ready f"
  shows "\<exists>l. read_wait sf (\<lambda>k f. f) len ofst k f = GaveUp (f\<lparr>fd_load := l\<rparr>) \<and>
    load_ok l \<and> covered (ranges l) = file_ready f"
  using assms
proof (induction "MaxRetries - k" arbitrary: k f)
  case (0 k f)
  obtain l n where b: "bytesReady sf (fd_load f) ofst = (l, n)" by fastforce
  note bf = bytesReady_file [OF 0(2-5) b]
  have "n \<le> 0" using bf(3) 0(7) by (force simp: file_ready_def)
  then show ?case using 0 poll_turn [OF _ b, of "\<lambda>k f. f" len k] bf by (auto simp: file_ready_def)
next
  case (Suc d k f)
  obtain l n where b: "bytesReady sf (fd_load f) ofst = (l, n)" by fastforce
  note bf = bytesReady_file [OF Suc(3-6) b]
  let ?f = "f\<lparr>fd_load := l\<rparr>"
  have "n \<le> 0" using bf(3) Suc(8) by (force simp: file_ready_def)
  moreover have "\<not> MaxRetries \<le> k" using Suc(2) by simp
  ultimately have "read_wait sf (\<lambda>k f. f) len ofst k f = read_wait sf (\<lambda>k f. f) len ofst (Suc k) ?f"
    using Suc(7) poll_turn [OF _ b, of "\<lambda>k f. f" len k] by simp
  then show ?case
    using Suc(1) [of "Suc k" ?f] Suc(2-8) bf by (auto simp: file_ready_def)
qed

text \<open>A read of a byte that is not ready, and that nobody delivers, gives up with no bytes.\<close>

lemma Read_idle:
  assumes "env_ok E" "fs_ok E s" "usable s p" "0 \<le> ofst" "i64 ofst" "ofst \<notin> ready s p"
  shows "\<exists>s'. Read E (\<lambda>k f. f) p buff ofst s = Ret s' (0, buff) [] \<and> content s' = content s \<and> ready s' = ready s"
proof -
  obtain r where r: "\<not> fs_locked s" "go_get (fs_open s) p = Some r" "fd_lock (file_at s r) = Free"
    using assms(3) by (rule usableE)
  let ?f = "file_at s r"
  have "load_ok (fd_load ?f)" using fs_okD(5) [OF assms(2) r(2)] by (simp add: file_ok_def)
  then obtain l where l: "read_wait (env_sort E) (\<lambda>k f. f) (int (length buff)) ofst 0 ?f = GaveUp (?f\<lparr>fd_load := l\<rparr>)"
    "covered (ranges l) = file_ready ?f"
    using read_wait_idle [OF env_okD(1) [OF assms(1)] _ assms(4,5) r(3)] assms(6) contentE(2) [OF r(2)] by metis
  let ?s' = "set_file s r (?f\<lparr>fd_load := l\<rparr>)"
  have "Read E (\<lambda>k f. f) p buff ofst s = Ret ?s' (0, buff) []" using r l(1) by (simp add: Read_def)
  moreover have "content ?s' = content s" "ready ?s' = ready s"
    using view_set_file [OF assms(2) r(2), of "?f\<lparr>fd_load := l\<rparr>"] l(2)
    by (auto simp: fun_eq_iff contentE [OF r(2)] file_bytes_def file_ready_def)
  ultimately show ?thesis by blast
qed

text \<open>The number of pauses of a read is bounded: what happens after the last one is not seen.\<close>

lemma read_wait_bounded:
  assumes "\<forall>j. k \<le> j \<and> j < MaxRetries \<longrightarrow> bg j = bg' j"
  shows "read_wait sf bg len ofst k f = read_wait sf bg' len ofst k f"
  using assms
proof (induction sf bg len ofst k f rule: read_wait.induct)
  case (1 sf bg len ofst k f)
  obtain l n where b: "bytesReady sf (fd_load f) ofst = (l, n)" by fastforce
  show ?case
  proof (cases "fd_lock f = WHeld \<or> 0 < n \<or> MaxRetries \<le> k")
    case True
    then show ?thesis
      by (subst (1 2) read_wait.simps) (auto simp: b Let_def)
  next
    case False
    then have "bg k = bg' k" using 1(2) by auto
    moreover have "read_wait sf bg len ofst (Suc k) (bg k (f\<lparr>fd_load := l\<rparr>)) =
        read_wait sf bg' len ofst (Suc k) (bg k (f\<lparr>fd_load := l\<rparr>))"
      using False b 1(2) by (intro 1(1) [of _ "(l, n)" l n]) auto
    ultimately show ?thesis using False poll_turn [OF _ b] by simp
  qed
qed

end
