(* ===== verification/FileTruncate.thy ===== *)
theory FileTruncate
  imports FileContent
begin

text \<open>
  \<open>Truncate\<close> on the view of a file, in its three cases; what a panic under a file's lock
  does to the calls that follow; and the attributes of an open file.
\<close>

section \<open>The effect of a truncation\<close>

definition load_ranges :: "'t Dsfs \<Rightarrow> string \<Rightarrow> Range list" where
  "load_ranges s p = (case go_get (fs_open s) p of None \<Rightarrow> [] | Some r \<Rightarrow> ranges (fd_load (file_at s r)))"

lemma ready_load_ranges: "ready s p = covered (load_ranges s p)"
  by (simp add: ready_def load_ranges_def file_ready_def split: option.splits)

text \<open>Whether shrinking the file at \<open>p\<close> to \<open>sz\<close> bytes panics.\<close>

definition truncate_fails :: "'t Dsfs \<Rightarrow> string \<Rightarrow> int \<Rightarrow> bool" where
  "truncate_fails s p sz \<longleftrightarrow> (\<exists>j. overruns sz (load_ranges s p) j)"

lemma truncate_same:
  assumes "usable s p" "content s p = Some b" "fs_ok E s"
  shows "fs_Truncate E now p (int (length b)) s = Ret s 0 []"
proof -
  obtain r where r: "\<not> fs_locked s" "go_get (fs_open s) p = Some r" "fd_lock (file_at s r) = Free"
    using assms(1) by (rule usableE)
  have "Size (fd_cache (file_at s r)) = int (length b)"
    using fs_okD(5) [OF assms(3) r(2)] Size_ok(1) assms(2) contentE(1) [OF r(2)]
    by (auto simp: file_ok_def file_bytes_def)
  then show ?thesis using r by (simp add: fs_Truncate_def Let_def)
qed

text \<open>Setting the content and the load of an open file, as the second half of the method does.\<close>

lemma truncate_set:
  fixes now :: Time
  assumes "fs_ok E s" "go_get (fs_open s) p = Some r" "\<not> fs_locked s" "fd_lock (file_at s r) = Free"
    and "cache_ok (env_cache E) c" "load_ok l"
  defines "s' \<equiv> set_file s r ((file_at s r)\<lparr>fd_load := l, fd_cache := c, fd_mtim := now, fd_dirty := True\<rparr>)"
  shows "fs_ok E s'" and "usable s' p" and "content s' = (content s)(p \<mapsto> cache_bytes c)"
    and "ready s' = (ready s)(p := covered (ranges l))"
  using assms fs_okD(4) [OF assms(1,2)]
  by (auto simp: fs_ok_set_file file_ok_def fun_eq_iff view_set_file [OF assms(1,2)] file_bytes_def
      file_ready_def usable_def file_at_set_file)

lemma truncate_shrinks:
  assumes "env_ok E" "fs_ok E s" "usable s p" "content s p = Some b" "0 \<le> sz" "sz < int (length b)"
    and "\<not> truncate_fails s p sz"
  shows "\<exists>s'. fs_Truncate E now p sz s = Ret s' 0 [] \<and> fs_ok E s' \<and> usable s' p \<and>
    content s' = (content s)(p \<mapsto> take (nat sz) b) \<and> ready s' = (ready s)(p := ready s p \<inter> {..<sz})"
proof -
  obtain r where r: "\<not> fs_locked s" "go_get (fs_open s) p = Some r" "fd_lock (file_at s r) = Free"
    using assms(3) by (rule usableE)
  let ?f = "file_at s r"
  have f: "cache_ok (env_cache E) (fd_cache ?f)" "load_ok (fd_load ?f)"
    and b: "cache_bytes (fd_cache ?f) = b"
    using fs_okD(5) [OF assms(2) r(2)] assms(4) contentE(1) [OF r(2)]
    by (simp_all add: file_ok_def file_bytes_def)
  then have sz: "Size (fd_cache ?f) = int (length b)" "i64 sz"
    using Size_ok [OF f(1)] assms(5,6) by (auto simp: i64_def)
  obtain l where l: "truncate_load (fd_load ?f) sz = Some l"
    using assms(7) truncate_None_iff r(2) by (fastforce simp: truncate_fails_def load_ranges_def)
  have l': "load_ok l" "covered (ranges l) = ready s p \<inter> {..<sz}"
    using load_ok_truncate [OF l f(2) sz(2)] covered_truncate [OF l] contentE(2) [OF r(2)]
    by (simp_all add: file_ready_def)
  obtain c where c: "Truncate (env_cache E) (fd_cache ?f) sz = Some c" "cache_ok (env_cache E) c"
    "cache_bytes c = resize b (nat sz)"
    using Truncate_ok [OF f(1) assms(5) sz(2)] b by auto
  have "resize b (nat sz) = take (nat sz) b" using assms(5,6) by (simp add: resize_def)
  then show ?thesis
    using truncate_set [OF assms(2) r(2,1,3) c(2) l'(1), of now] r l l'(2) c assms(6) sz(1)
    by (simp add: fs_Truncate_def)
qed

lemma truncate_grows:
  assumes "env_ok E" "fs_ok E s" "usable s p" "content s p = Some b" "int (length b) < sz" "i64 sz"
  shows "\<exists>s'. fs_Truncate E now p sz s = Ret s' 0 [] \<and> fs_ok E s' \<and> usable s' p \<and>
    content s' = (content s)(p \<mapsto> b @ replicate (nat sz - length b) zero_byte) \<and>
    ready s' = (ready s)(p := ready s p \<union> {int (length b)..<add64 (int (length b)) sz}) \<and>
    (\<forall>r. go_get (fs_open s) p = Some r \<longrightarrow>
       Truncate (env_cache E) (fd_cache (file_at s r)) sz = Some (fd_cache (file_at s' r))) \<and>
    fs_open s' = fs_open s"
proof -
  obtain r where r: "\<not> fs_locked s" "go_get (fs_open s) p = Some r" "fd_lock (file_at s r) = Free"
    using assms(3) by (rule usableE)
  let ?f = "file_at s r"
  have f: "cache_ok (env_cache E) (fd_cache ?f)" "load_ok (fd_load ?f)"
    and b: "cache_bytes (fd_cache ?f) = b"
    using fs_okD(5) [OF assms(2) r(2)] assms(4) contentE(1) [OF r(2)]
    by (simp_all add: file_ok_def file_bytes_def)
  then have sz: "Size (fd_cache ?f) = int (length b)" "0 \<le> sz" "i64 (int (length b))"
    using Size_ok [OF f(1)] assms(5) by auto
  let ?l = "addRange (fd_load ?f) (int (length b)) (add64 (int (length b)) sz)"
  have l: "load_ok ?l" using f(2) sz by simp
  obtain c where c: "Truncate (env_cache E) (fd_cache ?f) sz = Some c" "cache_ok (env_cache E) c"
    "cache_bytes c = resize b (nat sz)"
    using Truncate_ok [OF f(1) sz(2) assms(6)] b by auto
  have "resize b (nat sz) = b @ replicate (nat sz - length b) zero_byte"
    using assms(5) by (simp add: resize_def)
  then show ?thesis
    using truncate_set [OF assms(2) r(2,1,3) c(2) l, of now] r c assms(5) sz(1) contentE(2) [OF r(2)]
      fs_okD(4) [OF assms(2) r(2)]
    by (simp add: fs_Truncate_def file_ready_def file_at_set_file Let_def)
qed

section \<open>Panics under a lock\<close>

text \<open>A file whose lock was left taken for writing stays out of reach.\<close>

lemma stuck_calls:
  assumes "go_get (fs_open s) p = Some r" "fd_lock (file_at s r) = WHeld"
  shows "Read E bg p buff ofst s = Blocks" and "Write E now p buff ofst s = Blocks"
    and "fs_Truncate E now p sz s = Blocks"
  using assms by (simp_all add: Read_def Write_def fs_Truncate_def stuck_turn Let_def)

lemma truncate_panic_state:
  assumes "fs_ok E s" "usable s p" "content s p = Some b" "0 \<le> sz" "sz < int (length b)"
    and "truncate_fails s p sz"
  shows "\<exists>s' r. fs_Truncate E now p sz s = Panics s' \<and> go_get (fs_open s') p = Some r \<and>
    fd_lock (file_at s' r) = WHeld \<and> \<not> fs_locked s'"
proof -
  obtain r where r: "\<not> fs_locked s" "go_get (fs_open s) p = Some r" "fd_lock (file_at s r) = Free"
    using assms(2) by (rule usableE)
  let ?f = "file_at s r"
  have "cache_ok (env_cache E) (fd_cache ?f)" and "cache_bytes (fd_cache ?f) = b"
    using fs_okD(5) [OF assms(1) r(2)] assms(3) contentE(1) [OF r(2)]
    by (simp_all add: file_ok_def file_bytes_def)
  then have sz: "Size (fd_cache ?f) = int (length b)" using Size_ok(1) by blast
  have "truncate_load (fd_load ?f) sz = None"
    using assms(6) truncate_None_iff r(2) by (fastforce simp: truncate_fails_def load_ranges_def)
  then show ?thesis
    using r sz assms(5) fs_okD(4) [OF assms(1) r(2)]
    by (simp add: fs_Truncate_def Let_def file_at_set_file)
qed

text \<open>
  A memory cache panics when the read starts behind the end of the file, which the ranges
  of a file that \<open>Truncate\<close> has grown allow.
\<close>

lemma Read_behind_end:
  assumes "env_ok E" "fs_ok E s" "usable s p" "go_get (fs_open s) p = Some r"
    and "fd_cache (file_at s r) = Mem m" "ofst \<in> ready s p" "mem_Size m < ofst" "i64 ofst"
  shows "\<exists>s'. Read E bg p buff ofst s = Panics s' \<and> fd_lock (file_at s' r) = RHeld"
proof -
  let ?f = "file_at s r"
  have r: "\<not> fs_locked s" "fd_lock ?f = Free" using assms(3,4) by (auto simp: usable_def)
  have sz: "Size (fd_cache ?f) = mem_Size m" "0 \<le> mem_Size m" by (simp_all add: assms(5) Size_def mem_Size_def)
  have f: "cache_ok (env_cache E) (fd_cache ?f)" "load_ok (fd_load ?f)"
    using fs_okD(5) [OF assms(2,4)] by (simp_all add: file_ok_def)
  obtain l n where t: "read_wait (env_sort E) bg (int (length buff)) ofst 0 ?f =
      Ready (?f\<lparr>fd_load := l\<rparr>) (clip_ready (mem_Size m) ofst (int (length buff)) n)" "0 < n"
    using read_turn [OF env_okD(1) [OF assms(1)] f(2) _ assms(8), of "int (length buff)" bg 0]
      assms(6,7) contentE(2) [OF assms(4)] r Size_ok(2,3) [OF f(1)] sz by auto
  have cr: "clip_ready (mem_Size m) ofst (int (length buff)) n = mem_Size m - ofst"
    using t(2) assms(7) by (simp add: clip_ready_def)
  have "i64 (mem_Size m)" using Size_ok(3) [OF f(1)] sz by simp
  then have "add64 ofst (mem_Size m - ofst) = mem_Size m" by (simp add: i64_simps)
  then have "ReadRange (fd_cache ?f) ofst (add64 ofst (mem_Size m - ofst)) buff = None"
    using assms(7) by (simp add: assms(5) ReadRange_def mem_ReadRange_def slice_ok_def)
  then have "Read E bg p buff ofst s = Panics (set_file s r (?f\<lparr>fd_load := l, fd_lock := RHeld\<rparr>))"
    using r assms(4) t(1) cr by (simp add: Read_def)
  then show ?thesis using fs_okD(4) [OF assms(2,4)] by (simp add: file_at_set_file)
qed

section \<open>Attributes\<close>

lemma Getattr_open:
  assumes "fs_ok E s" "\<not> fs_locked s" "content s p = Some b"
  shows "\<exists>st'. Getattr E p st s = Ret s (0, st') [] \<and> st_Size st' = int (length b) \<and>
    st_Mode st' = S_IFREG OR mode_777"
proof -
  obtain r where r: "go_get (fs_open s) p = Some r" "b = file_bytes (file_at s r)"
    using assms(3) by (auto simp: content_def)
  then have "Size (fd_cache (file_at s r)) = int (length b)"
    using fs_okD(5) [OF assms(1) r(1)] Size_ok(1) by (auto simp: file_ok_def file_bytes_def)
  then show ?thesis using r assms(2) by (simp add: Getattr_def file_stat_def Let_def)
qed

end
