(* ===== verification/Namespace.thy ===== *)
theory Namespace
  imports FsInvariant
begin

text \<open>
  The names of the file system. \<open>stored\<close> is what the database holds, and so what other
  clients see; \<open>visible\<close> adds the open files, which may not be stored yet, and is what
  \<open>Getattr\<close> reports. For each method on names: its result on each branch, and its effect on
  both views.
\<close>

section \<open>The two views\<close>

datatype kind = AFile | AFolder

text \<open>\<open>Getattr\<close> and \<open>Readdir\<close> take what is not of the file type for a folder.\<close>

definition kind_of :: "Tx \<Rightarrow> kind" where
  "kind_of tx = (if tx_Type tx = FileType then AFile else AFolder)"

definition stored :: "'t env \<Rightarrow> 't Dsfs \<Rightarrow> string \<Rightarrow> kind option" where
  "stored E s p = map_option kind_of (get E s p)"

definition is_open :: "'t Dsfs \<Rightarrow> string \<Rightarrow> bool" where
  "is_open s p \<longleftrightarrow> go_get (fs_open s) p \<noteq> None"

definition visible :: "'t env \<Rightarrow> 't Dsfs \<Rightarrow> string \<Rightarrow> kind option" where
  "visible E s p = (if is_open s p then Some AFile else stored E s p)"

text \<open>Each stored transaction is of one of the two types.\<close>

definition types_ok :: "'t env \<Rightarrow> 't Dsfs \<Rightarrow> bool" where
  "types_ok E s \<longleftrightarrow> (\<forall>k tx. get E s k = Some tx \<longrightarrow> tx_Type tx = FileType \<or> tx_Type tx = FolderType)"

text \<open>The transactions a method announces are short enough to be sent.\<close>

definition fits :: "'t env \<Rightarrow> Tx \<Rightarrow> bool" where
  "fits E tx \<longleftrightarrow> int (length (env_marshal E tx)) \<le> MaxDiscordFileSize"

lemma stored_iff [simp]: "stored E s p = None \<longleftrightarrow> get E s p = None"
  by (simp add: stored_def)

lemma is_open_simps [simp]:
  "is_open (s\<lparr>fs_db := d\<rparr>) p = is_open s p"
  "is_open (s\<lparr>fs_open := go_del m k\<rparr>) p = (p \<noteq> k \<and> go_get m p \<noteq> None)"
  "is_open (open_new s k f) p = (p = k \<or> is_open s p)"
  by (simp_all add: is_open_def open_new_def)

lemma stored_simps [simp]:
  "stored E (s\<lparr>fs_open := m\<rparr>) p = stored E s p"
  "stored E (open_new s k f) p = stored E s p"
  "stored E (move_open s a b) p = stored E s p"
  by (simp_all add: stored_def get_def open_new_def move_open_def split: option.splits)

lemma get_simps [simp]:
  "get E (s\<lparr>fs_open := m\<rparr>) p = get E s p"
  "get E (open_new s k f) p = get E s p"
  "get E (move_open s a b) p = get E s p"
  by (simp_all add: get_def open_new_def move_open_def split: option.splits)

lemma get_db [simp]:
  assumes "db_ok (env_db E) (fs_db s)"
  shows "get E (s\<lparr>fs_db := db_Insert (env_db E) (fs_db s) k tx\<rparr>) p = (if p = k then Some tx else get E s p)"
    and "get E (s\<lparr>fs_db := db_Delete (env_db E) (fs_db s) k\<rparr>) p = (if p = k then None else get E s p)"
  using assms by (simp_all add: get_def anydb.get_insert anydb.get_delete)

section \<open>Creation\<close>

lemma Mknod_names:
  assumes "\<not> fs_locked s" "GetNewCache s = Some c"
  shows "\<exists>s' res. Mknod E t1 t2 p s = Ret s' res [] \<and> stored E s' = stored E s \<and>
    (if is_open s p then res = - EEXIST \<and> s' = s
     else if stored E s (getDir (env_win E) p) = None then res = - ENOENT \<and> s' = s
     else if stored E s p \<noteq> None then res = - EEXIST \<and> s' = s
     else res = 0 \<and> visible E s' = (visible E s)(p \<mapsto> AFile))"
proof (cases "is_open s p \<or> get E s (getDir (env_win E) p) = None \<or> get E s p \<noteq> None")
  case True
  then show ?thesis using assms by (auto simp: Mknod_def is_open_def)
next
  case False
  then show ?thesis
    using assms by (auto simp: Mknod_def is_open_def [of s p] fun_eq_iff visible_def)
qed

lemma Mkdir_names:
  assumes "\<not> fs_locked s" "fs_ok E s" "fits E (folderTx p)"
  shows "\<exists>s' res js. Mkdir E p s = Ret s' res js \<and> fs_open s' = fs_open s \<and>
    (if stored E s (getDir (env_win E) p) = None then res = - ENOENT \<and> s' = s \<and> js = []
     else if stored E s p \<noteq> None then res = - EEXIST \<and> s' = s \<and> js = []
     else res = 0 \<and> stored E s' = (stored E s)(p \<mapsto> AFolder) \<and>
       js = [SendTx (env_marshal E (folderTx p))])"
proof (cases "get E s (getDir (env_win E) p) = None \<or> get E s p \<noteq> None")
  case True
  then show ?thesis using assms by (auto simp: Mkdir_def)
next
  case False
  have "stored E (s\<lparr>fs_db := db_Insert (env_db E) (fs_db s) p (folderTx p)\<rparr>) = (stored E s)(p \<mapsto> AFolder)"
    using fs_okD(1) [OF assms(2)] by (auto simp: stored_def kind_of_def fun_eq_iff)
  then show ?thesis
    using False assms by (simp add: Mkdir_def fits_def Let_def)
qed

section \<open>Removal\<close>

lemma Unlink_names:
  assumes "\<not> fs_locked s" "fs_ok E s" "types_ok E s" "fits E (createDeleteTx p)"
  shows "\<exists>s' res js. Unlink E p s = Ret s' res js \<and>
    (if stored E s p = Some AFolder then res = - EISDIR \<and> s' = s \<and> js = []
     else if visible E s p = None then res = - ENOENT \<and> s' = s \<and> js = []
     else res = 0 \<and> stored E s' = (stored E s)(p := None) \<and> visible E s' = (visible E s)(p := None) \<and>
       js = (if stored E s p = None then [] else [SendTx (env_marshal E (createDeleteTx p))]))"
proof (cases "get E s p")
  case None
  then have "(stored E s)(p := None) = stored E s" by (auto simp: fun_eq_iff stored_def)
  then show ?thesis
    using None assms(1)
    by (auto simp: Unlink_def visible_def stored_def is_open_def fun_eq_iff)
next
  case (Some tx)
  let ?s = "s\<lparr>fs_open := go_del (fs_open s) p\<rparr>"
  let ?s' = "?s\<lparr>fs_db := db_Delete (env_db E) (fs_db s) p\<rparr>"
  have "db_ok (env_db E) (fs_db ?s)" using fs_okD(1) [OF assms(2)] by simp
  from get_db(2) [OF this, of p] have g: "get E ?s' q = (if q = p then None else get E s q)" for q
    by simp
  have "stored E ?s' = (stored E s)(p := None)" by (simp add: stored_def g fun_eq_iff)
  moreover from this have "visible E ?s' = (visible E s)(p := None)"
    by (simp add: visible_def is_open_def fun_eq_iff)
  moreover have "tx_Type tx = FileType \<or> tx_Type tx = FolderType"
    using assms(3) Some by (auto simp: types_ok_def)
  moreover have "stored E s p = Some (kind_of tx)" and "visible E s p \<noteq> None"
    using Some by (simp_all add: stored_def visible_def)
  ultimately show ?thesis
    using Some assms(1,4)
    by (cases "tx_Type tx = FolderType") (auto simp: Unlink_def kind_of_def fits_def Let_def)
qed

lemma has_other_key_iff:
  assumes "fs_ok E s"
  shows "has_other_key E s p \<longleftrightarrow> (\<exists>q. q \<noteq> p \<and> stored E s q \<noteq> None \<and> prefix p q)"
proof -
  have "has_other_key E s p \<longleftrightarrow> (\<exists>q tx. (q, tx) \<in> set (db_Iterator (env_db E) (fs_db s) p) \<and> q \<noteq> p)"
    by (auto simp: has_other_key_def list_ex_iff)
  then show ?thesis
    unfolding anydb.iter_lookup [OF fs_okD(1) [OF assms]] by (auto simp: stored_def get_def)
qed

lemma Rmdir_names:
  assumes "\<not> fs_locked s" "fs_ok E s" "types_ok E s" "fits E (createDeleteTx p)"
  shows "\<exists>s' res js. Rmdir E p s = Ret s' res js \<and> fs_open s' = fs_open s \<and>
    (if stored E s p = None then res = - ENOENT \<and> s' = s \<and> js = []
     else if stored E s p = Some AFile then res = - ENOTDIR \<and> s' = s \<and> js = []
     else if \<exists>q. q \<noteq> p \<and> stored E s q \<noteq> None \<and> prefix p q then res = - ENOTEMPTY \<and> s' = s \<and> js = []
     else res = 0 \<and> stored E s' = (stored E s)(p := None) \<and>
       js = [SendTx (env_marshal E (createDeleteTx p))])"
proof (cases "get E s p")
  case None
  then show ?thesis using assms by (simp add: Rmdir_def)
next
  case (Some tx)
  have "stored E (s\<lparr>fs_db := db_Delete (env_db E) (fs_db s) p\<rparr>) = (stored E s)(p := None)"
    using fs_okD(1) [OF assms(2)] by (auto simp: stored_def fun_eq_iff)
  moreover have "tx_Type tx = FileType \<or> tx_Type tx = FolderType"
    using assms(3) Some by (auto simp: types_ok_def)
  ultimately show ?thesis
    using Some assms has_other_key_iff [OF assms(2), of p]
    by (auto simp: Rmdir_def stored_def kind_of_def fits_def Let_def)
qed

section \<open>Renaming\<close>

lemma get_rename_commit:
  assumes "fs_ok E s" "old \<noteq> new" "fits E (tx\<lparr>tx_Path := new\<rparr>)" "fits E (createDeleteTx old)"
  shows "\<exists>s' js. rename_commit E old new tx s = Ret s' 0 js \<and> fs_open s' = fs_open s \<and>
    fs_heap s' = fs_heap s \<and> fs_locked s' = fs_locked s \<and>
    (\<forall>q. get E s' q = (if q = old then None else if q = new then Some (tx\<lparr>tx_Path := new\<rparr>) else get E s q)) \<and>
    js \<noteq> []"
proof -
  let ?d = "fs_db s" and ?tx = "tx\<lparr>tx_Path := new\<rparr>" and ?D = "env_db E"
  let ?d' = "db_Delete ?D (db_Insert ?D (db_Insert ?D ?d old ?tx) new ?tx) old"
  have d: "db_ok ?D ?d" using fs_okD(1) [OF assms(1)] .
  then have "db_Get ?D ?d' q = (if q = old then None else if q = new then Some ?tx else db_Get ?D ?d q)" for q
    by (simp add: anydb.get_insert anydb.get_delete anydb.ok_insert)
  then show ?thesis
    using assms(3,4) by (simp add: rename_commit_def fits_def get_def Let_def)
qed

definition move_map :: "nat gomap \<Rightarrow> string \<Rightarrow> string \<Rightarrow> string \<Rightarrow> nat option" where
  "move_map m old new q =
     (if go_get m old = None then go_get m q
      else if q = old then None else if q = new then go_get m old else go_get m q)"

lemma move_open_get: "go_get (fs_open (move_open s old new)) q = move_map (fs_open s) old new q"
  by (simp add: move_open_def move_map_def split: option.splits)

lemma move_open_keeps [simp]:
  "fs_db (move_open s a b) = fs_db s" "fs_heap (move_open s a b) = fs_heap s"
  "fs_locked (move_open s a b) = fs_locked s"
  by (simp_all add: move_open_def split: option.splits)

lemma Rename_names:
  assumes "\<not> fs_locked s" "fs_ok E s" "types_ok E s" "old \<noteq> new"
    and "fits E (createDeleteTx old)" "\<And>tx. get E s old = Some tx \<Longrightarrow> fits E (tx\<lparr>tx_Path := new\<rparr>)"
  shows "\<exists>s' res js. Rename E old new s = Ret s' res js \<and> fs_heap s' = fs_heap s \<and>
    (if stored E s (getDir (env_win E) new) = None \<or> visible E s old = None then res = - ENOENT \<and> s' = s
     else if stored E s old = Some AFolder \<and> (\<exists>q. q \<noteq> old \<and> stored E s q \<noteq> None \<and> prefix old q)
     then res = - ENOTEMPTY \<and> s' = s
     else res = 0 \<and>
       stored E s' = (if stored E s old = None then stored E s
                      else (stored E s)(new := stored E s old, old := None)) \<and>
       (\<forall>q. go_get (fs_open s') q =
          (if stored E s old = Some AFolder then go_get (fs_open s) q else move_map (fs_open s) old new q)))"
proof (cases "get E s (getDir (env_win E) new) = None")
  case True
  then show ?thesis using assms(1) by (simp add: Rename_def)
next
  case parent: False
  show ?thesis
  proof (cases "get E s old")
    case None
    then show ?thesis
      using assms(1) parent
      by (auto simp: Rename_def visible_def stored_def is_open_def move_open_get)
  next
    case (Some tx)
    have st: "stored E s old = Some (kind_of tx)" using Some by (simp add: stored_def)
    obtain v where vis: "visible E s old = Some v" using st that by (cases "is_open s old") (simp_all add: visible_def)
    obtain pt where pt: "get E s (getDir (env_win E) new) = Some pt" using parent by blast
    have ty: "tx_Type tx = FileType \<or> tx_Type tx = FolderType"
      using assms(3) Some by (auto simp: types_ok_def)
    define t where "t = (if tx_Type tx = FolderType then s else move_open s old new)"
    have t: "fs_ok E t" "get E t q = get E s q" "fs_heap t = fs_heap s" for q
      using assms(2) by (simp_all add: t_def move_open_ok)
    obtain s' js where s': "rename_commit E old new tx t = Ret s' 0 js" "fs_open s' = fs_open t"
      "fs_heap s' = fs_heap t"
      "\<And>q. get E s' q = (if q = old then None else if q = new then Some (tx\<lparr>tx_Path := new\<rparr>) else get E t q)"
      using get_rename_commit [OF t(1) assms(4) assms(6) [OF Some] assms(5)] by blast
    have k: "kind_of (tx\<lparr>tx_Path := new\<rparr>) = kind_of tx" by (simp add: kind_of_def)
    have "stored E s' = (stored E s)(new := Some (kind_of tx), old := None)"
      using assms(4) by (simp add: stored_def s'(4) t(2) fun_eq_iff k)
    moreover have "Rename E old new s =
        (if tx_Type tx = FolderType \<and> has_other_key E s old then Ret s (- ENOTEMPTY) [] else Ret s' 0 js)"
      using assms(1) parent Some s'(1)
      by (cases "tx_Type tx = FolderType"; cases "has_other_key E s old") (auto simp: Rename_def t_def)
    moreover have "go_get (fs_open s') q =
        (if tx_Type tx = FolderType then go_get (fs_open s) q else move_map (fs_open s) old new q)" for q
      by (simp add: s'(2) t_def move_open_get)
    moreover have "kind_of tx = AFolder \<longleftrightarrow> tx_Type tx = FolderType"
      using ty by (auto simp: kind_of_def)
    ultimately show ?thesis
      unfolding has_other_key_iff [OF assms(2)]
      using pt st vis t(3) s'(3)
      by (cases "tx_Type tx = FolderType \<and> (\<exists>q. q \<noteq> old \<and> stored E s q \<noteq> None \<and> prefix old q)")
        (auto simp: stored_def [of E s "getDir (env_win E) new"])
  qed
qed

end
