(* ===== verification/Listing.thy ===== *)
theory Listing
  imports Namespace
begin

text \<open>
  \<open>Readdir\<close> against \<open>Getattr\<close>, and the shape of the tree of stored names. Both need the
  paths to be canonical, as those the FUSE layer passes are.
\<close>

section \<open>Readdir\<close>

text \<open>All names are canonical paths, and the root is not an open file.\<close>

definition names_wf :: "'t env \<Rightarrow> 't Dsfs \<Rightarrow> bool" where
  "names_wf E s \<longleftrightarrow> (\<forall>p. visible E s p \<noteq> None \<longrightarrow> wf_path p) \<and> \<not> is_open s [slash]"

definition dot_entries :: "fill_call list" where
  "dot_entries = [(''.'', Some (dir_stat zero_Stat), 0), (''..'', None, 0)]"

text \<open>The attributes \<open>Getattr\<close> gives to a fresh record, if it finds the path.\<close>

definition attr_of :: "'t env \<Rightarrow> 't Dsfs \<Rightarrow> string \<Rightarrow> Stat_t option" where
  "attr_of E s p = (case Getattr E p zero_Stat s of
     Ret s' (res, st) js \<Rightarrow> if res = 0 then Some st else None
   | _ \<Rightarrow> None)"

lemma attr_of_eq:
  assumes "\<not> fs_locked s"
  shows "attr_of E s p = (case go_get (fs_open s) p of
      Some r \<Rightarrow> Some (file_stat (Size (fd_cache (file_at s r))) (fd_ctim (file_at s r)) (fd_mtim (file_at s r)) zero_Stat)
    | None \<Rightarrow> map_option (\<lambda>tx. if tx_Type tx = FileType
        then file_stat (tx_Size tx) (tx_Ctim tx) (tx_Mtim tx) zero_Stat else dir_stat zero_Stat) (get E s p))"
  using assms by (auto simp: attr_of_def Getattr_def Let_def ENOENT_def split: option.splits)

lemma attr_of_visible:
  "\<not> fs_locked s \<Longrightarrow> attr_of E s p = None \<longleftrightarrow> visible E s p = None"
  by (auto simp: attr_of_eq visible_def is_open_def stored_def split: option.splits)

text \<open>The two parts of the listing: what is stored and not open, and what is open.\<close>

definition stored_part :: "'t env \<Rightarrow> 't Dsfs \<Rightarrow> string \<Rightarrow> (string \<times> Tx) list" where
  "stored_part E s path = filter (\<lambda>(key, tx). go_get (fs_open s) key = None \<and>
     \<not> (key = path \<or> getDir (env_win E) key \<noteq> path)) (db_Iterator (env_db E) (fs_db s) path)"

definition open_part :: "'t env \<Rightarrow> 't Dsfs \<Rightarrow> string \<Rightarrow> (string \<times> nat) list" where
  "open_part E s path = filter (\<lambda>(key, r). getDir (env_win E) key = path)
     (go_entries (de_order (env_db E)) (fs_open s))"

definition list_keys :: "'t env \<Rightarrow> 't Dsfs \<Rightarrow> string \<Rightarrow> string list" where
  "list_keys E s path = map fst (stored_part E s path) @ map fst (open_part E s path)"

lemma comprehension_filter:
  "concat (map (\<lambda>(k, v). if P k then [f k v] else []) xs) = map (\<lambda>(k, v). f k v) (filter (\<lambda>(k, v). P k) xs)"
  by (induction xs) auto

lemma Readdir_parts:
  assumes "env_ok E" "fs_ok E s" "\<not> fs_locked s"
  shows "Readdir E path s = Ret s (0, dot_entries @
    map (\<lambda>k. (filepath_Base (env_win E) k, attr_of E s k, 0)) (list_keys E s path)) []"
proof -
  let ?B = "filepath_Base (env_win E)"
  have e1: "db_fill (?B k) tx = (?B k, attr_of E s k, 0)"
    if "(k, tx) \<in> set (stored_part E s path)" for k tx
  proof -
    have "get E s k = Some tx" and "go_get (fs_open s) k = None"
      using that anydb.iter_lookup [OF fs_okD(1) [OF assms(2)]]
      by (auto simp: stored_part_def get_def)
    then show ?thesis using assms(3) by (simp add: attr_of_eq db_fill_def)
  qed
  have 1: "map (\<lambda>(k, tx). db_fill (?B k) tx) (stored_part E s path) =
      map (\<lambda>k. (?B k, attr_of E s k, 0)) (map fst (stored_part E s path))"
    unfolding map_map by (rule map_cong [OF refl]) (clarsimp simp: e1)
  have e2: "(?B k, Some (file_stat (Size (fd_cache (file_at s r))) (fd_ctim (file_at s r))
        (fd_mtim (file_at s r)) zero_Stat), 0) = (?B k, attr_of E s k, 0)"
    if "(k, r) \<in> set (open_part E s path)" for k r
    using that assms(3) set_go_entries [OF env_okD(4) [OF assms(1)], of "fs_open s"]
    by (auto simp: open_part_def attr_of_eq)
  have 2: "map (\<lambda>(k, r). (?B k, Some (file_stat (Size (fd_cache (file_at s r))) (fd_ctim (file_at s r))
        (fd_mtim (file_at s r)) zero_Stat), 0)) (open_part E s path) =
      map (\<lambda>k. (?B k, attr_of E s k, 0)) (map fst (open_part E s path))"
    unfolding map_map by (rule map_cong [OF refl]) (use e2 in \<open>clarsimp\<close>)
  have "Readdir E path s = Ret s (0, dot_entries @
      map (\<lambda>(k, tx). db_fill (?B k) tx) (stored_part E s path) @
      map (\<lambda>(k, r). (?B k, Some (file_stat (Size (fd_cache (file_at s r))) (fd_ctim (file_at s r))
        (fd_mtim (file_at s r)) zero_Stat), 0)) (open_part E s path)) []"
    using assms(3)
    by (simp add: Readdir_def Let_def dot_entries_def stored_part_def open_part_def comprehension_filter)
  then show ?thesis unfolding 1 2 list_keys_def by simp
qed

lemma fst_filter: "fst ` set (filter (\<lambda>(k, v). P k) xs) = {k. P k \<and> (\<exists>v. (k, v) \<in> set xs)}"
  by force

lemma stored_part_keys:
  assumes "fs_ok E s"
  shows "fst ` set (stored_part E s path) =
    {k. \<not> is_open s k \<and> get E s k \<noteq> None \<and> prefix path k \<and> k \<noteq> path \<and> getDir (env_win E) k = path}"
  unfolding stored_part_def fst_filter anydb.iter_lookup [OF fs_okD(1) [OF assms]] is_open_def get_def
  by auto

lemma open_part_keys:
  assumes "env_ok E"
  shows "fst ` set (open_part E s path) = {k. is_open s k \<and> getDir (env_win E) k = path}"
  unfolding open_part_def fst_filter set_go_entries [OF env_okD(4) [OF assms]] is_open_def by auto

lemma list_keys_set:
  assumes "env_ok E" "fs_ok E s" "names_wf E s"
  shows "set (list_keys E s path) = {k. visible E s k \<noteq> None \<and> k \<noteq> path \<and> getDir (env_win E) k = path}"
proof -
  have pre: "prefix path k" if "visible E s k \<noteq> None" "getDir (env_win E) k = path" for k
    using that assms(3) prefix_getDir unfolding names_wf_def by metis
  have "k \<noteq> path" if "is_open s k" "getDir (env_win E) k = path" for k
  proof -
    have "wf_path k" "k \<noteq> [slash]" using that(1) assms(3) by (auto simp: names_wf_def visible_def)
    then show ?thesis using getDir_neq that(2) by metis
  qed
  moreover have "visible E s k \<noteq> None \<longleftrightarrow> is_open s k \<or> get E s k \<noteq> None" for k
    by (auto simp: visible_def stored_def)
  ultimately show ?thesis using pre 
    unfolding list_keys_def set_append set_map stored_part_keys [OF assms(2)] open_part_keys [OF assms(1)]
    by blast
qed

lemma list_keys_distinct:
  assumes "env_ok E" "fs_ok E s"
  shows "distinct (list_keys E s path)"
proof -
  have "distinct (map fst (open_part E s path))"
    using distinct_go_entries [OF env_okD(4) [OF assms(1)] open_okD(1) [OF fs_okD(3) [OF assms(2)]]]
    by (simp add: open_part_def distinct_map_filter)
  moreover have "distinct (map fst (stored_part E s path))"
    using anydb.distinct_iter [OF fs_okD(1) [OF assms(2)]] by (simp add: stored_part_def distinct_map_filter)
  ultimately show ?thesis
    using stored_part_keys [OF assms(2), of path] open_part_keys [OF assms(1), of s path]
    by (auto simp: list_keys_def)
qed

lemma list_names_distinct:
  assumes "env_ok E" "fs_ok E s" "names_wf E s"
  shows "distinct (map (filepath_Base (env_win E)) (list_keys E s path))"
proof -
  have "inj_on (filepath_Base (env_win E)) (set (list_keys E s path))"
  proof (rule inj_onI)
    fix k k'
    assume a: "k \<in> set (list_keys E s path)" "k' \<in> set (list_keys E s path)"
      "filepath_Base (env_win E) k = filepath_Base (env_win E) k'"
    then have "wf_path k" "wf_path k'" "getDir (env_win E) k = path" "getDir (env_win E) k' = path"
      "k \<noteq> path" "k' \<noteq> path"
      using assms(3) unfolding list_keys_set [OF assms] names_wf_def by auto
    then show "k = k'"
      using a(3) getDir_Base_inject [of k k' "env_win E"] by (metis getDir_root)
  qed
  then show ?thesis using list_keys_distinct [OF assms(1,2)] by (simp add: distinct_map)
qed

section \<open>The tree of stored names\<close>

text \<open>Every stored path but the root lies in a stored folder.\<close>

definition tree_ok :: "'t env \<Rightarrow> 't Dsfs \<Rightarrow> bool" where
  "tree_ok E s \<longleftrightarrow> stored E s [slash] = Some AFolder \<and>
     (\<forall>p. stored E s p \<noteq> None \<longrightarrow> wf_path p \<and> stored E s (getDir (env_win E) p) = Some AFolder)"

lemma tree_add:
  assumes "\<forall>p. N p \<noteq> None \<longrightarrow> wf_path p \<and> N (getDir w p) = Some AFolder"
    and "wf_path p" "N (getDir w p) = Some AFolder" "k = AFolder \<or> N p = Some AFile \<or> N p = None"
    and "N p = Some AFolder \<longrightarrow> k = AFolder"
  shows "\<forall>q. (N(p \<mapsto> k)) q \<noteq> None \<longrightarrow> wf_path q \<and> (N(p \<mapsto> k)) (getDir w q) = Some AFolder"
  using assms by (auto split: if_splits)

lemma tree_remove:
  assumes "\<forall>p. N p \<noteq> None \<longrightarrow> wf_path p \<and> N (getDir w p) = Some AFolder"
    and "\<forall>q. q \<noteq> p \<longrightarrow> N q \<noteq> None \<longrightarrow> getDir w q \<noteq> p"
  shows "\<forall>q. (N(p := None)) q \<noteq> None \<longrightarrow> wf_path q \<and> (N(p := None)) (getDir w q) = Some AFolder"
  using assms by auto

text \<open>What is stored in a tree below a path is found by its prefix, so a file has nothing below.\<close>

lemma tree_file_leaf:
  assumes "tree_ok E s" "stored E s p = Some AFile" "stored E s q \<noteq> None"
  shows "getDir (env_win E) q \<noteq> p"
  using assms by (auto simp: tree_ok_def)

lemma tree_empty_folder:
  assumes "tree_ok E s" "\<not> (\<exists>q. q \<noteq> p \<and> stored E s q \<noteq> None \<and> prefix p q)" "q \<noteq> p" "stored E s q \<noteq> None"
  shows "getDir (env_win E) q \<noteq> p"
  using assms prefix_getDir unfolding tree_ok_def by metis

lemma tree_okD:
  assumes "tree_ok E s"
  shows "stored E s [slash] = Some AFolder"
    and "\<forall>p. stored E s p \<noteq> None \<longrightarrow> wf_path p \<and> stored E s (getDir (env_win E) p) = Some AFolder"
  using assms by (simp_all add: tree_ok_def)

lemma tree_ok_cong: "stored E s' = stored E s \<Longrightarrow> tree_ok E s' = tree_ok E s"
  by (simp add: tree_ok_def)

lemma Mkdir_tree:
  assumes "\<not> fs_locked s" "fs_ok E s" "fits E (folderTx p)" "tree_ok E s"
    and "wf_path p" "stored E s (getDir (env_win E) p) \<noteq> Some AFile"
  shows "tree_ok E (o_state (Mkdir E p s))"
proof -
  obtain s' res js where m: "Mkdir E p s = Ret s' res js" and
    n: "(if stored E s (getDir (env_win E) p) = None then res = - ENOENT \<and> s' = s \<and> js = []
     else if stored E s p \<noteq> None then res = - EEXIST \<and> s' = s \<and> js = []
     else res = 0 \<and> stored E s' = (stored E s)(p \<mapsto> AFolder) \<and> js = [SendTx (env_marshal E (folderTx p))])"
    using Mkdir_names [OF assms(1-3)] by blast
  show ?thesis
  proof (cases "stored E s (getDir (env_win E) p) = None \<or> stored E s p \<noteq> None")
    case True
    then show ?thesis using m n assms(4) by (auto split: if_splits)
  next
    case False
    then have "stored E s (getDir (env_win E) p) = Some AFolder"
      using assms(6) by (metis kind.exhaust not_Some_eq)
    then have "\<forall>q. ((stored E s)(p \<mapsto> AFolder)) q \<noteq> None \<longrightarrow>
        wf_path q \<and> ((stored E s)(p \<mapsto> AFolder)) (getDir (env_win E) q) = Some AFolder"
      by (intro tree_add [OF tree_okD(2) [OF assms(4)] assms(5)]) simp_all
    moreover have "stored E s' = (stored E s)(p \<mapsto> AFolder)" using n False by auto
    ultimately show ?thesis using m tree_okD(1) [OF assms(4)] by (simp add: tree_ok_def)
  qed
qed

lemma tree_ok_remove:
  assumes "tree_ok E s" "stored E s' = (stored E s)(p := None)" "p \<noteq> [slash]"
    and "\<forall>q. q \<noteq> p \<longrightarrow> stored E s q \<noteq> None \<longrightarrow> getDir (env_win E) q \<noteq> p"
  shows "tree_ok E s'"
  using tree_remove [OF tree_okD(2) [OF assms(1)] assms(4)] tree_okD(1) [OF assms(1)] assms(2,3)
  by (simp add: tree_ok_def)

lemma Unlink_tree:
  assumes "\<not> fs_locked s" "fs_ok E s" "types_ok E s" "fits E (createDeleteTx p)" "tree_ok E s"
  shows "tree_ok E (o_state (Unlink E p s))"
proof -
  obtain s' res js where m: "Unlink E p s = Ret s' res js" and
    n: "s' = s \<or> stored E s p \<noteq> Some AFolder \<and> stored E s' = (stored E s)(p := None)"
    using Unlink_names [OF assms(1-4)] by (metis (no_types, lifting))
  have "tree_ok E s'" if "stored E s p \<noteq> Some AFolder" "stored E s' = (stored E s)(p := None)"
    using tree_ok_remove [OF assms(5) that(2)] that(1) assms(5) tree_okD [OF assms(5)] by metis
  then show ?thesis using m n assms(5) by auto
qed

lemma Rmdir_tree:
  assumes "\<not> fs_locked s" "fs_ok E s" "types_ok E s" "fits E (createDeleteTx p)" "tree_ok E s"
    and "p \<noteq> [slash]"
  shows "tree_ok E (o_state (Rmdir E p s))"
proof -
  obtain s' res js where m: "Rmdir E p s = Ret s' res js" and
    n: "s' = s \<or> \<not> (\<exists>q. q \<noteq> p \<and> stored E s q \<noteq> None \<and> prefix p q) \<and> stored E s' = (stored E s)(p := None)"
    using Rmdir_names [OF assms(1-4)] by (metis (no_types, lifting))
  have "tree_ok E s'" if "\<not> (\<exists>q. q \<noteq> p \<and> stored E s q \<noteq> None \<and> prefix p q)" "stored E s' = (stored E s)(p := None)"
    using tree_ok_remove [OF assms(5) that(2) assms(6)] tree_empty_folder [OF assms(5) that(1)] by blast
  then show ?thesis using m n assms(5) by auto
qed

text \<open>
  The conditions on a renaming are those the kernel checks before it calls: neither path is
  the root, the target's folder is not a file and is not the source itself, and a folder is
  only replaced by a folder.
\<close>

definition rename_legal :: "'t env \<Rightarrow> 't Dsfs \<Rightarrow> string \<Rightarrow> string \<Rightarrow> bool" where
  "rename_legal E s old new \<longleftrightarrow> wf_path new \<and> old \<noteq> new \<and> old \<noteq> [slash] \<and> new \<noteq> [slash] \<and>
     getDir (env_win E) new \<noteq> old \<and> stored E s (getDir (env_win E) new) \<noteq> Some AFile \<and>
     (stored E s new = Some AFolder \<longrightarrow> stored E s old = Some AFolder)"

lemma Rename_tree:
  assumes "\<not> fs_locked s" "fs_ok E s" "types_ok E s" "tree_ok E s" "rename_legal E s old new"
    and "fits E (createDeleteTx old)" "\<And>tx. get E s old = Some tx \<Longrightarrow> fits E (tx\<lparr>tx_Path := new\<rparr>)"
  shows "tree_ok E (o_state (Rename E old new s))"
proof -
  let ?N = "stored E s" and ?w = "env_win E"
  have l: "wf_path new" "old \<noteq> new" "old \<noteq> [slash]" "new \<noteq> [slash]" "getDir ?w new \<noteq> old"
    "?N (getDir ?w new) \<noteq> Some AFile" "?N new = Some AFolder \<longrightarrow> ?N old = Some AFolder"
    using assms(5) by (simp_all add: rename_legal_def)
  obtain s' res js where m: "Rename E old new s = Ret s' res js" and
    n: "s' = s \<or> stored E s' = ?N \<or> ?N (getDir ?w new) \<noteq> None \<and> ?N old \<noteq> None \<and>
      (?N old = Some AFolder \<longrightarrow> \<not> (\<exists>q. q \<noteq> old \<and> ?N q \<noteq> None \<and> prefix old q)) \<and>
      stored E s' = ?N(new := ?N old, old := None)"
    using Rename_names [OF assms(1-3) l(2) assms(6,7)] by (metis (no_types, lifting))
  have "tree_ok E s'" if a: "?N (getDir ?w new) \<noteq> None" "?N old \<noteq> None"
    "?N old = Some AFolder \<longrightarrow> \<not> (\<exists>q. q \<noteq> old \<and> ?N q \<noteq> None \<and> prefix old q)"
    "stored E s' = ?N(new := ?N old, old := None)"
  proof -
    obtain k where k: "?N old = Some k" using a(2) by blast
    have "?N (getDir ?w new) = Some AFolder" using a(1) l(6) by (metis kind.exhaust not_Some_eq)
    moreover have "k = AFolder \<or> ?N new = Some AFile \<or> ?N new = None" "?N new = Some AFolder \<longrightarrow> k = AFolder"
      using l(7) k by (metis kind.exhaust not_Some_eq option.inject)+
    ultimately have 1: "\<forall>q. (?N(new \<mapsto> k)) q \<noteq> None \<longrightarrow>
        wf_path q \<and> (?N(new \<mapsto> k)) (getDir ?w q) = Some AFolder"
      using tree_add [OF tree_okD(2) [OF assms(4)] l(1)] by blast
    have "getDir ?w q \<noteq> old" if "?N q \<noteq> None" "q \<noteq> old" for q
      using that a(3) k tree_empty_folder [OF assms(4) _ that(2,1)] tree_file_leaf [OF assms(4) _ that(1)]
      by (metis kind.exhaust)
    then have "\<forall>q. q \<noteq> old \<longrightarrow> (?N(new \<mapsto> k)) q \<noteq> None \<longrightarrow> getDir ?w q \<noteq> old"
      using l(5) by (metis fun_upd_apply)
    note 2 = tree_remove [OF 1 this]
    have "(?N(new \<mapsto> k, old := None)) [slash] = Some AFolder"
      using l(3,4) tree_okD(1) [OF assms(4)] by simp
    then show ?thesis unfolding tree_ok_def a(4) k using 2 by (rule conjI)
  qed
  then show ?thesis using m n assms(4) tree_ok_cong by (metis outcome.sel(1))
qed

end
