(* ===== verification/Sync.thy ===== *)
theory Sync
  imports FileContent
begin

text \<open>
  The goroutines of \<open>fs.go\<close>: the download that follows an \<open>Open\<close>, the upload that follows a
  \<open>Release\<close>, and \<open>ApplyLiveTx\<close>, which patches an open file when another client has written
  it. Each is a \<open>task\<close>, a program counter with its local variables; a step of it
  (\<open>task_step\<close>) is what it does under one lock, so other calls may come in between, and
  \<open>run_task\<close> runs it to its end without any.

  The network is a parameter of each step: \<open>net_dl\<close> is the body of an attachment by its id,
  \<open>net_up\<close> the id \<open>Writer.SendData\<close> returns for a block, \<open>net_tx\<close> whether \<open>Writer.SendTx\<close>
  succeeds. A goroutine that panics takes the program down (\<open>Panics\<close>).
\<close>

record net =
  net_dl :: "string \<Rightarrow> bytes option"
  net_up :: "bytes \<Rightarrow> string option"
  net_tx :: "string \<Rightarrow> bool"

datatype task =
    Loading string "(string \<times> int) list"
  | Storing nat int bytes string "(string \<times> int) list"
  | Uploading nat string Tx "Tx option" "nat list"
  | Patching nat Tx "nat list"
  | Replacing nat Tx int bytes bytes "nat list"

section \<open>Download\<close>

text \<open>What \<open>getDataFile\<close> copies into a buffer of the given length.\<close>

definition getDataFile :: "net \<Rightarrow> string \<Rightarrow> nat \<Rightarrow> bytes option" where
  "getDataFile net fileID bufLen = map_option (take bufLen) (net_dl net fileID)"

text \<open>
  The local function \<open>dlID\<close>, before and after its download: it looks the file up and fetches
  the block (\<open>dlID_fetch\<close>), then writes it under the file's lock, whatever has happened to
  the path in between (\<open>dlID_store\<close>).
\<close>

definition dlID_fetch :: "net \<Rightarrow> string \<Rightarrow> string \<Rightarrow> 't Dsfs \<Rightarrow> (nat \<times> bytes) option" where
  "dlID_fetch net path fileID s = (case go_get (fs_open s) path of
     None \<Rightarrow> None
   | Some r \<Rightarrow> map_option (\<lambda>piece. (r, piece)) (getDataFile net fileID (nat FileBlockSize)))"

definition dlID_store :: "'t env \<Rightarrow> nat \<Rightarrow> int \<Rightarrow> bytes \<Rightarrow> 't Dsfs \<Rightarrow> ('t Dsfs, unit, job) outcome" where
  "dlID_store E r ofst piece s =
     (let file = file_at s r; end = add64 ofst (int (length piece)) in
      if fd_lock file \<noteq> Free then Blocks
      else (case WriteRange (env_cache E) (fd_cache file) ofst end piece of
        None \<Rightarrow> Panics (set_file s r (file\<lparr>fd_lock := WHeld\<rparr>))
      | Some (cache, n) \<Rightarrow>
          Ret (set_file s r (file\<lparr>fd_cache := cache, fd_load := addRange (fd_load file) ofst end\<rparr>)) () []))"

text \<open>The order of the blocks: the first, the last, then the rest.\<close>

definition load_order :: "nat \<Rightarrow> nat list" where
  "load_order n =
     (if n = 0 then [] else if n = 1 then [0] else 0 # (n - 1) # [1..<n - 1])"

definition load_plan :: "Tx \<Rightarrow> (string \<times> int) list" where
  "load_plan tx = map (\<lambda>i. (tx_FileIDs tx ! i, mul64 (int i) FileBlockSize))
     (load_order (length (tx_FileIDs tx)))"

section \<open>Upload\<close>

text \<open>The local function \<open>up\<close>: no transaction when sending the block failed.\<close>

definition up :: "'t env \<Rightarrow> net \<Rightarrow> nat \<Rightarrow> nat \<Rightarrow> string \<Rightarrow> string \<Rightarrow> Tx \<Rightarrow> 't Dsfs \<Rightarrow>
    ('t Dsfs, Tx option, job) outcome" where
  "up E net r idx fileID checksum tx s =
     (let file = file_at s r; ofst = mul64 (int idx) FileBlockSize; filesize = Size (fd_cache file) in
      if fd_lock file = WHeld then Blocks
      else if filesize < ofst then Ret s (Some tx) []
      else
        let end = (if filesize < add64 ofst FileBlockSize then filesize else add64 ofst FileBlockSize) in
        (case ReadRange (fd_cache file) ofst end (replicate (nat (end - ofst)) zero_byte) of
           None \<Rightarrow> Panics (set_file s r (file\<lparr>fd_lock := RHeld\<rparr>))
         | Some (cache, buffer, n) \<Rightarrow>
             let s' = set_file s r (file\<lparr>fd_cache := cache\<rparr>); newChecksum = env_sum E buffer in
             if checksum = newChecksum
             then Ret s' (Some (tx\<lparr>tx_Checksums := tx_Checksums tx @ [checksum],
                                   tx_FileIDs := tx_FileIDs tx @ [fileID]\<rparr>)) []
             else (case net_up net buffer of
                None \<Rightarrow> Ret s' None []
              | Some newID \<Rightarrow>
                  Ret s' (Some (tx\<lparr>tx_Checksums := tx_Checksums tx @ [newChecksum],
                                   tx_FileIDs := tx_FileIDs tx @ [newID]\<rparr>)) [])))"

text \<open>
  The id and checksum of a block in the old transaction; \<open>None\<close> when the old transaction has
  a checksum but no id for it, which panics.
\<close>

definition old_block :: "Tx option \<Rightarrow> nat \<Rightarrow> (string \<times> string) option" where
  "old_block old i = (case old of
     None \<Rightarrow> Some ([], [])
   | Some oldTx \<Rightarrow>
       if i < length (tx_Checksums oldTx) then
         (if i < length (tx_FileIDs oldTx) then Some (tx_FileIDs oldTx ! i, tx_Checksums oldTx ! i)
          else None)
       else Some ([], []))"

text \<open>The number of blocks of a file (\<open>end\<close> in the source; sizes are not negative).\<close>

definition block_count :: "int \<Rightarrow> nat" where
  "block_count filesize =
     nat (filesize div FileBlockSize) + (if filesize mod FileBlockSize \<noteq> 0 then 1 else 0)"

text \<open>The deferred assignments of the goroutine, however it ends.\<close>

definition upload_done :: "nat \<Rightarrow> 't Dsfs \<Rightarrow> 't Dsfs" where
  "upload_done r s = set_file s r ((file_at s r)\<lparr>fd_dirty := False, fd_syncing := False\<rparr>)"

definition upload_finish :: "'t env \<Rightarrow> net \<Rightarrow> nat \<Rightarrow> string \<Rightarrow> Tx \<Rightarrow> 't Dsfs \<Rightarrow>
    ('t Dsfs, task option, job) outcome" where
  "upload_finish E net r path tx s =
     (let b = env_marshal E tx in
      if MaxDiscordFileSize < int (length b) then Ret (upload_done r s) None []
      else if \<not> net_tx net b then Ret (upload_done r s) None []
      else if fs_locked s then Blocks
      else Ret (upload_done r (s\<lparr>fs_db := db_Insert (env_db E) (fs_db s) path tx\<rparr>)) None [])"

section \<open>Live transactions\<close>

text \<open>\<open>ApplyLiveTx\<close> up to its loop: store the transaction, cut or grow the open file.\<close>

definition ApplyLiveTx_start ::
    "'t env \<Rightarrow> string \<Rightarrow> Tx \<Rightarrow> 't Dsfs \<Rightarrow> ('t Dsfs, task option, job) outcome" where
  "ApplyLiveTx_start E path tx s =
     (if fs_locked s then Blocks
      else
        let s1 = s\<lparr>fs_db := db_Insert (env_db E) (fs_db s) path tx\<rparr> in
        (case go_get (fs_open s1) (tx_Path tx) of
           None \<Rightarrow> Ret s1 None []
         | Some r \<Rightarrow>
             let file = file_at s1 r; filesize = Size (fd_cache file) in
             if fd_lock file \<noteq> Free then Blocks
             else (case (if tx_Size tx < filesize then truncate_load (fd_load file) (tx_Size tx)
                         else Some (fd_load file)) of
               None \<Rightarrow> Panics (set_file s1 r (file\<lparr>fd_lock := WHeld\<rparr>))
             | Some load \<Rightarrow>
                 (case Truncate (env_cache E) (fd_cache file) (tx_Size tx) of
                    None \<Rightarrow> Panics (set_file s1 r (file\<lparr>fd_load := load, fd_lock := WHeld\<rparr>))
                  | Some cache \<Rightarrow>
                      Ret (set_file s1 r (file\<lparr>fd_load := load, fd_cache := cache\<rparr>))
                          (Some (Patching r tx [0..<length (tx_Checksums tx)])) []))))"

text \<open>
  One turn of its loop: read a block and compare its checksum. \<open>None\<close> ends the loop with an
  error; otherwise the new state, and the bytes to replace when the block differs: the
  buffer and what was downloaded into it.
\<close>

definition patch_check :: "'t env \<Rightarrow> net \<Rightarrow> nat \<Rightarrow> Tx \<Rightarrow> nat \<Rightarrow> 't Dsfs \<Rightarrow>
    ('t Dsfs, (int \<times> bytes \<times> bytes) option option, job) outcome" where
  "patch_check E net r tx idx s =
     (let file = file_at s r; ofst = mul64 (int idx) FileBlockSize; filesize = Size (fd_cache file) in
      if fd_lock file \<noteq> Free then Blocks
      else if filesize \<le> ofst then Ret s None []
      else
        let end = (if filesize < add64 ofst FileBlockSize then filesize else add64 ofst FileBlockSize) in
        (case ReadRange (fd_cache file) ofst end (replicate (nat (end - ofst)) zero_byte) of
           None \<Rightarrow> Panics (set_file s r (file\<lparr>fd_lock := WHeld\<rparr>))
         | Some (cache, buffer, k) \<Rightarrow>
             let s' = set_file s r (file\<lparr>fd_cache := cache\<rparr>) in
             if tx_Checksums tx ! idx = env_sum E buffer then Ret s' (Some None) []
             else if length (tx_FileIDs tx) \<le> idx then Panics s'
             else (case getDataFile net (tx_FileIDs tx ! idx) (length buffer) of
                None \<Rightarrow> Ret s' None []
              | Some piece \<Rightarrow> Ret s' (Some (Some (ofst, go_copy buffer piece, piece))) [])))"

definition patch_store ::
    "'t env \<Rightarrow> nat \<Rightarrow> int \<Rightarrow> bytes \<Rightarrow> bytes \<Rightarrow> 't Dsfs \<Rightarrow> ('t Dsfs, unit, job) outcome" where
  "patch_store E r ofst buffer piece s =
     (let file = file_at s r; ofstn = add64 ofst (int (length piece)) in
      if fd_lock file \<noteq> Free then Blocks
      else (case WriteRange (env_cache E) (fd_cache file) ofst ofstn buffer of
        None \<Rightarrow> Panics (set_file s r (file\<lparr>fd_lock := WHeld\<rparr>))
      | Some (cache, m) \<Rightarrow>
          let (load, ready) = isReady (env_sort E) (fd_load file) ofst ofstn;
              load' = (if ready then load else addRange load ofst ofstn)
          in Ret (set_file s r (file\<lparr>fd_cache := cache, fd_load := load'\<rparr>)) () []))"

text \<open>A live delete (\<open>applyMessageTxs\<close>).\<close>

definition live_delete :: "'t env \<Rightarrow> string \<Rightarrow> 't Dsfs \<Rightarrow> ('t Dsfs, unit, job) outcome" where
  "live_delete E path s =
     (if fs_locked s then Blocks
      else Ret (s\<lparr>fs_db := db_Delete (env_db E) (fs_db s) path, fs_open := go_del (fs_open s) path\<rparr>) () [])"

section \<open>Steps\<close>

text \<open>The start of a goroutine that works on a file; the others only talk to the writer.\<close>

definition start_job :: "job \<Rightarrow> 't Dsfs \<Rightarrow> 't Dsfs \<times> task option" where
  "start_job j s = (case j of
     LoadFile path tx \<Rightarrow> (s, Some (Loading path (load_plan tx)))
   | Upload r path tx old \<Rightarrow>
       let file = file_at s r in
       if fd_syncing file then (s, None)
       else (set_file s r (file\<lparr>fd_syncing := True\<rparr>),
             Some (Uploading r path tx old [0..<block_count (Size (fd_cache file))]))
   | _ \<Rightarrow> (s, None))"

fun task_step :: "'t env \<Rightarrow> net \<Rightarrow> task \<Rightarrow> 't Dsfs \<Rightarrow> ('t Dsfs, task option, job) outcome" where
  "task_step E net (Loading path []) s = Ret s None []"
| "task_step E net (Loading path ((fileID, ofst) # plan)) s = (case dlID_fetch net path fileID s of
     None \<Rightarrow> Ret s None []
   | Some (r, piece) \<Rightarrow> Ret s (Some (Storing r ofst piece path plan)) [])"
| "task_step E net (Storing r ofst piece path plan) s = (case dlID_store E r ofst piece s of
     Ret s' u js \<Rightarrow> Ret s' (Some (Loading path plan)) []
   | Panics s' \<Rightarrow> Panics s'
   | Blocks \<Rightarrow> Blocks)"
| "task_step E net (Uploading r path tx old []) s = upload_finish E net r path tx s"
| "task_step E net (Uploading r path tx old (i # is)) s = (case old_block old i of
     None \<Rightarrow> Panics s
   | Some (fileID, checksum) \<Rightarrow> (case up E net r i fileID checksum tx s of
        Ret s' None js \<Rightarrow> Ret (upload_done r s') None []
      | Ret s' (Some tx') js \<Rightarrow> Ret s' (Some (Uploading r path tx' old is)) []
      | Panics s' \<Rightarrow> Panics s'
      | Blocks \<Rightarrow> Blocks))"
| "task_step E net (Patching r tx []) s = Ret s None []"
| "task_step E net (Patching r tx (i # is)) s = (case patch_check E net r tx i s of
     Ret s' None js \<Rightarrow> Ret s' None []
   | Ret s' (Some None) js \<Rightarrow> Ret s' (Some (Patching r tx is)) []
   | Ret s' (Some (Some (ofst, buffer, piece))) js \<Rightarrow> Ret s' (Some (Replacing r tx ofst buffer piece is)) []
   | Panics s' \<Rightarrow> Panics s'
   | Blocks \<Rightarrow> Blocks)"
| "task_step E net (Replacing r tx ofst buffer piece is) s = (case patch_store E r ofst buffer piece s of
     Ret s' u js \<Rightarrow> Ret s' (Some (Patching r tx is)) []
   | Panics s' \<Rightarrow> Panics s'
   | Blocks \<Rightarrow> Blocks)"

text \<open>A bound on the steps a task still takes.\<close>

fun task_left :: "task \<Rightarrow> nat" where
  "task_left (Loading path plan) = 2 * length plan"
| "task_left (Storing r ofst piece path plan) = 2 * length plan + 1"
| "task_left (Uploading r path tx old is) = length is"
| "task_left (Patching r tx is) = 2 * length is"
| "task_left (Replacing r tx ofst buffer piece is) = 2 * length is + 1"

lemma task_step_less:
  "task_step E net t s = Ret s' (Some t') js \<Longrightarrow> task_left t' < task_left t"
  by (cases "(E, net, t, s)" rule: task_step.cases)
    (auto simp: upload_finish_def Let_def split: outcome.splits option.splits prod.splits if_splits)

function run_task :: "'t env \<Rightarrow> net \<Rightarrow> task \<Rightarrow> 't Dsfs \<Rightarrow> ('t Dsfs, unit, job) outcome" where
  "run_task E net t s = (case task_step E net t s of
     Ret s' None js \<Rightarrow> Ret s' () []
   | Ret s' (Some t') js \<Rightarrow> run_task E net t' s'
   | Panics s' \<Rightarrow> Panics s'
   | Blocks \<Rightarrow> Blocks)"
  by pat_completeness auto
termination
  by (relation "measure (\<lambda>(E, net, t, s). task_left t)") (auto dest: task_step_less)

declare run_task.simps [simp del]

end
