(* ===== verification/BlockTransfer.thy ===== *)
theory BlockTransfer
  imports Sync
begin

text \<open>
  What the goroutines achieve when they run undisturbed: a download makes the content of
  the open file the one its blocks were cut from, an upload stores a transaction that
  names a block for each part of the content, reusing the blocks whose checksum matches.
\<close>

section \<open>Blocks\<close>

definition block_len :: nat where
  "block_len = nat FileBlockSize"

definition block :: "bytes \<Rightarrow> nat \<Rightarrow> bytes" where
  "block b i = take block_len (drop (i * block_len) b)"

definition n_blocks :: "bytes \<Rightarrow> nat" where
  "n_blocks b = block_count (int (length b))"

lemma block_len_pos [simp]: "0 < block_len" and FileBlockSize_len: "FileBlockSize = int block_len"
  by (simp_all add: block_len_def FileBlockSize_def)

lemma block_count_nat: "block_count (int n) = n div block_len + (if n mod block_len \<noteq> 0 then 1 else 0)"
  unfolding block_count_def FileBlockSize_len
  by (simp add: zdiv_int [symmetric] zmod_int [symmetric] del: of_nat_eq_0_iff)

lemma less_n_blocks: "i < n_blocks b \<longleftrightarrow> i * block_len < length b"
proof -
  let ?n = "length b" and ?B = block_len
  have n: "?n = (?n div ?B) * ?B + ?n mod ?B" by simp
  show ?thesis
  proof (cases "?n mod ?B = 0")
    case True
    then have "i * ?B < ?n \<longleftrightarrow> i * ?B < (?n div ?B) * ?B" using n by simp
    also have "\<dots> \<longleftrightarrow> i < ?n div ?B" by (simp only: mult_less_cancel2 block_len_pos simp_thms)
    finally show ?thesis using True by (simp add: n_blocks_def block_count_nat)
  next
    case False
    have "i \<le> ?n div ?B \<longleftrightarrow> i * ?B \<le> ?n"
      by (metis block_len_pos less_eq_div_iff_mult_less_eq)
    moreover have "i * ?B \<noteq> ?n" using False by (metis mod_mult_self2_is_0)
    ultimately show ?thesis using False by (auto simp: n_blocks_def block_count_nat less_Suc_eq_le)
  qed
qed

lemma block_of: "x < length b \<Longrightarrow> x div block_len < n_blocks b"
  by (simp add: less_n_blocks) (metis div_times_less_eq_dividend le_less_trans)

lemma length_block: "length (block b i) = min block_len (length b - i * block_len)"
  by (simp add: block_def)

lemma nth_block: "j < length (block b i) \<Longrightarrow> block b i ! j = b ! (i * block_len + j)"
  unfolding block_def by (simp, subst nth_drop) auto

lemma block_fits: "i < n_blocks b \<Longrightarrow> i * block_len + length (block b i) \<le> length b"
  by (simp add: length_block less_n_blocks)

lemma set_load_order: "set (load_order n) = {..<n}"
  by (auto simp: load_order_def)

lemma distinct_load_order: "distinct (load_order n)"
  by (auto simp: load_order_def)

text \<open>The offsets of the blocks of a file that fits an \<open>int64\<close>.\<close>

lemma block_offset:
  assumes "i < n_blocks b" "i64 (int (length b))"
  shows "mul64 (int i) FileBlockSize = int (i * block_len)"
    and "i64 (int (i * block_len))"
    and "int (i * block_len) + int (length (block b i)) \<le> int (length b)"
proof -
  have i: "i * block_len < length b" using assms(1) less_n_blocks by blast
  then have "int (i * block_len) \<le> int (length b)" by (simp only: of_nat_le_iff less_imp_le)
  then show i6: "i64 (int (i * block_len))" by (intro i64_between [OF _ _ assms(2)]) simp_all
  then show "mul64 (int i) FileBlockSize = int (i * block_len)"
    by (simp add: FileBlockSize_len mul64_id)
  show "int (i * block_len) + int (length (block b i)) \<le> int (length b)"
    using block_fits [OF assms(1)] by (metis of_nat_add of_nat_le_iff)
qed

text \<open>Writing a block of \<open>b\<close> where it belongs, and the positions of a block.\<close>

lemma in_block:
  assumes "x < length b"
  shows "i * block_len \<le> x \<and> x < i * block_len + length (block b i) \<longleftrightarrow> x div block_len = i"
proof -
  have "x div block_len = i \<longleftrightarrow> i \<le> x div block_len \<and> x div block_len < Suc i" by auto
  then have "x div block_len = i \<longleftrightarrow> i * block_len \<le> x \<and> x < i * block_len + block_len"
    by (simp add: less_eq_div_iff_mult_less_eq div_less_iff_less_mult add.commute)
  then show ?thesis using assms by (auto simp: length_block)
qed

lemma nth_in_block:
  assumes "x < length b" "x div block_len = i"
  shows "block b i ! (x - i * block_len) = b ! x"
proof -
  have "i * block_len \<le> x" "x - i * block_len < length (block b i)"
    using in_block [OF assms(1), of i] assms(2) by linarith+
  then show ?thesis using nth_block [of "x - i * block_len" b i] by simp
qed

lemma put_block:
  assumes "i < n_blocks b" "length c = length b"
  defines "c' \<equiv> put_slice c (i * block_len) (i * block_len + length (block b i)) (block b i)"
  shows "length c' = length b" and "x < length b \<Longrightarrow> c' ! x = (if x div block_len = i then b ! x else c ! x)"
proof -
  show "length c' = length b"
    using block_fits [OF assms(1)] assms(2) unfolding c'_def by (subst length_put_slice) simp_all
  show "c' ! x = (if x div block_len = i then b ! x else c ! x)" if x: "x < length b"
    using in_block [OF x, of i] x block_fits [OF assms(1)] assms(2) nth_in_block [OF x, of i]
    unfolding c'_def by (subst nth_put_slice) auto
qed

lemma int_interval:
  fixes a n m :: nat
  assumes "a + n \<le> m"
  shows "x \<in> {int a..<int a + int n} \<longleftrightarrow> 0 \<le> x \<and> x < int m \<and> a \<le> nat x \<and> nat x < a + n"
  using assms by auto

lemma block_interval:
  assumes "i < n_blocks b"
  shows "{int (i * block_len)..<int (i * block_len) + int (length (block b i))} =
    {x. 0 \<le> x \<and> x < int (length b) \<and> nat x div block_len = i}"
proof (rule set_eqI)
  fix x :: int
  have "0 \<le> x \<Longrightarrow> x < int (length b) \<Longrightarrow> nat x < length b" by (simp add: nat_less_iff)
  then show "x \<in> {int (i * block_len)..<int (i * block_len) + int (length (block b i))} \<longleftrightarrow>
      x \<in> {x. 0 \<le> x \<and> x < int (length b) \<and> nat x div block_len = i}"
    unfolding int_interval [OF block_fits [OF assms]] using in_block [of "nat x" b i] by blast
qed

section \<open>Download\<close>

lemma dlID_store_view:
  assumes "fs_ok E s" "usable s p" "go_get (fs_open s) p = Some r" "content s p = Some c"
    and "0 \<le> ofst" "ofst + int (length piece) \<le> int (length c)"
  shows "\<exists>s'. dlID_store E r ofst piece s = Ret s' () [] \<and> fs_ok E s' \<and> usable s' p \<and>
    fs_open s' = fs_open s \<and> fs_db s' = fs_db s \<and>
    content s' = (content s)(p \<mapsto> put_slice c (nat ofst) (nat ofst + length piece) piece) \<and>
    ready s' = (ready s)(p := ready s p \<union> {ofst..<ofst + int (length piece)})"
proof -
  let ?f = "file_at s r" and ?e = "ofst + int (length piece)"
  have r: "\<not> fs_locked s" "fd_lock ?f = Free" using assms(2,3) by (simp_all add: usable_def)
  have f: "cache_ok (env_cache E) (fd_cache ?f)" "load_ok (fd_load ?f)" and c: "cache_bytes (fd_cache ?f) = c"
    using fs_okD(5) [OF assms(1,3)] assms(4) contentE(1) [OF assms(3)]
    by (simp_all add: file_ok_def file_bytes_def)
  then have sz: "Size (fd_cache ?f) = int (length c)" "i64 (int (length c))" using Size_ok [OF f(1)] by simp_all
  have i: "i64 ?e" "i64 ofst"
    using assms(5,6) sz(2) by (auto intro: i64_between [OF _ _ sz(2)])
  then have e: "add64 ofst (int (length piece)) = ?e" by (simp add: i64_simps)
  have ne: "nat ?e = nat ofst + length piece" using assms(5) by (simp add: nat_add_distrib)
  obtain c' where c': "WriteRange (env_cache E) (fd_cache ?f) ofst ?e piece = Some (c', int (length piece))"
    "cache_ok (env_cache E) c'" "cache_bytes c' = put_slice c (nat ofst) (nat ofst + length piece) piece"
    using WriteRange_ok [OF f(1) assms(5) refl, of piece] assms(6) sz(1) c ne by metis
  let ?s' = "set_file s r (?f\<lparr>fd_cache := c', fd_load := addRange (fd_load ?f) ofst ?e\<rparr>)"
  have "dlID_store E r ofst piece s = Ret ?s' () []"
    using r c'(1) e by (simp add: dlID_store_def Let_def)
  moreover have "fs_ok E ?s'" using assms(1,5) f i c'(2) by (simp add: fs_ok_set_file file_ok_def)
  ultimately show ?thesis
    using r c'(3) fs_okD(4) [OF assms(1,3)] contentE(2) [OF assms(3)] assms(3)
    by (simp add: view_set_file [OF assms(1,3)] fun_eq_iff file_bytes_def file_ready_def usable_def
        file_at_set_file)
qed

lemma fetch_block:
  assumes "go_get (fs_open s) p = Some r" "net_dl net fileID = Some (block b i)"
  shows "dlID_fetch net p fileID s = Some (r, block b i)"
  using assms by (simp add: dlID_fetch_def getDataFile_def block_def block_len_def)

text \<open>A list of blocks, in any order: those positions then hold the bytes of \<open>b\<close>.\<close>

lemma run_loading:
  assumes "fs_ok E s" "usable s p" "go_get (fs_open s) p = Some r" "content s p = Some c"
    and "length c = length b" "\<forall>i \<in> set is. i < n_blocks b \<and> net_dl net (ids ! i) = Some (block b i)"
  shows "\<exists>s' c'. run_task E net (Loading p (map (\<lambda>i. (ids ! i, mul64 (int i) FileBlockSize)) is)) s = Ret s' () [] \<and>
    fs_ok E s' \<and> usable s' p \<and> fs_db s' = fs_db s \<and> fs_open s' = fs_open s \<and>
    content s' = (content s)(p \<mapsto> c') \<and> length c' = length b \<and>
    (\<forall>x < length b. c' ! x = (if x div block_len \<in> set is then b ! x else c ! x)) \<and>
    ready s' = (ready s)(p := ready s p \<union> {x. 0 \<le> x \<and> x < int (length b) \<and> nat x div block_len \<in> set is})"
  using assms
proof (induction "is" arbitrary: s c)
  case Nil
  have "run_task E net (Loading p []) s = Ret s () []" by (simp add: run_task.simps)
  then show ?case using Nil by (intro exI [of _ s] exI [of _ c]) auto
next
  case (Cons i "is")
  let ?B = block_len and ?t = "Loading p (map (\<lambda>i. (ids ! i, mul64 (int i) FileBlockSize)) is)"
  have "i64 (int (length c))"
    using fs_okD(5) [OF Cons.prems(1,3)] Cons.prems(4) contentE(1) [OF Cons.prems(3)] Size_ok
    by (metis file_bytes_def file_ok_def option.inject)
  then have i64b: "i64 (int (length b))" using Cons.prems(5) by simp
  have i: "i < n_blocks b" "net_dl net (ids ! i) = Some (block b i)" using Cons.prems(6) by simp_all
  note bo = block_offset [OF i(1) i64b]
  have fits: "int (i * ?B) + int (length (block b i)) \<le> int (length c)" using bo(3) Cons.prems(5) by simp
  define c1 where "c1 = put_slice c (i * ?B) (i * ?B + length (block b i)) (block b i)"
  obtain s1 where s1: "dlID_store E r (int (i * ?B)) (block b i) s = Ret s1 () []" "fs_ok E s1" "usable s1 p"
    "fs_open s1 = fs_open s" "fs_db s1 = fs_db s" "content s1 = (content s)(p \<mapsto> c1)"
    "ready s1 = (ready s)(p := ready s p \<union> {int (i * ?B)..<int (i * ?B) + int (length (block b i))})"
    using dlID_store_view [OF Cons.prems(1-4) _ fits] unfolding c1_def nat_int by auto
  have len: "length c1 = length b" unfolding c1_def by (rule put_block(1) [OF i(1) Cons.prems(5)])
  have run: "run_task E net (Loading p (map (\<lambda>i. (ids ! i, mul64 (int i) FileBlockSize)) (i # is))) s =
      run_task E net ?t s1"
    using fetch_block [of s p r net "ids ! i" b i] Cons.prems(3) i(2) s1(1) bo(1)
    by (subst run_task.simps, simp, subst run_task.simps, simp)
  have "content s1 p = Some c1" "go_get (fs_open s1) p = Some r" using s1(4,6) Cons.prems(3) by simp_all
  moreover have "\<forall>i \<in> set is. i < n_blocks b \<and> net_dl net (ids ! i) = Some (block b i)"
    using Cons.prems(6) by simp
  ultimately obtain s' c' where s': "run_task E net ?t s1 = Ret s' () []" "fs_ok E s'" "usable s' p"
    "fs_db s' = fs_db s1" "fs_open s' = fs_open s1" "content s' = (content s1)(p \<mapsto> c')" "length c' = length b"
    "\<forall>x < length b. c' ! x = (if x div ?B \<in> set is then b ! x else c1 ! x)"
    "ready s' = (ready s1)(p := ready s1 p \<union> {x. 0 \<le> x \<and> x < int (length b) \<and> nat x div ?B \<in> set is})"
    using Cons.IH [OF s1(2,3) _ _ len] by blast
  have "c1 ! x = (if x div ?B = i then b ! x else c ! x)" if "x < length b" for x
    unfolding c1_def using that by (rule put_block(2) [OF i(1) Cons.prems(5)])
  then have "\<forall>x < length b. c' ! x = (if x div ?B \<in> set (i # is) then b ! x else c ! x)"
    using s'(8) by auto
  then show ?case
    unfolding run using s' s1 block_interval [OF i(1)]
    by (intro exI [of _ s'] exI [of _ c']) (auto simp: fun_eq_iff)
qed

text \<open>All blocks: the content is \<open>b\<close>, and all of it is ready.\<close>

lemma run_load_plan:
  assumes "fs_ok E s" "usable s p" "content s p = Some c" "length c = length b"
    and "length (tx_FileIDs tx) = n_blocks b"
    and "\<forall>i < n_blocks b. net_dl net (tx_FileIDs tx ! i) = Some (block b i)"
  shows "\<exists>s'. run_task E net (Loading p (load_plan tx)) s = Ret s' () [] \<and> fs_ok E s' \<and> usable s' p \<and>
    fs_db s' = fs_db s \<and> content s' = (content s)(p \<mapsto> b) \<and>
    ready s' = (ready s)(p := ready s p \<union> {0..<int (length b)})"
proof -
  obtain r where r: "go_get (fs_open s) p = Some r" using assms(3) by (auto simp: content_def)
  let ?is = "load_order (n_blocks b)"
  have "\<forall>i \<in> set ?is. i < n_blocks b \<and> net_dl net (tx_FileIDs tx ! i) = Some (block b i)"
    using assms(6) by (simp add: set_load_order)
  from run_loading [OF assms(1,2) r assms(3,4) this]
  obtain s' c' where s': "run_task E net (Loading p (load_plan tx)) s = Ret s' () []" "fs_ok E s'"
    "usable s' p" "fs_db s' = fs_db s" "content s' = (content s)(p \<mapsto> c')" "length c' = length b"
    "\<forall>x < length b. c' ! x = (if x div block_len \<in> set ?is then b ! x else c ! x)"
    "ready s' = (ready s)(p := ready s p \<union> {x. 0 \<le> x \<and> x < int (length b) \<and> nat x div block_len \<in> set ?is})"
    unfolding load_plan_def assms(5) by blast
  have all: "x div block_len \<in> set ?is" if "x < length b" for x
    using block_of [OF that] by (simp add: set_load_order)
  then have "c' = b" using s'(6,7) by (intro nth_equalityI) auto
  moreover have "{x. 0 \<le> x \<and> x < int (length b) \<and> nat x div block_len \<in> set ?is} = {0..<int (length b)}"
    using all by (auto simp: nat_less_iff)
  ultimately show ?thesis using s' by metis
qed

section \<open>Upload\<close>

text \<open>Below this size the end of a block, \<open>ofst + FileBlockSize\<close>, does not overflow.\<close>

definition uploadable :: "bytes \<Rightarrow> bool" where
  "uploadable b \<longleftrightarrow> length b < 9223372036846387689"

lemma block_end:
  assumes "i < n_blocks b" "i64 (int (length b))" "uploadable b"
  shows "(if int (length b) < add64 (int (i * block_len)) FileBlockSize then int (length b)
      else add64 (int (i * block_len)) FileBlockSize) = int (i * block_len + length (block b i))"
proof -
  have i: "i * block_len < length b" using assms(1) less_n_blocks by blast
  have "int (i * block_len) < 9223372036846387689" using i assms(3) by (simp only: of_nat_less_numeral_iff uploadable_def)
  then have "i64 (int (i * block_len) + FileBlockSize)"
    unfolding i64_def FileBlockSize_def by linarith
  then have "add64 (int (i * block_len)) FileBlockSize = int (i * block_len + block_len)"
    by (simp only: add64_id FileBlockSize_len of_nat_add)
  then show ?thesis using i by (simp add: length_block min_def del: of_nat_add of_nat_mult) linarith
qed

text \<open>What \<open>up\<close> adds to the transaction for the block \<open>i\<close>.\<close>

definition up_result :: "'t env \<Rightarrow> net \<Rightarrow> string \<times> string \<Rightarrow> bytes \<Rightarrow> string option" where
  "up_result E net prev blk = (if snd prev = env_sum E blk then Some (fst prev) else net_up net blk)"

definition add_block :: "Tx \<Rightarrow> string \<Rightarrow> string \<Rightarrow> Tx" where
  "add_block tx fid csum = tx\<lparr>tx_Checksums := tx_Checksums tx @ [csum], tx_FileIDs := tx_FileIDs tx @ [fid]\<rparr>"

text \<open>A file of the heap, seen through its pointer: an upload holds no path.\<close>

definition holds :: "'t env \<Rightarrow> 't Dsfs \<Rightarrow> nat \<Rightarrow> bytes \<Rightarrow> bool" where
  "holds E s r b \<longleftrightarrow> r < length (fs_heap s) \<and> file_ok E (file_at s r) \<and> fd_lock (file_at s r) = Free \<and>
     file_bytes (file_at s r) = b"

lemma up_effect:
  assumes "holds E s r b" "i < n_blocks b" "uploadable b"
  shows "\<exists>c. let s' = set_file s r ((file_at s r)\<lparr>fd_cache := c\<rparr>) in
    up E net r i (fst prev) (snd prev) tx s =
      Ret s' (map_option (\<lambda>fid. add_block tx fid (env_sum E (block b i))) (up_result E net prev (block b i))) [] \<and>
    holds E s' r b"
proof -
  let ?f = "file_at s r" and ?o = "i * block_len"
  let ?n = "length (block b i)"
  have f: "cache_ok (env_cache E) (fd_cache ?f)" "cache_bytes (fd_cache ?f) = b" "fd_lock ?f = Free"
    "r < length (fs_heap s)" "load_ok (fd_load ?f)"
    using assms(1) by (simp_all add: holds_def file_ok_def file_bytes_def)
  have sz: "Size (fd_cache ?f) = int (length b)" "i64 (int (length b))" using Size_ok [OF f(1)] f(2) by simp_all
  note o = block_offset [OF assms(2) sz(2)] block_end [OF assms(2) sz(2) assms(3)]
  have i: "?o < length b" using assms(2) less_n_blocks by blast
  have nat_end: "nat (int (?o + ?n) - int ?o) = ?n" by simp
  have sub: "sub_slice b ?o (?o + ?n) = block b i" by (simp add: sub_slice_def block_def min_def)
  obtain c where c: "ReadRange (fd_cache ?f) (int ?o) (int (?o + ?n)) (replicate ?n zero_byte) =
      Some (c, block b i, int ?n)" "cache_ok (env_cache E) c" "cache_bytes c = b"
    using anycache.read_total [OF f(1), of "int ?o" "int (?o + ?n)" "replicate ?n zero_byte"]
      block_fits [OF assms(2)] sz(1)
    by (auto simp: f(2) sub go_copy_same_length simp del: of_nat_mult of_nat_add)
  have "up E net r i (fst prev) (snd prev) tx s =
      Ret (set_file s r (?f\<lparr>fd_cache := c\<rparr>))
        (map_option (\<lambda>fid. add_block tx fid (env_sum E (block b i))) (up_result E net prev (block b i))) []"
    unfolding up_def Let_def sz(1) o(1) o(4) nat_end
    using f(3) i c(1)
    by (simp add: up_result_def add_block_def del: of_nat_mult of_nat_add split: option.splits)
  then show ?thesis
    using f c(2,3) by (intro exI [of _ c]) (simp add: Let_def holds_def file_at_set_file file_ok_def file_bytes_def)
qed

text \<open>The ids of the blocks, unless sending one of them fails.\<close>

fun upload_ids :: "'t env \<Rightarrow> net \<Rightarrow> Tx option \<Rightarrow> bytes \<Rightarrow> nat list \<Rightarrow> string list option" where
  "upload_ids E net old b [] = Some []"
| "upload_ids E net old b (i # is) = (case old_block old i of
     None \<Rightarrow> None
   | Some prev \<Rightarrow> (case up_result E net prev (block b i) of
        None \<Rightarrow> None
      | Some fid \<Rightarrow> map_option ((#) fid) (upload_ids E net old b is)))"

lemma upload_ids_length: "upload_ids E net old b is = Some fids \<Longrightarrow> length fids = length is"
  by (induction "is" arbitrary: fids) (auto split: option.splits)

text \<open>An old transaction that has an id for each checksum.\<close>

definition ids_ok :: "Tx option \<Rightarrow> bool" where
  "ids_ok old \<longleftrightarrow> (case old of None \<Rightarrow> True | Some tx \<Rightarrow> length (tx_Checksums tx) \<le> length (tx_FileIDs tx))"

lemma old_block_Some: "ids_ok old \<Longrightarrow> \<exists>prev. old_block old i = Some prev"
  by (auto simp: ids_ok_def old_block_def split: option.splits)

definition add_blocks :: "Tx \<Rightarrow> string list \<Rightarrow> string list \<Rightarrow> Tx" where
  "add_blocks tx fids csums =
     tx\<lparr>tx_Checksums := tx_Checksums tx @ csums, tx_FileIDs := tx_FileIDs tx @ fids\<rparr>"

definition end_task :: "('t Dsfs, task option, job) outcome \<Rightarrow> ('t Dsfs, unit, job) outcome" where
  "end_task out = (case out of Ret s r js \<Rightarrow> Ret s () [] | Panics s \<Rightarrow> Panics s | Blocks \<Rightarrow> Blocks)"

lemma set_file_twice: "r < length (fs_heap s) \<Longrightarrow> set_file (set_file s r f) r g = set_file s r g"
  by (simp add: set_file_def)

lemma run_uploading:
  assumes "holds E s r b" "\<forall>i \<in> set is. i < n_blocks b" "uploadable b" "ids_ok old"
  shows "\<exists>c. let s' = set_file s r ((file_at s r)\<lparr>fd_cache := c\<rparr>) in holds E s' r b \<and>
    run_task E net (Uploading r p tx old is) s = (case upload_ids E net old b is of
        None \<Rightarrow> Ret (upload_done r s') () []
      | Some fids \<Rightarrow> end_task (upload_finish E net r p
          (add_blocks tx fids (map (\<lambda>i. env_sum E (block b i)) is)) s'))"
  using assms
proof (induction "is" arbitrary: s tx)
  case Nil
  have "task_step E net (Uploading r p tx old []) s = Ret s1 (Some t) js \<Longrightarrow> False" for s1 t js
    by (auto simp: upload_finish_def Let_def split: if_splits)
  then have "run_task E net (Uploading r p tx old []) s = end_task (upload_finish E net r p tx s)"
    by (subst run_task.simps) (auto simp: end_task_def split: outcome.splits option.splits)
  moreover have "set_file s r ((file_at s r)\<lparr>fd_cache := fd_cache (file_at s r)\<rparr>) = s"
    using Nil.prems(1) by (simp add: set_file_def file_at_def holds_def)
  ultimately show ?case
    using Nil.prems(1)
    by (intro exI [of _ "fd_cache (file_at s r)"]) (simp add: add_blocks_def Let_def)
next
  case (Cons i "is")
  obtain prev where prev: "old_block old i = Some prev" using old_block_Some [OF Cons.prems(4)] by blast
  have i: "i < n_blocks b" using Cons.prems(2) by simp
  obtain c1 where c1: "up E net r i (fst prev) (snd prev) tx s = Ret (set_file s r ((file_at s r)\<lparr>fd_cache := c1\<rparr>))
      (map_option (\<lambda>fid. add_block tx fid (env_sum E (block b i))) (up_result E net prev (block b i))) []"
    "holds E (set_file s r ((file_at s r)\<lparr>fd_cache := c1\<rparr>)) r b"
    using up_effect [OF Cons.prems(1) i Cons.prems(3), of net prev tx] by (auto simp: Let_def)
  let ?s1 = "set_file s r ((file_at s r)\<lparr>fd_cache := c1\<rparr>)"
  have step: "task_step E net (Uploading r p tx old (i # is)) s = (case up_result E net prev (block b i) of
      None \<Rightarrow> Ret (upload_done r ?s1) None []
    | Some fid \<Rightarrow> Ret ?s1 (Some (Uploading r p (add_block tx fid (env_sum E (block b i))) old is)) [])"
    using c1(1) by (cases prev) (simp add: prev split: option.splits)
  show ?case
  proof (cases "up_result E net prev (block b i)")
    case None
    then show ?thesis
      using c1(2) by (intro exI [of _ c1], subst run_task.simps) (simp add: Let_def prev step del: task_step.simps)
  next
    case (Some fid)
    let ?tx = "add_block tx fid (env_sum E (block b i))"
    have "\<forall>i \<in> set is. i < n_blocks b" using Cons.prems(2) by simp
    then obtain c where c: "holds E (set_file ?s1 r ((file_at ?s1 r)\<lparr>fd_cache := c\<rparr>)) r b"
      "run_task E net (Uploading r p ?tx old is) ?s1 = (case upload_ids E net old b is of
          None \<Rightarrow> Ret (upload_done r (set_file ?s1 r ((file_at ?s1 r)\<lparr>fd_cache := c\<rparr>))) () []
        | Some fids \<Rightarrow> end_task (upload_finish E net r p
            (add_blocks ?tx fids (map (\<lambda>i. env_sum E (block b i)) is))
            (set_file ?s1 r ((file_at ?s1 r)\<lparr>fd_cache := c\<rparr>))))"
      using Cons.IH [OF c1(2) _ Cons.prems(3,4), of ?tx] by (auto simp: Let_def)
    have same: "set_file ?s1 r ((file_at ?s1 r)\<lparr>fd_cache := c\<rparr>) = set_file s r ((file_at s r)\<lparr>fd_cache := c\<rparr>)"
      using Cons.prems(1) by (simp add: holds_def set_file_twice file_at_set_file)
    have "add_blocks ?tx fids (map (\<lambda>i. env_sum E (block b i)) is) =
        add_blocks tx (fid # fids) (map (\<lambda>i. env_sum E (block b i)) (i # is))" for fids
      by (simp add: add_blocks_def add_block_def)
    then show ?thesis
      using c unfolding same
      by (intro exI [of _ c], subst run_task.simps)
        (simp add: Let_def prev step Some del: task_step.simps split: option.splits)
  qed
qed

section \<open>A release and its upload\<close>

definition dirty :: "'t Dsfs \<Rightarrow> string \<Rightarrow> bool" where
  "dirty s p = (case go_get (fs_open s) p of None \<Rightarrow> False | Some r \<Rightarrow> fd_dirty (file_at s r))"

definition syncing :: "'t Dsfs \<Rightarrow> string \<Rightarrow> bool" where
  "syncing s p = (case go_get (fs_open s) p of None \<Rightarrow> False | Some r \<Rightarrow> fd_syncing (file_at s r))"

text \<open>The transaction of an upload of \<open>b\<close> whose blocks got the ids \<open>fids\<close>.\<close>

definition uploadedTx :: "'t env \<Rightarrow> string \<Rightarrow> FileData \<Rightarrow> bytes \<Rightarrow> string list \<Rightarrow> Tx" where
  "uploadedTx E p f b fids = (releaseTx p f)\<lparr>tx_FileIDs := fids,
     tx_Checksums := map (\<lambda>i. env_sum E (block b i)) [0..<n_blocks b]\<rparr>"

text \<open>Start the goroutine and run it to its end.\<close>

definition run_job :: "'t env \<Rightarrow> net \<Rightarrow> job \<Rightarrow> 't Dsfs \<Rightarrow> ('t Dsfs, unit, job) outcome" where
  "run_job E net j s = (case start_job j s of
     (s', None) \<Rightarrow> Ret s' () []
   | (s', Some t) \<Rightarrow> run_task E net t s')"

lemma usable_holds:
  assumes "fs_ok E s" "usable s p" "content s p = Some b" "go_get (fs_open s) p = Some r"
  shows "holds E s r b"
  using assms fs_okD(4,5) [OF assms(1,4)] by (auto simp: holds_def usable_def content_def)

text \<open>Flags and a cache of the same bytes change no view.\<close>

lemma set_flags_view:
  assumes "fs_ok E s" "usable s p" "content s p = Some b" "go_get (fs_open s) p = Some r"
    and "cache_ok (env_cache E) (fd_cache f)" "cache_bytes (fd_cache f) = b"
    and "fd_load f = fd_load (file_at s r)" "fd_lock f = Free"
  shows "fs_ok E (set_file s r f)" and "content (set_file s r f) = content s"
    and "ready (set_file s r f) = ready s" and "usable (set_file s r f) p"
    and "dirty (set_file s r f) p = fd_dirty f" and "syncing (set_file s r f) p = fd_syncing f"
proof -
  have "load_ok (fd_load f)" using fs_okD(5) [OF assms(1,4)] assms(7) by (simp add: file_ok_def)
  then show "fs_ok E (set_file s r f)" using assms by (simp add: fs_ok_set_file file_ok_def)
  show "content (set_file s r f) = content s" "ready (set_file s r f) = ready s"
    using assms by (auto simp: view_set_file [OF assms(1,4)] fun_eq_iff file_bytes_def file_ready_def contentE [OF assms(4)])
  show "usable (set_file s r f) p" "dirty (set_file s r f) p = fd_dirty f"
    "syncing (set_file s r f) p = fd_syncing f"
    using assms(2,4,8) fs_okD(4) [OF assms(1,4)]
    by (simp_all add: usable_def dirty_def syncing_def file_at_set_file)
qed

lemma Release_dirty:
  assumes "\<not> fs_locked s" "go_get (fs_open s) p = Some r" "dirty s p"
  shows "Release E p s = Ret s 0 [Upload r p (releaseTx p (file_at s r)) (get E s p)]"
  using assms by (simp add: Release_def dirty_def Let_def)

lemma file_at_db [simp]: "file_at (s\<lparr>fs_db := d\<rparr>) r = file_at s r"
  by (simp add: file_at_def)

lemma view_insert [simp]:
  "content (s\<lparr>fs_db := d\<rparr>) = content s" "ready (s\<lparr>fs_db := d\<rparr>) = ready s"
  "usable (s\<lparr>fs_db := d\<rparr>) p = usable s p" "dirty (s\<lparr>fs_db := d\<rparr>) p = dirty s p"
  "syncing (s\<lparr>fs_db := d\<rparr>) p = syncing s p"
  by (simp_all add: content_def ready_def usable_def dirty_def syncing_def fun_eq_iff
      cong: option.case_cong)

text \<open>The outcome of an upload that nothing interrupts: with a cache of the same bytes, clean, and
  the new transaction if all blocks and the transaction could be sent.\<close>

lemma run_upload_job:
  assumes "fs_ok E s" "usable s p" "content s p = Some b" "go_get (fs_open s) p = Some r"
    and "\<not> syncing s p" "uploadable b" "ids_ok old"
  defines "tx \<equiv> uploadedTx E p (file_at s r) b"
  shows "\<exists>c. cache_ok (env_cache E) c \<and> cache_bytes c = b \<and>
    run_job E net (Upload r p (releaseTx p (file_at s r)) old) s =
      (let s' = set_file s r ((file_at s r)\<lparr>fd_cache := c, fd_dirty := False, fd_syncing := False\<rparr>) in
       Ret (case upload_ids E net old b [0..<n_blocks b] of
              None \<Rightarrow> s'
            | Some fids \<Rightarrow>
                if int (length (env_marshal E (tx fids))) \<le> MaxDiscordFileSize \<and> net_tx net (env_marshal E (tx fids))
                then s'\<lparr>fs_db := db_Insert (env_db E) (fs_db s) p (tx fids)\<rparr> else s') () [])"
proof -
  let ?f = "file_at s r" and ?is = "[0..<n_blocks b]"
  let ?s1 = "set_file s r (?f\<lparr>fd_syncing := True\<rparr>)"
  let ?job = "Upload r p (releaseTx p ?f) old"
  have h: "holds E s r b" using usable_holds [OF assms(1-4)] .
  then have f: "cache_ok (env_cache E) (fd_cache ?f)" "cache_bytes (fd_cache ?f) = b" "fd_lock ?f = Free"
    "r < length (fs_heap s)" by (simp_all add: holds_def file_ok_def file_bytes_def)
  have nl: "\<not> fs_locked s" using assms(2) by (simp add: usable_def)
  have "Size (fd_cache ?f) = int (length b)" using Size_ok(1) [OF f(1)] f(2) by simp
  then have "start_job ?job s = (?s1, Some (Uploading r p (releaseTx p ?f) old ?is))"
    using assms(4,5) by (simp add: start_job_def syncing_def n_blocks_def Let_def)
  then have job: "run_job E net ?job s = run_task E net (Uploading r p (releaseTx p ?f) old ?is) ?s1"
    by (simp add: run_job_def)
  have h1: "holds E ?s1 r b" using h by (simp add: holds_def file_at_set_file file_ok_def file_bytes_def)
  obtain c where c: "holds E (set_file ?s1 r ((file_at ?s1 r)\<lparr>fd_cache := c\<rparr>)) r b"
    "run_task E net (Uploading r p (releaseTx p ?f) old ?is) ?s1 = (case upload_ids E net old b ?is of
        None \<Rightarrow> Ret (upload_done r (set_file ?s1 r ((file_at ?s1 r)\<lparr>fd_cache := c\<rparr>))) () []
      | Some fids \<Rightarrow> end_task (upload_finish E net r p
          (add_blocks (releaseTx p ?f) fids (map (\<lambda>i. env_sum E (block b i)) ?is))
          (set_file ?s1 r ((file_at ?s1 r)\<lparr>fd_cache := c\<rparr>))))"
    using run_uploading [OF h1 _ assms(6,7), of ?is net p "releaseTx p ?f"] by (auto simp: Let_def)
  let ?g = "?f\<lparr>fd_syncing := True, fd_cache := c\<rparr>"
  let ?s2 = "set_file s r ?g" and ?g' = "?f\<lparr>fd_cache := c, fd_dirty := False, fd_syncing := False\<rparr>"
  have s2: "set_file ?s1 r ((file_at ?s1 r)\<lparr>fd_cache := c\<rparr>) = ?s2"
    using f(4) by (simp add: set_file_twice file_at_set_file)
  have cc: "cache_ok (env_cache E) c" "cache_bytes c = b"
    using c(1) f(4) unfolding s2 by (simp_all add: holds_def file_at_set_file file_ok_def file_bytes_def)
  have d2: "upload_done r ?s2 = set_file s r ?g'"
    "upload_done r (?s2\<lparr>fs_db := d\<rparr>) = (set_file s r ?g')\<lparr>fs_db := d\<rparr>" for d
    using f(4) by (simp_all add: upload_done_def set_file_def file_at_def)
  have addb: "add_blocks (releaseTx p ?f) fids (map (\<lambda>i. env_sum E (block b i)) ?is) = tx fids" for fids
    by (simp add: tx_def uploadedTx_def add_blocks_def releaseTx_def)
  show ?thesis
    using job c(2) s2 d2 nl
    by (intro exI [of _ c])
      (simp add: cc upload_finish_def addb end_task_def Let_def split: option.split)
qed

lemma run_upload:
  assumes "fs_ok E s" "usable s p" "content s p = Some b" "go_get (fs_open s) p = Some r"
    and "\<not> syncing s p" "uploadable b" "ids_ok old"
  defines "tx \<equiv> uploadedTx E p (file_at s r) b"
  shows "upload_ids E net old b [0..<n_blocks b] = None \<Longrightarrow>
      \<exists>s'. run_job E net (Upload r p (releaseTx p (file_at s r)) old) s = Ret s' () [] \<and>
        fs_ok E s' \<and> content s' = content s \<and> ready s' = ready s \<and> usable s' p \<and> get E s' = get E s \<and>
        fs_open s' = fs_open s \<and> \<not> dirty s' p \<and> \<not> syncing s' p"
    and "upload_ids E net old b [0..<n_blocks b] = Some fids \<Longrightarrow>
      int (length (env_marshal E (tx fids))) \<le> MaxDiscordFileSize \<Longrightarrow> net_tx net (env_marshal E (tx fids)) \<Longrightarrow>
      \<exists>s'. run_job E net (Upload r p (releaseTx p (file_at s r)) old) s = Ret s' () [] \<and>
        fs_ok E s' \<and> content s' = content s \<and> ready s' = ready s \<and> usable s' p \<and>
        get E s' = (get E s)(p \<mapsto> tx fids) \<and> \<not> dirty s' p \<and> \<not> syncing s' p"
proof -
  let ?f = "file_at s r"
  obtain c where c: "cache_ok (env_cache E) c" "cache_bytes c = b"
    "run_job E net (Upload r p (releaseTx p ?f) old) s =
      (let s' = set_file s r (?f\<lparr>fd_cache := c, fd_dirty := False, fd_syncing := False\<rparr>) in
       Ret (case upload_ids E net old b [0..<n_blocks b] of
              None \<Rightarrow> s'
            | Some fids \<Rightarrow>
                if int (length (env_marshal E (tx fids))) \<le> MaxDiscordFileSize \<and> net_tx net (env_marshal E (tx fids))
                then s'\<lparr>fs_db := db_Insert (env_db E) (fs_db s) p (tx fids)\<rparr> else s') () [])"
    using run_upload_job [OF assms(1-7), of net] unfolding tx_def by blast
  let ?g = "?f\<lparr>fd_cache := c, fd_dirty := False, fd_syncing := False\<rparr>"
  let ?s4 = "(set_file s r ?g)\<lparr>fs_db := db_Insert (env_db E) (fs_db s) p (tx fids)\<rparr>"
  have l: "fd_lock ?f = Free" "cache_ok (env_cache E) (fd_cache ?f)"
    using assms(2,4) fs_okD(5) [OF assms(1,4)] by (simp_all add: usable_def file_ok_def)
  note v = set_flags_view [OF assms(1-4), of ?g]
  have v': "fs_ok E (set_file s r ?g)" "content (set_file s r ?g) = content s"
    "ready (set_file s r ?g) = ready s" "usable (set_file s r ?g) p"
    "\<not> dirty (set_file s r ?g) p" "\<not> syncing (set_file s r ?g) p"
    using v c(1,2) l(1) by simp_all
  show "\<exists>s'. run_job E net (Upload r p (releaseTx p ?f) old) s = Ret s' () [] \<and> fs_ok E s' \<and> content s' = content s \<and>
      ready s' = ready s \<and> usable s' p \<and> get E s' = get E s \<and> fs_open s' = fs_open s \<and>
      \<not> dirty s' p \<and> \<not> syncing s' p" if "upload_ids E net old b [0..<n_blocks b] = None"
    using v' c(3) that by (intro exI [of _ "set_file s r ?g"]) (simp add: fun_eq_iff)
  have "tx_ok (tx fids)" using Size_ok [OF l(2)] by (simp add: tx_def uploadedTx_def tx_ok_def releaseTx_def)
  then have "fs_ok E ?s4" using fs_ok_insert [OF v'(1), of "tx fids" p] by simp
  moreover have "get E ?s4 = (get E s)(p \<mapsto> tx fids)"
    using anydb.get_insert [OF fs_okD(1) [OF assms(1)]] by (simp add: get_def fun_eq_iff)
  ultimately show "\<exists>s'. run_job E net (Upload r p (releaseTx p ?f) old) s = Ret s' () [] \<and>
        fs_ok E s' \<and> content s' = content s \<and> ready s' = ready s \<and> usable s' p \<and>
        get E s' = (get E s)(p \<mapsto> tx fids) \<and> \<not> dirty s' p \<and> \<not> syncing s' p"
    if "upload_ids E net old b [0..<n_blocks b] = Some fids"
      "int (length (env_marshal E (tx fids))) \<le> MaxDiscordFileSize" "net_tx net (env_marshal E (tx fids))"
    using v' c(3) that by (intro exI [of _ ?s4]) (simp add: Let_def)
qed

section \<open>An open and its download\<close>

lemma run_open:
  assumes "env_ok E" "fs_ok E s" "\<not> fs_locked s" "go_get (fs_open s) p = None" "GetNewCache s \<noteq> None"
    and "get E s p = Some tx" "tx_Type tx = FileType" "tx_Size tx = int (length b)"
    and "length (tx_FileIDs tx) = n_blocks b"
    and "\<forall>i < n_blocks b. net_dl net (tx_FileIDs tx ! i) = Some (block b i)"
  shows "\<exists>s1 s2. Open E p s = Ret s1 (0, 1) [LoadFile p tx] \<and>
    content s1 p = Some (replicate (length b) zero_byte) \<and> ready s1 p = {} \<and>
    run_job E net (LoadFile p tx) s1 = Ret s2 () [] \<and> fs_ok E s2 \<and> usable s2 p \<and>
    content s2 p = Some b \<and> ready s2 p = {0..<int (length b)}"
proof -
  obtain c0 where c0: "GetNewCache s = Some c0" using assms(5) by blast
  then have c0': "cache_ok (env_cache E) c0" "cache_bytes c0 = []"
    using GetNewCache_ok [OF c0 env_okD(2) [OF assms(1)]] by simp_all
  have "0 \<le> tx_Size tx" "i64 (tx_Size tx)" using fs_okD(2) [OF assms(2,6)] by (simp_all add: tx_ok_def)
  from Truncate_ok [OF c0'(1) this]
  obtain c where c: "Truncate (env_cache E) c0 (tx_Size tx) = Some c" "cache_ok (env_cache E) c"
    "cache_bytes c = replicate (length b) zero_byte"
    using c0'(2) assms(8) by (auto simp: resize_Nil)
  let ?s1 = "open_new s p (fresh_file c (tx_Mtim tx) (tx_Ctim tx))"
  have o: "Open E p s = Ret ?s1 (0, 1) [LoadFile p tx]"
    using assms(3,4,6,7) c0 c(1) by (simp add: Open_def)
  have "fs_ok E ?s1" using assms(2) c(2) by (intro fs_ok_open_new) (simp_all add: file_ok_fresh)
  moreover have v: "usable ?s1 p" "content ?s1 p = Some (replicate (length b) zero_byte)" "ready ?s1 p = {}"
    using assms(3) c(3)
    by (simp_all add: usable_def content_def ready_def open_new_def file_at_def fresh_file_def
        file_bytes_def file_ready_def)
  ultimately obtain s2 where "run_task E net (Loading p (load_plan tx)) ?s1 = Ret s2 () []" "fs_ok E s2"
    "usable s2 p" "content s2 = (content ?s1)(p \<mapsto> b)" "ready s2 = (ready ?s1)(p := ready ?s1 p \<union> {0..<int (length b)})"
    using run_load_plan [OF _ _ _ _ assms(9,10), of E ?s1 p "replicate (length b) zero_byte"] by auto
  then show ?thesis
    using o v by (intro exI [of _ ?s1] exI [of _ s2]) (simp add: run_job_def start_job_def)
qed

section \<open>The end of an upload, with calls before it\<close>

lemma Write_flags:
  assumes "Write E now p buff ofst s = Ret s' n js" "fs_ok E s" "go_get (fs_open s) p \<noteq> None"
  shows "fs_open s' = fs_open s" and "dirty s' p" and "syncing s' p = syncing s p"
proof -
  obtain r where r: "go_get (fs_open s) p = Some r" using assms(3) by blast
  obtain c l where s': "s' = set_file s r ((file_at s r)\<lparr>fd_cache := c, fd_load := l, fd_mtim := now, fd_dirty := True\<rparr>)"
    using assms(1) r by (auto simp: Write_def Let_def split: option.splits prod.splits if_splits)
  show "fs_open s' = fs_open s" "dirty s' p" "syncing s' p = syncing s p"
    using r fs_okD(4) [OF assms(2) r] by (simp_all add: s' dirty_def syncing_def file_at_set_file)
qed

lemma upload_done_view:
  assumes "fs_ok E s" "usable s p" "go_get (fs_open s) p = Some r"
  shows "content (upload_done r s) = content s" and "ready (upload_done r s) = ready s"
    and "usable (upload_done r s) p" and "\<not> dirty (upload_done r s) p" and "\<not> syncing (upload_done r s) p"
    and "fs_open (upload_done r s) = fs_open s" and "get E (upload_done r s) = get E s"
proof -
  have f: "cache_ok (env_cache E) (fd_cache (file_at s r))" "fd_lock (file_at s r) = Free"
    "content s p = Some (cache_bytes (fd_cache (file_at s r)))"
    using fs_okD(5) [OF assms(1,3)] assms(2,3)
    by (simp_all add: file_ok_def usable_def content_def file_bytes_def)
  note v = set_flags_view [OF assms(1,2) f(3) assms(3), of "(file_at s r)\<lparr>fd_dirty := False, fd_syncing := False\<rparr>"]
  show "content (upload_done r s) = content s" "ready (upload_done r s) = ready s"
    "usable (upload_done r s) p" "\<not> dirty (upload_done r s) p" "\<not> syncing (upload_done r s) p"
    "fs_open (upload_done r s) = fs_open s" "get E (upload_done r s) = get E s"
    using v f(1,2) by (simp_all add: upload_done_def fun_eq_iff)
qed

text \<open>The last step of an upload: the goroutine ends, and may have stored its transaction.\<close>

lemma upload_last:
  assumes "\<not> fs_locked s"
  shows "task_step E net (Uploading r p tx old []) s =
    Ret (if int (length (env_marshal E tx)) \<le> MaxDiscordFileSize \<and> net_tx net (env_marshal E tx)
         then (upload_done r s)\<lparr>fs_db := db_Insert (env_db E) (fs_db s) p tx\<rparr>
         else upload_done r s) None []"
  using assms by (simp add: upload_finish_def Let_def upload_done_def set_file_def file_at_def)

lemma Release_clean: "usable s p \<Longrightarrow> \<not> dirty s p \<Longrightarrow> Release E p s = Ret s 0 []"
  by (auto simp: Release_def dirty_def usable_def Let_def split: option.splits)

end
