(* ===== verification/Machine.thy ===== *)
theory Machine
  imports Main
begin

text \<open>
  Transition systems with an invariant, the locale \<open>machine\<close>, and programs that refine
  a specification, the locale \<open>refines\<close>. The first is interpreted on the file system
  (\<open>FsSystem\<close>), on its names (\<open>NameTree\<close>), on the upload queue alone
  (\<open>WriterQueue\<close>) and with its callers (\<open>WriterClients\<close>), on the iterator
  of a map (\<open>MapIter\<close>), on readers of a file (\<open>DiskReaders\<close>), on a client
  and its log (\<open>ClientLog\<close>), on mounting (\<open>FuseMount\<close>) and on the loader
  of the library (\<open>FuseCgo\<close>); the second on the sessions of a lone client
  (\<open>Session\<close>).
\<close>

inductive reaches :: "('s \<Rightarrow> 's \<Rightarrow> bool) \<Rightarrow> 's \<Rightarrow> 's \<Rightarrow> bool" for step where
  here: "reaches step s s"
| there: "reaches step s t \<Longrightarrow> step t u \<Longrightarrow> reaches step s u"

lemma one_step: "step s t \<Longrightarrow> reaches step s t"
  by (rule there [of step s s t]) (rule here)

lemma reaches_trans: "reaches step s t \<Longrightarrow> reaches step t u \<Longrightarrow> reaches step s u"
  by (rotate_tac, induction rule: reaches.induct) (auto intro: there)

locale machine =
  fixes step :: "'s \<Rightarrow> 's \<Rightarrow> bool"
    and inv :: "'s \<Rightarrow> bool"
  assumes keeps: "inv s \<Longrightarrow> step s t \<Longrightarrow> inv t"
begin

lemma reaches_inv: "reaches step s t \<Longrightarrow> inv s \<Longrightarrow> inv t"
  by (induction rule: reaches.induct) (auto intro: keeps)

end

section \<open>Runs against a specification\<close>

text \<open>
  A program that takes a call in a state, answers and goes to a new state, if it does; the
  answers to a list of calls.
\<close>

primrec run :: "('c \<Rightarrow> 's \<Rightarrow> ('a \<times> 's) option) \<Rightarrow> 'c list \<Rightarrow> 's \<Rightarrow> ('a list \<times> 's) option" where
  "run f [] s = Some ([], s)"
| "run f (c # cs) s = (case f c s of
     None \<Rightarrow> None
   | Some (a, s') \<Rightarrow> map_option (\<lambda>(answers, s''). (a # answers, s'')) (run f cs s'))"

primrec run_all :: "('c \<Rightarrow> 's \<Rightarrow> 'a \<times> 's) \<Rightarrow> 'c list \<Rightarrow> 's \<Rightarrow> 'a list \<times> 's" where
  "run_all f [] s = ([], s)"
| "run_all f (c # cs) s = (let (a, s') = f c s; (answers, s'') = run_all f cs s' in (a # answers, s''))"

text \<open>Each call is one of those that are followed, in the state in which it is made.\<close>

primrec all_along :: "('c \<Rightarrow> 's \<Rightarrow> bool) \<Rightarrow> ('c \<Rightarrow> 's \<Rightarrow> ('a \<times> 's) option) \<Rightarrow> 'c list \<Rightarrow> 's \<Rightarrow> bool" where
  "all_along P f [] s = True"
| "all_along P f (c # cs) s \<longleftrightarrow> P c s \<and> (\<forall>a s'. f c s = Some (a, s') \<longrightarrow> all_along P f cs s')"

text \<open>
  A functional refinement: the program answers as the specification does in the state it
  stands for.
\<close>

locale refines =
  fixes prog :: "'c \<Rightarrow> 's \<Rightarrow> ('a \<times> 's) option"
    and spec_of :: "'c \<Rightarrow> 't \<Rightarrow> 'a \<times> 't"
    and view :: "'s \<Rightarrow> 't"
    and inv :: "'s \<Rightarrow> bool"
    and followed :: "'c \<Rightarrow> 's \<Rightarrow> bool"
  assumes refine: "inv s \<Longrightarrow> followed c s \<Longrightarrow>
    \<exists>a s'. prog c s = Some (a, s') \<and> inv s' \<and> spec_of c (view s) = (a, view s')"
begin

lemma follow:
  assumes "inv s" "followed c s"
    and "\<And>a s'. inv s' \<Longrightarrow> spec_of c (view s) = (a, view s') \<Longrightarrow> all_along followed prog cs s'"
  shows "all_along followed prog (c # cs) s"
  using refine [OF assms(1,2)] assms(2,3) by auto

lemma run_refines:
  "inv s \<Longrightarrow> all_along followed prog cs s \<Longrightarrow>
   \<exists>answers s'. run prog cs s = Some (answers, s') \<and> inv s' \<and> run_all spec_of cs (view s) = (answers, view s')"
proof (induction cs arbitrary: s)
  case (Cons c cs)
  obtain a s1 where 1: "prog c s = Some (a, s1)" "inv s1" "spec_of c (view s) = (a, view s1)"
    using refine Cons.prems by fastforce
  obtain answers s2 where "run prog cs s1 = Some (answers, s2)" "inv s2" "run_all spec_of cs (view s1) = (answers, view s2)"
    using Cons.IH [OF 1(2)] Cons.prems(2) 1(1) by auto
  then show ?case using 1 by simp
qed simp

end

end
