(* ===== verification/FsSystem.thy ===== *)
theory FsSystem
  imports Sync Machine
begin

text \<open>
  The file system as a whole: calls of the FUSE layer, steps of the goroutines they
  started, and transactions of other clients, in any order.
\<close>

section \<open>Calls\<close>

text \<open>
  The calls that are one step. The function in a read is what happens to its file during
  the pauses.
\<close>

datatype request =
    RMknod string Time Time
  | RMkdir string
  | ROpen string
  | RUnlink string
  | RRmdir string
  | RGetattr string Stat_t
  | RReaddir string
  | RTruncate string int Time
  | RRead string bytes int "nat \<Rightarrow> FileData \<Rightarrow> FileData"
  | RWrite string bytes int Time
  | RRelease string

text \<open>A call of \<open>Rename\<close>, with two critical sections, by how far it has come.\<close>

datatype renaming =
    Checking (rn_old: string) (rn_new: string)
  | Checked (rn_old: string) (rn_new: string) Tx
  | Sent (rn_old: string) (rn_new: string) Tx

record 't sys =
  sy_fs :: "'t Dsfs"
  sy_renames :: "renaming list"
  sy_jobs :: "job list"
  sy_tasks :: "task list"

text \<open>The host recovers from a panic of a method; a call that blocks changes nothing.\<close>

definition advance :: "'t sys \<Rightarrow> ('t Dsfs, 'r, job) outcome \<Rightarrow> 't sys" where
  "advance y out = (case out of
     Ret s r js \<Rightarrow> y\<lparr>sy_fs := s, sy_jobs := sy_jobs y @ js\<rparr>
   | Panics s \<Rightarrow> y\<lparr>sy_fs := s\<rparr>
   | Blocks \<Rightarrow> y)"

fun call :: "'t env \<Rightarrow> request \<Rightarrow> 't sys \<Rightarrow> 't sys" where
  "call E (RMknod p t1 t2) y = advance y (Mknod E t1 t2 p (sy_fs y))"
| "call E (RMkdir p) y = advance y (Mkdir E p (sy_fs y))"
| "call E (ROpen p) y = advance y (Open E p (sy_fs y))"
| "call E (RUnlink p) y = advance y (Unlink E p (sy_fs y))"
| "call E (RRmdir p) y = advance y (Rmdir E p (sy_fs y))"
| "call E (RGetattr p st) y = advance y (Getattr E p st (sy_fs y))"
| "call E (RReaddir p) y = advance y (Readdir E p (sy_fs y))"
| "call E (RTruncate p sz t) y = advance y (fs_Truncate E t p sz (sy_fs y))"
| "call E (RRead p buff ofst bg) y = advance y (Read E bg p buff ofst (sy_fs y))"
| "call E (RWrite p buff ofst t) y = advance y (Write E t p buff ofst (sy_fs y))"
| "call E (RRelease p) y = advance y (Release E p (sy_fs y))"

text \<open>What the kernel passes: sizes and offsets that are not negative and do not overflow.\<close>

fun legal :: "'t env \<Rightarrow> request \<Rightarrow> bool" where
  "legal E (RTruncate p sz t) \<longleftrightarrow> 0 \<le> sz \<and> i64 sz"
| "legal E (RRead p buff ofst bg) \<longleftrightarrow> 0 \<le> ofst \<and> i64 ofst \<and> bg_ok E bg"
| "legal E (RWrite p buff ofst t) \<longleftrightarrow> 0 \<le> ofst \<and> i64 (ofst + int (length buff))"
| "legal E _ \<longleftrightarrow> True"

section \<open>Steps of the system\<close>

text \<open>
  A block that arrives late: the file has been cut below the block's end since it was
  asked for. A disk cache then grows its file without growing its size; the invariant is
  stated for runs in which no block does.
\<close>

fun timely :: "'t Dsfs \<Rightarrow> task \<Rightarrow> bool" where
  "timely s (Storing r ofst piece path plan) \<longleftrightarrow>
     0 \<le> ofst \<and> ofst + int (length piece) \<le> Size (fd_cache (file_at s r))"
| "timely s (Replacing r tx ofst buffer piece is) \<longleftrightarrow>
     0 \<le> ofst \<and> ofst + int (length piece) \<le> Size (fd_cache (file_at s r)) \<and> length piece \<le> length buffer"
| "timely s _ \<longleftrightarrow> True"

text \<open>The next part of a \<open>Rename\<close>; \<open>None\<close> when it has returned.\<close>

fun rename_step :: "'t env \<Rightarrow> renaming \<Rightarrow> 't Dsfs \<Rightarrow> ('t Dsfs, renaming option, job) outcome" where
  "rename_step E (Checking old new) s = (case rename_check E old new s of
     Ret s' (Inl r) js \<Rightarrow> Ret s' None js
   | Ret s' (Inr tx) js \<Rightarrow> Ret s' (Some (Checked old new tx)) js
   | Panics s' \<Rightarrow> Panics s'
   | Blocks \<Rightarrow> Blocks)"
| "rename_step E (Checked old new tx) s = (case rename_send E old new tx s of
     Ret s' (Inl r) js \<Rightarrow> Ret s' None js
   | Ret s' (Inr tx') js \<Rightarrow> Ret s' (Some (Sent old new tx')) js
   | Panics s' \<Rightarrow> Panics s'
   | Blocks \<Rightarrow> Blocks)"
| "rename_step E (Sent old new tx) s = (case rename_store E old new tx s of
     Ret s' r js \<Rightarrow> Ret s' None js
   | Panics s' \<Rightarrow> Panics s'
   | Blocks \<Rightarrow> Blocks)"

text \<open>
  Two renames of one name at the same time would share the transaction they change; a run
  has at most one for a name.
\<close>

definition opt_list :: "'a option \<Rightarrow> 'a list" where
  "opt_list x = (case x of None \<Rightarrow> [] | Some y \<Rightarrow> [y])"

inductive sys_step :: "'t env \<Rightarrow> 't sys \<Rightarrow> 't sys \<Rightarrow> bool" for E where
  call: "legal E q \<Longrightarrow> sys_step E y (call E q y)"
| start: "j \<in> set (sy_jobs y) \<Longrightarrow> start_job j (sy_fs y) = (s', t) \<Longrightarrow>
    sys_step E y (y\<lparr>sy_fs := s', sy_jobs := remove1 j (sy_jobs y), sy_tasks := sy_tasks y @ opt_list t\<rparr>)"
| task: "t \<in> set (sy_tasks y) \<Longrightarrow> timely (sy_fs y) t \<Longrightarrow> task_step E net t (sy_fs y) = Ret s' t' js \<Longrightarrow>
    sys_step E y (y\<lparr>sy_fs := s', sy_tasks := remove1 t (sy_tasks y) @ opt_list t'\<rparr>)"
| live_write: "tx_ok tx \<Longrightarrow> ApplyLiveTx_start E path tx (sy_fs y) = Ret s' t js \<Longrightarrow>
    sys_step E y (y\<lparr>sy_fs := s', sy_tasks := sy_tasks y @ opt_list t\<rparr>)"
| live_delete: "live_delete E path (sy_fs y) = Ret s' u js \<Longrightarrow> sys_step E y (y\<lparr>sy_fs := s'\<rparr>)"
| rename_call: "old \<notin> rn_old ` set (sy_renames y) \<Longrightarrow>
    sys_step E y (y\<lparr>sy_renames := sy_renames y @ [Checking old new]\<rparr>)"
| rename: "m \<in> set (sy_renames y) \<Longrightarrow> rename_step E m (sy_fs y) = Ret s' m' js \<Longrightarrow>
    sys_step E y (y\<lparr>sy_fs := s', sy_jobs := sy_jobs y @ js,
      sy_renames := remove1 m (sy_renames y) @ opt_list m'\<rparr>)"

inductive_cases sys_stepE: "sys_step E y z"

section \<open>The heap only grows\<close>

definition out_grows :: "'t Dsfs \<Rightarrow> ('t Dsfs, 'r, job) outcome \<Rightarrow> bool" where
  "out_grows s out = (case out of
     Ret s' r js \<Rightarrow> length (fs_heap s) \<le> length (fs_heap s')
   | Panics s' \<Rightarrow> length (fs_heap s) \<le> length (fs_heap s')
   | Blocks \<Rightarrow> True)"

named_theorems grows \<open>methods that keep the heap\<close>

lemma out_grows_simps [simp]:
  "out_grows s (Ret s' r js) = (length (fs_heap s) \<le> length (fs_heap s'))"
  "out_grows s (Panics s') = (length (fs_heap s) \<le> length (fs_heap s'))"
  "out_grows s Blocks"
  by (simp_all add: out_grows_def)

lemma heap_simps [simp]:
  "length (fs_heap (open_new s p f)) = Suc (length (fs_heap s))"
  "fs_heap (move_open s a b) = fs_heap s"
  by (simp_all add: open_new_def move_open_def split: option.splits)

lemma grows_names [grows]:
  "out_grows s (Mknod E t1 t2 p s)" "out_grows s (Mkdir E p s)" "out_grows s (Open E p s)"
  "out_grows s (Unlink E p s)" "out_grows s (Rmdir E p s)" "out_grows s (Getattr E p st s)"
  "out_grows s (Readdir E p s)" "out_grows s (Release E p s)"
  by (auto simp: Mknod_def Mkdir_def Open_def Unlink_def Rmdir_def Getattr_def Readdir_def Release_def
      Let_def split: option.splits)

lemma rename_step_heap: "rename_step E m s = Ret s' m' js \<Longrightarrow> fs_heap s' = fs_heap s"
  by (cases m) (auto simp: rename_check_def rename_send_def rename_store_def Let_def
      split: option.splits if_splits)

lemma grows_files [grows]:
  "out_grows s (fs_Truncate E t p sz s)" "out_grows s (Read E bg p buff ofst s)" "out_grows s (Write E t p buff ofst s)"
  by (auto simp: fs_Truncate_def Read_def Write_def Let_def split: option.splits wait.splits prod.splits)

section \<open>The invariant of the system\<close>

definition job_ok :: "nat \<Rightarrow> job \<Rightarrow> bool" where
  "job_ok n j = (case j of Upload r p tx old \<Rightarrow> r < n \<and> tx_ok tx | _ \<Rightarrow> True)"

fun task_ok :: "nat \<Rightarrow> task \<Rightarrow> bool" where
  "task_ok n (Loading path plan) \<longleftrightarrow> True"
| "task_ok n (Storing r ofst piece path plan) \<longleftrightarrow> r < n"
| "task_ok n (Uploading r path tx old is) \<longleftrightarrow> r < n \<and> tx_ok tx"
| "task_ok n (Patching r tx is) \<longleftrightarrow> r < n"
| "task_ok n (Replacing r tx ofst buffer piece is) \<longleftrightarrow> r < n"

fun renaming_ok :: "renaming \<Rightarrow> bool" where
  "renaming_ok (Checking old new) \<longleftrightarrow> True"
| "renaming_ok (Checked old new tx) \<longleftrightarrow> tx_ok tx"
| "renaming_ok (Sent old new tx) \<longleftrightarrow> tx_ok tx"

definition sys_ok :: "'t env \<Rightarrow> 't sys \<Rightarrow> bool" where
  "sys_ok E y \<longleftrightarrow> env_ok E \<and> fs_ok E (sy_fs y) \<and>
     (\<forall>j \<in> set (sy_jobs y). job_ok (length (fs_heap (sy_fs y))) j) \<and>
     (\<forall>t \<in> set (sy_tasks y). task_ok (length (fs_heap (sy_fs y))) t) \<and>
     (\<forall>m \<in> set (sy_renames y). renaming_ok m)"

lemma job_ok_mono: "job_ok n j \<Longrightarrow> n \<le> m \<Longrightarrow> job_ok m j"
  by (auto simp: job_ok_def split: job.splits)

lemma task_ok_mono: "task_ok n t \<Longrightarrow> n \<le> m \<Longrightarrow> task_ok m t"
  by (cases t) auto

lemma opt_list_simps [simp]: "opt_list None = []" "opt_list (Some x) = [x]"
  by (simp_all add: opt_list_def)

text \<open>Only \<open>Release\<close> starts an upload.\<close>

definition jobs_ok :: "('t Dsfs, 'r, job) outcome \<Rightarrow> bool" where
  "jobs_ok out = (case out of Ret s r js \<Rightarrow> \<forall>j \<in> set js. job_ok (length (fs_heap s)) j | _ \<Rightarrow> True)"

lemma jobs_ok_simps [simp]:
  "jobs_ok (Ret s r js) = (\<forall>j \<in> set js. job_ok (length (fs_heap s)) j)" "jobs_ok (Panics s)" "jobs_ok Blocks"
  by (simp_all add: jobs_ok_def)

lemma job_ok_simps [simp]:
  "job_ok n (SendTx b)" "job_ok n (SendTxs b c)" "job_ok n (LoadFile p tx)"
  by (simp_all add: job_ok_def)

named_theorems new_jobs \<open>the goroutines of a method are well-formed\<close>

lemma jobs_names [new_jobs]:
  "jobs_ok (Mknod E t1 t2 p s)" "jobs_ok (Mkdir E p s)" "jobs_ok (Open E p s)"
  "jobs_ok (Unlink E p s)" "jobs_ok (Rmdir E p s)" "jobs_ok (Getattr E p st s)" "jobs_ok (Readdir E p s)"
  by (auto simp: Mknod_def Mkdir_def Open_def Unlink_def Rmdir_def Getattr_def Readdir_def Let_def
      split: option.splits)

lemma jobs_files [new_jobs]:
  "jobs_ok (fs_Truncate E t p sz s)" "jobs_ok (Read E bg p buff ofst s)" "jobs_ok (Write E t p buff ofst s)"
  by (auto simp: fs_Truncate_def Read_def Write_def Let_def split: option.splits wait.splits prod.splits)

lemma jobs_Release [new_jobs]:
  assumes "fs_ok E s"
  shows "jobs_ok (Release E p s)"
  using fs_okD(4,5) [OF assms, of p]
  by (auto simp: Release_def job_ok_def file_ok_def Let_def split: option.splits)

text \<open>A new state, with the old goroutines and new ones that are well-formed in it.\<close>

lemma sys_ok_update:
  assumes "sys_ok E y" "fs_ok E s" "length (fs_heap (sy_fs y)) \<le> length (fs_heap s)"
    and "\<forall>j \<in> set js. j \<in> set (sy_jobs y) \<or> job_ok (length (fs_heap s)) j"
    and "\<forall>t \<in> set ts. t \<in> set (sy_tasks y) \<or> task_ok (length (fs_heap s)) t"
  shows "sys_ok E (y\<lparr>sy_fs := s, sy_jobs := js, sy_tasks := ts\<rparr>)"
  using assms job_ok_mono [OF _ assms(3)] task_ok_mono [OF _ assms(3)] by (auto simp: sys_ok_def)

lemma sys_ok_advance:
  assumes "sys_ok E y" "out_ok E out" "out_grows (sy_fs y) out" "jobs_ok out"
  shows "sys_ok E (advance y out)"
proof (cases out)
  case (Ret s r js)
  then have "fs_ok E s" "length (fs_heap (sy_fs y)) \<le> length (fs_heap s)"
    "\<forall>j \<in> set js. job_ok (length (fs_heap s)) j"
    using assms(2-4) by simp_all
  then show ?thesis
    using sys_ok_update [OF assms(1), of s "sy_jobs y @ js" "sy_tasks y"] Ret
    by (auto simp: advance_def)
next
  case (Panics s)
  then show ?thesis
    using sys_ok_update [OF assms(1), of s "sy_jobs y" "sy_tasks y"] assms(2,3) by (simp add: advance_def)
qed (use assms(1) in \<open>simp add: advance_def\<close>)

lemma sys_ok_call:
  assumes "sys_ok E y" "legal E q"
  shows "sys_ok E (call E q y)"
proof -
  have e: "env_ok E" "fs_ok E (sy_fs y)" using assms(1) by (simp_all add: sys_ok_def)
  show ?thesis
    using assms(2) e by (cases q) (auto intro!: sys_ok_advance [OF assms(1)] fs_pres grows new_jobs)
qed

section \<open>The steps of the goroutines\<close>

lemma file_ok_at: "fs_ok E s \<Longrightarrow> r < length (fs_heap s) \<Longrightarrow> file_ok E (file_at s r)"
  by (simp add: fs_ok_def file_at_def)

lemma file_ok_flags [simp]:
  "file_ok E (f\<lparr>fd_syncing := b\<rparr>) = file_ok E f" "file_ok E (f\<lparr>fd_dirty := d\<rparr>) = file_ok E f"
  by (simp_all add: file_ok_def)

lemma start_job_ok:
  assumes "fs_ok E s" "job_ok (length (fs_heap s)) j" "start_job j s = (s', t)"
  shows "fs_ok E s' \<and> length (fs_heap s') = length (fs_heap s) \<and>
    (\<forall>t' \<in> set (opt_list t). task_ok (length (fs_heap s)) t')"
  using assms
  by (auto simp: start_job_def job_ok_def file_ok_at Let_def intro!: fs_ok_set_file split: job.splits if_splits)

lemma dlID_store_ok:
  assumes "fs_ok E s" "r < length (fs_heap s)" "0 \<le> ofst"
    and "ofst + int (length piece) \<le> Size (fd_cache (file_at s r))"
    and "dlID_store E r ofst piece s = Ret s' u js"
  shows "fs_ok E s'" and "length (fs_heap s') = length (fs_heap s)"
proof -
  let ?f = "file_at s r" and ?e = "ofst + int (length piece)"
  have f: "cache_ok (env_cache E) (fd_cache ?f)" "load_ok (fd_load ?f)"
    using file_ok_at [OF assms(1,2)] by (simp_all add: file_ok_def)
  have i: "i64 ?e" "i64 ofst"
    using assms(3,4) Size_ok(3) [OF f(1)] by (auto intro: i64_between [OF _ _ Size_ok(3) [OF f(1)]])
  obtain c where c: "WriteRange (env_cache E) (fd_cache ?f) ofst ?e piece = Some (c, int (length piece))"
    "cache_ok (env_cache E) c"
    using WriteRange_ok [OF f(1) assms(3) refl assms(4)] by blast
  then have "s' = set_file s r (?f\<lparr>fd_cache := c, fd_load := addRange (fd_load ?f) ofst ?e\<rparr>)"
    using assms(5) i by (simp add: dlID_store_def i64_simps Let_def split: if_splits)
  then show "fs_ok E s'" "length (fs_heap s') = length (fs_heap s)"
    using assms(1,3) f c(2) i by (simp_all add: fs_ok_set_file file_ok_def)
qed

lemma patch_store_ok:
  assumes "env_ok E" "fs_ok E s" "r < length (fs_heap s)" "0 \<le> ofst"
    and "ofst + int (length piece) \<le> Size (fd_cache (file_at s r))"
    and "patch_store E r ofst buffer piece s = Ret s' u js"
  shows "fs_ok E s'" and "length (fs_heap s') = length (fs_heap s)"
proof -
  let ?f = "file_at s r" and ?e = "ofst + int (length piece)"
  have f: "cache_ok (env_cache E) (fd_cache ?f)" "load_ok (fd_load ?f)"
    using file_ok_at [OF assms(2,3)] by (simp_all add: file_ok_def)
  have i: "i64 ?e" "i64 ofst"
    using assms(4,5) Size_ok(3) [OF f(1)] by (auto intro: i64_between [OF _ _ Size_ok(3) [OF f(1)]])
  obtain c n where c: "WriteRange (env_cache E) (fd_cache ?f) ofst ?e buffer = Some (c, n)"
    "cache_ok (env_cache E) c"
    using anycache.write_law [OF f(1) assms(4) _ assms(5), of buffer] by auto
  obtain l b where l: "isReady (env_sort E) (fd_load ?f) ofst ?e = (l, b)" by fastforce
  then have "load_ok l" using load_ok_queries(1) [OF env_okD(1) [OF assms(1)], of "fd_load ?f" ofst ?e] f(2) by simp
  moreover have "s' = set_file s r (?f\<lparr>fd_cache := c, fd_load := (if b then l else addRange l ofst ?e)\<rparr>)"
    using assms(6) c(1) l i by (simp add: patch_store_def i64_simps Let_def split: if_splits)
  ultimately show "fs_ok E s'" "length (fs_heap s') = length (fs_heap s)"
    using assms(2,4) f c(2) i by (simp_all add: fs_ok_set_file file_ok_def)
qed

lemma up_ok:
  assumes "fs_ok E s" "r < length (fs_heap s)" "tx_ok tx" "up E net r i fid csum tx s = Ret s' tx' js"
  shows "fs_ok E s'" and "length (fs_heap s') = length (fs_heap s)" and "tx' = Some t \<Longrightarrow> tx_ok t"
proof -
  have f: "file_ok E (file_at s r)" using file_ok_at [OF assms(1,2)] .
  have k: "ReadRange (fd_cache (file_at s r)) o1 e1 b1 = Some (c, b2, n) \<Longrightarrow> cache_ok (env_cache E) c" for o1 e1 b1 c b2 n
    using ReadRange_keeps(1) f by (metis file_ok_def)
  show "fs_ok E s'" "length (fs_heap s') = length (fs_heap s)" "tx' = Some t \<Longrightarrow> tx_ok t"
    using assms f
    by (auto simp: up_def Let_def fs_ok_set_file file_ok_def tx_ok_def split: if_splits option.splits dest!: k)
qed

lemma upload_done_ok:
  assumes "fs_ok E s" "r < length (fs_heap s)"
  shows "fs_ok E (upload_done r s)" and "length (fs_heap (upload_done r s)) = length (fs_heap s)"
  using assms file_ok_at [OF assms] by (auto simp: upload_done_def intro!: fs_ok_set_file)

lemma upload_finish_ok:
  assumes "fs_ok E s" "r < length (fs_heap s)" "tx_ok tx" "upload_finish E net r path tx s = Ret s' t js"
  shows "fs_ok E s'" and "length (fs_heap s') = length (fs_heap s)" and "t = None"
proof -
  let ?s = "s\<lparr>fs_db := db_Insert (env_db E) (fs_db s) path tx\<rparr>"
  have "fs_ok E ?s" "r < length (fs_heap ?s)" using assms(1-3) by (simp_all add: fs_ok_insert)
  then show "fs_ok E s'" "length (fs_heap s') = length (fs_heap s)" "t = None"
    using assms upload_done_ok [OF assms(1,2)] upload_done_ok [of E ?s r]
    by (auto simp: upload_finish_def Let_def split: if_splits)
qed

lemma patch_check_ok:
  assumes "fs_ok E s" "r < length (fs_heap s)" "patch_check E net r tx i s = Ret s' res js"
  shows "fs_ok E s'" and "length (fs_heap s') = length (fs_heap s)"
proof -
  have f: "file_ok E (file_at s r)" using file_ok_at [OF assms(1,2)] .
  have k: "ReadRange (fd_cache (file_at s r)) o1 e1 b1 = Some (c, b2, n) \<Longrightarrow> cache_ok (env_cache E) c" for o1 e1 b1 c b2 n
    using ReadRange_keeps(1) f by (metis file_ok_def)
  show "fs_ok E s'" "length (fs_heap s') = length (fs_heap s)"
    using assms f
    by (auto simp: patch_check_def Let_def fs_ok_set_file file_ok_def split: if_splits option.splits dest!: k)
qed

lemma task_step_ok:
  assumes "env_ok E" "fs_ok E s" "task_ok (length (fs_heap s)) t" "timely s t"
    and "task_step E net t s = Ret s' t' js"
  shows "fs_ok E s' \<and> length (fs_heap s') = length (fs_heap s) \<and>
    (\<forall>u \<in> set (opt_list t'). task_ok (length (fs_heap s)) u)"
proof (cases t)
  case (Loading path plan)
  then show ?thesis
    using assms(2,5) fs_okD(4) [OF assms(2), of path]
    by (cases plan) (auto simp: dlID_fetch_def split: option.splits)
next
  case (Storing r ofst piece path plan)
  then show ?thesis
    using assms(3-5) dlID_store_ok [OF assms(2), of r ofst piece]
    by (auto split: outcome.splits)
next
  case (Uploading r path tx old "is")
  then have r: "r < length (fs_heap s)" "tx_ok tx" using assms(3) by simp_all
  show ?thesis
  proof (cases "is")
    case Nil
    then show ?thesis using assms(5) Uploading upload_finish_ok [OF assms(2) r, of net path s' t' js] by simp
  next
    case (Cons i js')
    obtain fid csum where "old_block old i = Some (fid, csum)"
      using assms(5) Uploading Cons by (auto split: option.splits)
    moreover from this obtain s1 tx1 js1 where u: "up E net r i fid csum tx s = Ret s1 tx1 js1"
      using assms(5) Uploading Cons by (auto split: outcome.splits)
    note k = up_ok [OF assms(2) r u]
    then have "r < length (fs_heap s1)" using r(1) by simp
    ultimately show ?thesis
      using assms(5) Uploading Cons u k upload_done_ok [OF k(1)] r(1)
      by (cases tx1) auto
  qed
next
  case (Patching r tx "is")
  then have r: "r < length (fs_heap s)" using assms(3) by simp
  show ?thesis
  proof (cases "is")
    case (Cons i js')
    then show ?thesis
      using assms(5) Patching r patch_check_ok [OF assms(2) r, of net tx i]
      by (auto split: outcome.splits option.splits)
  qed (use assms(2,5) Patching in simp)
next
  case (Replacing r tx ofst buffer piece "is")
  then show ?thesis
    using assms(3-5) patch_store_ok [OF assms(1,2), of r ofst piece buffer]
    by (auto split: outcome.splits)
qed

lemma ApplyLiveTx_start_ok:
  assumes "env_ok E" "fs_ok E s" "tx_ok tx" "ApplyLiveTx_start E path tx s = Ret s' t js"
  shows "fs_ok E s' \<and> length (fs_heap s') = length (fs_heap s) \<and>
    (\<forall>u \<in> set (opt_list t). task_ok (length (fs_heap s)) u)"
proof -
  let ?s1 = "s\<lparr>fs_db := db_Insert (env_db E) (fs_db s) path tx\<rparr>"
  have s1: "fs_ok E ?s1" using fs_ok_insert [OF assms(2,3)] .
  show ?thesis
  proof (cases "go_get (fs_open s) (tx_Path tx)")
    case None
    then show ?thesis using assms(4) s1 by (auto simp: ApplyLiveTx_start_def Let_def split: if_splits)
  next
    case (Some r)
    let ?f = "file_at ?s1 r"
    have r: "r < length (fs_heap s)" using fs_okD(4) [OF assms(2) Some] .
    have f: "cache_ok (env_cache E) (fd_cache ?f)" "load_ok (fd_load ?f)"
      using file_ok_at [OF s1, of r] r by (simp_all add: file_ok_def)
    have sz: "0 \<le> tx_Size tx" "i64 (tx_Size tx)" using assms(3) by (simp_all add: tx_ok_def)
    obtain c where c: "Truncate (env_cache E) (fd_cache ?f) (tx_Size tx) = Some c" "cache_ok (env_cache E) c"
      using Truncate_ok [OF f(1) sz] by blast
    obtain l where l: "(if tx_Size tx < Size (fd_cache ?f) then truncate_load (fd_load ?f) (tx_Size tx)
        else Some (fd_load ?f)) = Some l"
      using assms(4) Some by (auto simp: ApplyLiveTx_start_def Let_def split: if_splits option.splits)
    have "load_ok l" using l f(2) load_ok_truncate sz(2) by (auto split: if_splits)
    moreover have "s' = set_file ?s1 r (?f\<lparr>fd_load := l, fd_cache := c\<rparr>)"
      "t = Some (Patching r tx [0..<length (tx_Checksums tx)])"
      using assms(4) Some l c(1) by (auto simp: ApplyLiveTx_start_def Let_def split: if_splits)
    ultimately show ?thesis
      using s1 c(2) r fs_ok_set_file [OF s1, of "?f\<lparr>fd_load := l, fd_cache := c\<rparr>" r] by (simp add: file_ok_def)
  qed
qed

lemma live_delete_ok:
  assumes "fs_ok E s" "live_delete E path s = Ret s' u js"
  shows "fs_ok E s'" and "length (fs_heap s') = length (fs_heap s)"
proof -
  let ?s1 = "s\<lparr>fs_db := db_Delete (env_db E) (fs_db s) path\<rparr>"
  have "fs_ok E ?s1" using fs_ok_delete [OF assms(1)] .
  then have "fs_ok E (?s1\<lparr>fs_open := go_del (fs_open s) path\<rparr>)"
    using fs_okD(3) [OF assms(1)] by (intro fs_ok_open) simp_all
  then show "fs_ok E s'" "length (fs_heap s') = length (fs_heap s)"
    using assms(2) by (auto simp: live_delete_def split: if_splits)
qed

lemma rename_step_ok:
  assumes "fs_ok E s" "renaming_ok m" "rename_step E m s = Ret s' m' js"
  shows "fs_ok E s' \<and> (\<forall>m \<in> set (opt_list m'). renaming_ok m) \<and> (\<forall>j \<in> set js. \<forall>n. job_ok n j)"
proof (cases m)
  case (Checking old new)
  then show ?thesis
    using assms(3) rename_check_ok [OF assms(1), of old new] rename_check_tx [OF assms(1), of old new]
    by (auto simp: rename_check_def split: option.splits if_splits)
next
  case (Checked old new tx)
  then show ?thesis
    using assms(2,3) rename_send_ok [OF assms(1), of tx old new] rename_send_tx [of E old new tx s]
    by (auto simp: rename_send_def Let_def split: if_splits)
next
  case (Sent old new tx)
  then show ?thesis
    using assms(2,3) rename_store_ok [OF assms(1), of tx old new]
    by (auto simp: rename_store_def split: if_splits)
qed

lemma sys_ok_step:
  assumes "sys_ok E y" "sys_step E y z"
  shows "sys_ok E z"
  using assms(2)
proof (cases rule: sys_stepE [consumes 1])
  case (1 q)
  then show ?thesis using sys_ok_call [OF assms(1)] by simp
next
  case (2 j s' t)
  have "fs_ok E (sy_fs y)" "job_ok (length (fs_heap (sy_fs y))) j"
    using assms(1) "2"(2) by (simp_all add: sys_ok_def)
  from start_job_ok [OF this "2"(3)] show ?thesis
    unfolding "2"(1) using set_remove1_subset [of j "sy_jobs y"]
    by (intro sys_ok_update [OF assms(1)]) auto
next
  case (3 t net s' t' js)
  have "env_ok E" "fs_ok E (sy_fs y)" "task_ok (length (fs_heap (sy_fs y))) t"
    using assms(1) "3"(2) by (simp_all add: sys_ok_def)
  from task_step_ok [OF this "3"(3,4)] show ?thesis
    using sys_ok_update [OF assms(1), of s' "sy_jobs y" "remove1 t (sy_tasks y) @ opt_list t'"]
      set_remove1_subset [of t "sy_tasks y"]
    unfolding "3"(1) by auto
next
  case (4 tx path s' t js)
  have "env_ok E" "fs_ok E (sy_fs y)" using assms(1) by (simp_all add: sys_ok_def)
  from ApplyLiveTx_start_ok [OF this "4"(2,3)] show ?thesis
    using sys_ok_update [OF assms(1), of s' "sy_jobs y" "sy_tasks y @ opt_list t"]
    unfolding "4"(1) by auto
next
  case (5 path s' js)
  have "fs_ok E (sy_fs y)" using assms(1) by (simp add: sys_ok_def)
  from live_delete_ok [OF this "5"(2)] show ?thesis
    using sys_ok_update [OF assms(1), of s' "sy_jobs y" "sy_tasks y"]
    unfolding "5"(1) by simp
next
  case (6 old new)
  then show ?thesis using assms(1) by (auto simp: sys_ok_def)
next
  case (7 m s' m' js)
  have "fs_ok E (sy_fs y)" "renaming_ok m" using assms(1) "7"(2) by (auto simp: sys_ok_def)
  note k = rename_step_ok [OF this "7"(3)] rename_step_heap [OF "7"(3)]
  show ?thesis
    unfolding "7"(1) using assms(1) k set_remove1_subset [of m "sy_renames y"]
    by (auto simp: sys_ok_def)
qed

interpretation fs_machine: machine "sys_step E" "sys_ok E" for E
  by unfold_locales (rule sys_ok_step)

text \<open>A file system that has just been set up, on a database of well-formed transactions.\<close>

definition boot :: "'t Dsfs \<Rightarrow> 't sys" where
  "boot s = \<lparr>sy_fs = s, sy_renames = [], sy_jobs = [], sy_tasks = []\<rparr>"

lemma boot_ok:
  assumes "env_ok E" "db_ok (env_db E) d" "\<And>k tx. db_Get (env_db E) d k = Some tx \<Longrightarrow> tx_ok tx"
  shows "sys_ok E (boot (NewDsfs d txc datac ct))"
  using assms by (simp add: boot_def sys_ok_def fs_ok_def NewDsfs_def get_def)

section \<open>An uninterrupted rename\<close>

lemma rename_turn:
  assumes "reaches (sys_step E) y0 (y\<lparr>sy_renames := rs @ [m]\<rparr>)" "rename_step E m (sy_fs y) = Ret s' m' js"
    and "m \<notin> set rs"
  shows "reaches (sys_step E) y0 (y\<lparr>sy_fs := s', sy_jobs := sy_jobs y @ js, sy_renames := rs @ opt_list m'\<rparr>)"
proof -
  have "sys_step E (y\<lparr>sy_renames := rs @ [m]\<rparr>)
      (y\<lparr>sy_fs := s', sy_jobs := sy_jobs y @ js, sy_renames := rs @ opt_list m'\<rparr>)"
    using sys_step.rename [of m "y\<lparr>sy_renames := rs @ [m]\<rparr>" E s' m' js] assms(2,3)
    by (simp add: remove1_append)
  with assms(1) show ?thesis by (rule there)
qed

text \<open>Each outcome of \<open>Rename\<close> is that of a run of its parts with nothing in between.\<close>

lemma Rename_run:
  assumes "old \<notin> rn_old ` set (sy_renames y)" "Rename E old new (sy_fs y) = Ret s' r js"
  shows "reaches (sys_step E) y (y\<lparr>sy_fs := s', sy_jobs := sy_jobs y @ js\<rparr>)"
proof -
  let ?rs = "sy_renames y"
  have no: "Checking old new \<notin> set ?rs" "Checked old new tx \<notin> set ?rs" "Sent old new tx \<notin> set ?rs" for tx
    using assms(1) by force+
  have 0: "reaches (sys_step E) y (y\<lparr>sy_renames := ?rs @ [Checking old new]\<rparr>)"
    using there [OF here, of "sys_step E" y] sys_step.rename_call [OF assms(1)] by blast
  note R = assms(2) [unfolded Rename_sections]
  obtain s1 x where 1: "rename_check E old new (sy_fs y) = Ret s1 x []"
    using R by (auto simp: rename_check_def split: option.splits if_splits)
  show ?thesis
  proof (cases x)
    case (Inl r1)
    then show ?thesis using rename_turn [OF 0 _ no(1), of s1 None "[]"] 1 R by simp
  next
    case (Inr tx0)
    let ?y1 = "y\<lparr>sy_fs := s1\<rparr>"
    have r1: "reaches (sys_step E) y (?y1\<lparr>sy_renames := ?rs @ [Checked old new tx0]\<rparr>)"
      using rename_turn [OF 0 _ no(1), of s1 "Some (Checked old new tx0)" "[]"] 1 Inr by simp
    obtain s2 x2 js2 where 2: "rename_send E old new tx0 s1 = Ret s2 x2 js2"
      using R 1 Inr by (cases "rename_send E old new tx0 s1") simp_all
    show ?thesis
    proof (cases x2)
      case (Inl r2)
      then show ?thesis using rename_turn [OF r1 _ no(2), of s2 None js2] 1 2 Inr R by simp
    next
      case (Inr tx)
      let ?y2 = "y\<lparr>sy_fs := s2, sy_jobs := sy_jobs y @ js2\<rparr>"
      have r2: "reaches (sys_step E) y (?y2\<lparr>sy_renames := ?rs @ [Sent old new tx]\<rparr>)"
        using rename_turn [OF r1 _ no(2), of s2 "Some (Sent old new tx)" js2] 2 Inr by simp
      obtain s3 r3 where "rename_store E old new tx s2 = Ret s3 r3 []"
        using 1 2 Inr \<open>x = Inr tx0\<close> R by (auto simp: rename_store_def split: if_splits)
      then show ?thesis using rename_turn [OF r2 _ no(3), of s3 None "[]"] 1 2 Inr \<open>x = Inr tx0\<close> R by simp
    qed
  qed
qed

end
