(* ===== verification/WriterQueue.thy ===== *)
theory WriterQueue
  imports FsSystem
begin

text \<open>
  The file \<open>writer.go\<close>: the goroutine \<open>processQueue\<close> that gathers the items of a queue into
  batches and sends each batch as one message with a file per item. Its local variables are
  \<open>WriterState\<close>; a turn of its inner loop receives an item (\<open>on_item\<close>) or sees the timer
  (\<open>on_after\<close>), and \<open>flush\<close> is the rest of the outer loop. The fields \<open>ws_recv\<close> and
  \<open>ws_done\<close> record what was received from the queue and what was answered on the items'
  channels; the code does not keep them.

  The answer of \<open>ChannelMessageSendComplex\<close> is a parameter of \<open>flush\<close>: the ids of the
  attachments, or an error. A channel is a number. \<open>SendTx\<close> and \<open>SendData\<close> put an item on
  the respective queue and wait for its answer.
\<close>

record QueueItem =
  qi_channel :: nat
  qi_data :: bytes

datatype QueueResult = SendError | FileID string

record WriterState =
  ws_items :: "QueueItem list"
  ws_onhold :: "QueueItem list"
  ws_loop :: bool
  ws_i :: nat
  ws_totalSize :: int
  ws_recv :: "QueueItem list"
  ws_done :: "(QueueItem \<times> QueueResult) list"

text \<open>\<open>items := onhold; onhold = nil\<close> and the initialisation of the inner loop.\<close>

definition round_start :: "WriterState \<Rightarrow> WriterState" where
  "round_start w = w\<lparr>ws_items := ws_onhold w, ws_onhold := [], ws_loop := True, ws_i := 0, ws_totalSize := 0\<rparr>"

definition setupWriter :: WriterState where
  "setupWriter = round_start \<lparr>ws_items = [], ws_onhold = [], ws_loop = False, ws_i = 0, ws_totalSize = 0,
     ws_recv = [], ws_done = []\<rparr>"

definition gathering :: "WriterState \<Rightarrow> bool" where
  "gathering w \<longleftrightarrow> ws_loop w \<and> ws_i w < MaxDiscordFileCount"

definition on_item :: "QueueItem \<Rightarrow> WriterState \<Rightarrow> WriterState" where
  "on_item item w =
     (let totalSize = ws_totalSize w + int (length (qi_data item));
          w' = w\<lparr>ws_totalSize := totalSize, ws_i := ws_i w + 1, ws_recv := ws_recv w @ [item]\<rparr>
      in if MaxDiscordFileSize < totalSize
         then w'\<lparr>ws_onhold := ws_onhold w @ [item], ws_loop := False\<rparr>
         else w'\<lparr>ws_items := ws_items w @ [item]\<rparr>)"

definition on_after :: "WriterState \<Rightarrow> WriterState" where
  "on_after w = w\<lparr>ws_loop := False, ws_i := ws_i w + 1\<rparr>"

text \<open>
  The answers of a batch, \<open>None\<close> when the message came back with fewer attachments than it
  was sent with, which panics.
\<close>

definition answers :: "string list option \<Rightarrow> QueueItem list \<Rightarrow> (QueueItem \<times> QueueResult) list option" where
  "answers sent items = (case sent of
     None \<Rightarrow> Some (map (\<lambda>item. (item, SendError)) items)
   | Some ids \<Rightarrow>
       if length ids < length items then None
       else Some (map (\<lambda>i. (items ! i, FileID (ids ! i))) [0..<length items]))"

definition flush :: "string list option \<Rightarrow> WriterState \<Rightarrow> WriterState option" where
  "flush sent w =
     (if ws_items w = [] then Some (round_start w)
      else (case answers sent (ws_items w) of
              None \<Rightarrow> None
            | Some replies \<Rightarrow> Some (round_start (w\<lparr>ws_done := ws_done w @ replies\<rparr>))))"

inductive writer_step :: "WriterState \<Rightarrow> WriterState \<Rightarrow> bool" where
  recv: "gathering w \<Longrightarrow> writer_step w (on_item item w)"
| timeout: "gathering w \<Longrightarrow> writer_step w (on_after w)"
| sends: "\<not> gathering w \<Longrightarrow> flush sent w = Some w' \<Longrightarrow> writer_step w w'"

inductive_cases writer_stepE: "writer_step w w'"

section \<open>The invariant\<close>

text \<open>
  Nothing is lost, doubled or reordered; at most one item waits for the next round; the
  items received in this round fit the size limit, and the batch holds at most one more
  than their number.
\<close>

definition writer_inv :: "WriterState \<Rightarrow> bool" where
  "writer_inv w \<longleftrightarrow>
     map fst (ws_done w) @ ws_items w @ ws_onhold w = ws_recv w \<and>
     length (ws_onhold w) \<le> 1 \<and> (ws_loop w \<longrightarrow> ws_onhold w = []) \<and>
     ws_i w \<le> MaxDiscordFileCount \<and>
     length (ws_items w) + length (ws_onhold w) \<le> Suc (ws_i w) \<and>
     (ws_loop w \<longrightarrow> 0 \<le> ws_totalSize w \<and> ws_totalSize w \<le> MaxDiscordFileSize)"

lemma writer_inv_start: "writer_inv setupWriter"
  by (simp add: writer_inv_def setupWriter_def round_start_def MaxDiscordFileSize_def)

lemma answers_items: "answers sent items = Some rs \<Longrightarrow> map fst rs = items"
  by (auto simp: answers_def comp_def map_nth split: option.splits if_splits)

lemma writer_inv_item:
  "writer_inv w \<Longrightarrow> gathering w \<Longrightarrow> writer_inv (on_item item w)"
  by (auto simp: writer_inv_def gathering_def on_item_def Let_def)

lemma writer_inv_after:
  "writer_inv w \<Longrightarrow> gathering w \<Longrightarrow> writer_inv (on_after w)"
  by (auto simp: writer_inv_def gathering_def on_after_def)

lemma writer_inv_flush:
  assumes "writer_inv w" "flush sent w = Some w'"
  shows "writer_inv w'"
proof (cases "ws_items w = []")
  case True
  then show ?thesis
    using assms by (auto simp: flush_def writer_inv_def round_start_def MaxDiscordFileSize_def)
next
  case False
  then obtain rs where rs: "answers sent (ws_items w) = Some rs"
    "w' = round_start (w\<lparr>ws_done := ws_done w @ rs\<rparr>)"
    using assms(2) by (auto simp: flush_def split: option.splits)
  show ?thesis
    using assms(1) answers_items [OF rs(1)]
    by (auto simp: rs(2) writer_inv_def round_start_def MaxDiscordFileSize_def)
qed

lemma writer_inv_step: "writer_inv w \<Longrightarrow> writer_step w w' \<Longrightarrow> writer_inv w'"
  by (erule writer_stepE) (auto intro: writer_inv_item writer_inv_after writer_inv_flush)

interpretation writer_machine: machine writer_step writer_inv
  by unfold_locales (rule writer_inv_step)

section \<open>A round ends\<close>

text \<open>What the \<open>select\<close> delivers.\<close>

datatype select = Item QueueItem | After

fun on_select :: "select \<Rightarrow> WriterState \<Rightarrow> WriterState" where
  "on_select (Item item) w = on_item item w"
| "on_select After w = on_after w"

lemma on_select_i: "ws_i (on_select e w) = Suc (ws_i w)"
  by (cases e) (simp_all add: on_item_def on_after_def Let_def)

lemma selects_i: "ws_i (fold on_select es w) = length es + ws_i w"
  by (induction es arbitrary: w) (simp_all add: on_select_i)

text \<open>The inner loop: select until it is done gathering.\<close>

fun gather :: "select list \<Rightarrow> WriterState \<Rightarrow> WriterState" where
  "gather [] w = w"
| "gather (e # es) w = (if gathering w then gather es (on_select e w) else w)"

lemma gather_ends: "MaxDiscordFileCount \<le> length es + ws_i w \<Longrightarrow> \<not> gathering (gather es w)"
proof (induction es arbitrary: w)
  case Nil
  then show ?case by (simp add: gathering_def)
next
  case (Cons e es)
  then show ?case by (simp add: on_select_i)
qed

lemma gather_reaches: "reaches writer_step w0 w \<Longrightarrow> reaches writer_step w0 (gather es w)"
proof (induction es arbitrary: w)
  case (Cons e es)
  have "gathering w \<Longrightarrow> writer_step w (on_select e w)"
    by (cases e) (auto intro: writer_step.intros)
  then show ?case using Cons reaches.there by (metis gather.simps(2))
qed simp

end
