(* ===== verification/TxLog.thy ===== *)
theory TxLog
  imports Sync
begin

text \<open>
  The transaction log: the second part of \<open>db.go\<close> (the channels, the replay of the log at
  start-up, its compaction) and \<open>applyMessageTxs\<close> and \<open>messageCreate\<close> of \<open>tx.go\<close>. A message
  carries attachments, an attachment one transaction per line.

  Parameters: \<open>http\<close> is the body of an attachment by its URL, \<open>um\<close> the JSON decoder on an
  empty transaction, \<open>fetch\<close> a page of the channel's messages after a message id, newest
  first, \<open>send\<close> the id of the message sent as the n-th, \<open>pin\<close> and \<open>unpin\<close> whether the
  respective request succeeds.
\<close>

abbreviation newline :: char where
  "newline \<equiv> CHR 0x0A"

section \<open>Lines\<close>

text \<open>
  \<open>bufio.ScanLines\<close> with the default buffer of 64 KB: lines without their end, the last one
  only if it is not empty; scanning stops for good at a line that does not fit.
\<close>

definition MaxScanTokenSize :: nat where
  "MaxScanTokenSize = 65536"

definition drop_cr :: "string \<Rightarrow> string" where
  "drop_cr l = (if l \<noteq> [] \<and> last l = CHR 0x0D then butlast l else l)"

definition raw_lines :: "bytes \<Rightarrow> string list" where
  "raw_lines data =
     (let ls = split_on (\<lambda>c. c = newline) data in if last ls = [] then butlast ls else ls)"

definition scan_lines :: "bytes \<Rightarrow> string list" where
  "scan_lines data = map drop_cr (takeWhile (\<lambda>l. length l < MaxScanTokenSize) (raw_lines data))"

text \<open>\<open>ReadBytes('\n')\<close> until the end: the lines with their ends.\<close>

definition read_lines :: "bytes \<Rightarrow> bytes list" where
  "read_lines data = map (\<lambda>l. l @ [newline]) (butlast (split_on (\<lambda>c. c = newline) data))"

section \<open>Replay\<close>

record Message =
  msg_ID :: string
  msg_Author :: string
  msg_Channel :: string
  msg_URLs :: "string list"

text \<open>One line, not live: the new database, and whether the line goes to the buffer.\<close>

definition apply_line ::
    "'t env \<Rightarrow> (string \<Rightarrow> Tx option) \<Rightarrow> string \<Rightarrow> 't DB \<times> bytes \<Rightarrow> 't DB \<times> bytes" where
  "apply_line E um line st = (case st of (d, buffer) \<Rightarrow>
     if line = [] then (d, buffer)
     else (case um line of
       None \<Rightarrow> (d, buffer)
     | Some tx \<Rightarrow>
         if tx_Tx tx = WriteTx
         then (db_Insert (env_db E) d (tx_Path tx) tx, buffer @ line @ [newline])
         else if tx_Tx tx = DeleteTx
         then (db_Delete (env_db E) d (tx_Path tx), buffer @ line @ [newline])
         else (d, buffer)))"

definition apply_file ::
    "'t env \<Rightarrow> (string \<Rightarrow> Tx option) \<Rightarrow> (string \<Rightarrow> bytes option) \<Rightarrow> string \<Rightarrow> 't DB \<times> bytes \<Rightarrow> 't DB \<times> bytes" where
  "apply_file E um http url st = (case http url of
     None \<Rightarrow> st
   | Some data \<Rightarrow> fold (apply_line E um) (scan_lines data) st)"

text \<open>\<open>applyMessageTxs\<close> without a buffer is the same with the buffer ignored.\<close>

definition applyMessageTxs ::
    "'t env \<Rightarrow> (string \<Rightarrow> Tx option) \<Rightarrow> (string \<Rightarrow> bytes option) \<Rightarrow> Message list \<Rightarrow> 't DB \<times> bytes \<Rightarrow> 't DB \<times> bytes" where
  "applyMessageTxs E um http ms st =
     fold (\<lambda>m st. fold (apply_file E um http) (msg_URLs m) st) ms st"

text \<open>The live case, on the running file system; an error of \<open>ApplyLiveTx\<close> is only logged.\<close>

definition live_line ::
    "'t env \<Rightarrow> (string \<Rightarrow> Tx option) \<Rightarrow> net \<Rightarrow> string \<Rightarrow> 't Dsfs \<Rightarrow> ('t Dsfs, unit, job) outcome" where
  "live_line E um net line s =
     (if line = [] then Ret s () []
      else (case um line of
        None \<Rightarrow> Ret s () []
      | Some tx \<Rightarrow>
          if tx_Tx tx = WriteTx then
            (case ApplyLiveTx_start E (tx_Path tx) tx s of
               Ret s' None js \<Rightarrow> Ret s' () []
             | Ret s' (Some t) js \<Rightarrow> run_task E net t s'
             | Panics s' \<Rightarrow> Panics s'
             | Blocks \<Rightarrow> Blocks)
          else if tx_Tx tx = DeleteTx then live_delete E (tx_Path tx) s
          else Ret s () []))"

definition then_do ::
    "('t Dsfs, unit, job) outcome \<Rightarrow> ('t Dsfs \<Rightarrow> ('t Dsfs, unit, job) outcome) \<Rightarrow> ('t Dsfs, unit, job) outcome" where
  "then_do out f = (case out of Ret s u js \<Rightarrow> f s | Panics s \<Rightarrow> Panics s | Blocks \<Rightarrow> Blocks)"

definition applyMessageTxs_live ::
    "'t env \<Rightarrow> (string \<Rightarrow> Tx option) \<Rightarrow> (string \<Rightarrow> bytes option) \<Rightarrow> net \<Rightarrow> Message list \<Rightarrow> 't Dsfs \<Rightarrow>
     ('t Dsfs, unit, job) outcome" where
  "applyMessageTxs_live E um http net ms s =
     fold (\<lambda>m out. fold (\<lambda>url out. case http url of
         None \<Rightarrow> out
       | Some data \<Rightarrow> fold (\<lambda>line out. then_do out (live_line E um net line)) (scan_lines data) out)
       (msg_URLs m) out) ms (Ret s () [])"

definition messageCreate ::
    "'t env \<Rightarrow> (string \<Rightarrow> Tx option) \<Rightarrow> (string \<Rightarrow> bytes option) \<Rightarrow> net \<Rightarrow> bool \<Rightarrow> string \<Rightarrow> Message \<Rightarrow> 't Dsfs \<Rightarrow>
     ('t Dsfs, unit, job) outcome" where
  "messageCreate E um http net dsfsReady self m s =
     (if \<not> dsfsReady then Ret s () []
      else if msg_Author m = self \<or> msg_Channel m \<noteq> fs_txChannel s then Ret s () []
      else applyMessageTxs_live E um http net [m] s)"

section \<open>Channels\<close>

record Channel =
  ch_ID :: string
  ch_Name :: string

text \<open>
  The channels by name: of several with one name the last. Missing ones are created, in the
  order \<open>ord\<close> of the map; the result is the transaction channel and the data channel.
\<close>

definition find_channel :: "Channel list \<Rightarrow> string \<Rightarrow> Channel option" where
  "find_channel chans name = fold (\<lambda>c found. if ch_Name c = name then Some c else found) chans None"

definition channel_for :: "Channel list \<Rightarrow> (string \<Rightarrow> Channel option) \<Rightarrow> string \<Rightarrow> Channel option" where
  "channel_for chans create name =
     (case find_channel chans name of Some c \<Rightarrow> Some c | None \<Rightarrow> create name)"

definition prepareChannels ::
    "Channel list option \<Rightarrow> (string \<Rightarrow> Channel option) \<Rightarrow> (Channel \<times> Channel) option" where
  "prepareChannels chans create = (case chans of
     None \<Rightarrow> None
   | Some cs \<Rightarrow>
       (case (channel_for cs create TxChannelName, channel_for cs create DataChannelName) of
          (Some t, Some d) \<Rightarrow> Some (t, d)
        | _ \<Rightarrow> None))"

section \<open>Start-up\<close>

text \<open>
  The pages of messages after the pinned one. \<open>Inl\<close> is a network error; \<open>None\<close> is a loop
  that has not ended with the given fuel.
\<close>

fun fetch_all ::
    "nat \<Rightarrow> (string \<Rightarrow> Message list option) \<Rightarrow> Message list \<Rightarrow> (unit + Message list) option" where
  "fetch_all 0 fetch messages = None"
| "fetch_all (Suc fuel) fetch messages = (case fetch (msg_ID (last messages)) of
     None \<Rightarrow> Some (Inl ())
   | Some batch \<Rightarrow>
       if batch = [] then Some (Inr messages)
       else
         let messages' = messages @ rev batch in
         if length batch \<noteq> MaxDiscordMessageRequest then Some (Inr messages')
         else fetch_all fuel fetch messages')"

text \<open>
  The compaction: the buffer of the next message, the first message sent, the bodies of all
  sent, and whether sending one has failed, which ends the compaction.
\<close>

record Compaction =
  co_buffer :: bytes
  co_first :: "string option"
  co_sent :: "bytes list"
  co_failed :: bool

definition co_send :: "(nat \<Rightarrow> bytes \<Rightarrow> string option) \<Rightarrow> Compaction \<Rightarrow> Compaction" where
  "co_send send c = (case send (length (co_sent c)) (co_buffer c) of
     None \<Rightarrow> c\<lparr>co_failed := True\<rparr>
   | Some m \<Rightarrow> c\<lparr>co_first := (case co_first c of None \<Rightarrow> Some m | Some f \<Rightarrow> Some f),
                 co_sent := co_sent c @ [co_buffer c]\<rparr>)"

fun compact_loop :: "(nat \<Rightarrow> bytes \<Rightarrow> string option) \<Rightarrow> bytes list \<Rightarrow> Compaction \<Rightarrow> Compaction" where
  "compact_loop send [] c = c"
| "compact_loop send (b # bs) c =
     (if MaxDiscordFileSize < int (length (co_buffer c) + length b) then
        (let c' = co_send send c in
         if co_failed c' then c' else compact_loop send bs (c'\<lparr>co_buffer := []\<rparr>))
      else compact_loop send bs (c\<lparr>co_buffer := co_buffer c @ b\<rparr>))"

definition compact_txs :: "(nat \<Rightarrow> bytes \<Rightarrow> string option) \<Rightarrow> bytes \<Rightarrow> Compaction" where
  "compact_txs send txBuffer =
     (let c = compact_loop send (read_lines txBuffer)
                \<lparr>co_buffer = [], co_first = None, co_sent = [], co_failed = False\<rparr>
      in if co_failed c \<or> co_buffer c = [] then c else co_send send c)"

text \<open>What start-up does to the transaction channel, besides the messages it sends.\<close>

datatype pin_action = Pinned string | Unpinned string

definition repin :: "(string \<Rightarrow> bool) \<Rightarrow> (string \<Rightarrow> bool) \<Rightarrow> string \<Rightarrow> Compaction \<Rightarrow> pin_action list" where
  "repin pin unpin oldPin c = (case co_first c of
     None \<Rightarrow> []
   | Some m \<Rightarrow> if co_failed c then [] else if \<not> pin m then [] else if \<not> unpin oldPin then [Pinned m] else [Pinned m, Unpinned oldPin])"

definition rootTx :: Tx where
  "rootTx = folderTx [slash]"

text \<open>
  \<open>setupDB\<close>. \<open>pins\<close> is the answer to the request for the pinned messages, when
  the channel has a pin time. The result is the database, the bodies of the messages sent
  and the changes of pins; \<open>Inl\<close> is an error.
\<close>

record 't started =
  su_db :: "'t DB"
  su_sent :: "bytes list"
  su_pins :: "pin_action list"

definition setup_compact ::
    "(nat \<Rightarrow> bytes \<Rightarrow> string option) \<Rightarrow> (string \<Rightarrow> bool) \<Rightarrow> (string \<Rightarrow> bool) \<Rightarrow> bool \<Rightarrow> string \<Rightarrow> bytes \<Rightarrow> 't DB \<Rightarrow> 't started" where
  "setup_compact send pin unpin compact oldPin txBuffer d =
     (if \<not> compact then \<lparr>su_db = d, su_sent = [], su_pins = []\<rparr>
      else (let c = compact_txs send txBuffer in
        \<lparr>su_db = d, su_sent = co_sent c, su_pins = repin pin unpin oldPin c\<rparr>))"

definition setupDB ::
    "'t env \<Rightarrow> (string \<Rightarrow> Tx option) \<Rightarrow> (string \<Rightarrow> bytes option) \<Rightarrow> (string \<Rightarrow> Message list option) \<Rightarrow>
     (nat \<Rightarrow> bytes \<Rightarrow> string option) \<Rightarrow> (string \<Rightarrow> bool) \<Rightarrow> (string \<Rightarrow> bool) \<Rightarrow> nat \<Rightarrow>
     bool \<Rightarrow> Message list option \<Rightarrow> bool \<Rightarrow> 't DB \<Rightarrow> (unit + 't started) option" where
  "setupDB E um http fetch send pin unpin fuel hasPinTime pins compact d =
     (if hasPinTime then
        (case pins of
           None \<Rightarrow> Some (Inl ())
         | Some pinnedMsgs \<Rightarrow>
             if pinnedMsgs = [] then Some (Inl ())
             else (case fetch_all fuel fetch [last pinnedMsgs] of
               None \<Rightarrow> None
             | Some (Inl e) \<Rightarrow> Some (Inl ())
             | Some (Inr messages) \<Rightarrow>
                 (case applyMessageTxs E um http messages (d, []) of
                    (d', txBuffer) \<Rightarrow>
                      Some (Inr (setup_compact send pin unpin compact (msg_ID (last pinnedMsgs)) txBuffer d')))))
      else
        let d' = db_Insert (env_db E) d [slash] rootTx; b = env_marshal E rootTx in
        (case send 0 b of
           None \<Rightarrow> Some (Inl ())
         | Some m \<Rightarrow>
             if \<not> pin m then Some (Inl ())
             else Some (Inr (\<lparr>su_db = d', su_sent = [b], su_pins = [Pinned m]\<rparr>))))"

end
