(* ===== verification/TxReplay.thy ===== *)
theory TxReplay
  imports TxLog GoPath
begin

text \<open>
  What the replay of the log computes: for each path the last transaction on it decides;
  the pages of the channel are read to their end; a compaction that fits one message
  replays to the same database.
\<close>

section \<open>Lines\<close>

text \<open>A line the scanner gives back as it was written.\<close>

definition good_line :: "string \<Rightarrow> bool" where
  "good_line l \<longleftrightarrow> newline \<notin> set l \<and> (l = [] \<or> last l \<noteq> CHR 0x0D) \<and> length l < MaxScanTokenSize"

definition join_lines :: "string list \<Rightarrow> bytes" where
  "join_lines ls = concat (map (\<lambda>l. l @ [newline]) ls)"

lemma join_lines_simps [simp]:
  "join_lines [] = []" "join_lines (l # ls) = l @ newline # join_lines ls"
  "join_lines (xs @ ys) = join_lines xs @ join_lines ys"
  by (simp_all add: join_lines_def)

lemma split_join_lines:
  "\<forall>l \<in> set ls. newline \<notin> set l \<Longrightarrow> split_on (\<lambda>c. c = newline) (join_lines ls) = ls @ [[]]"
proof (induction ls)
  case (Cons l ls)
  have "\<forall>c \<in> set l. c \<noteq> newline" using Cons.prems by auto
  then show ?case using Cons by (simp add: split_on_word)
qed simp

lemma raw_lines_join: "\<forall>l \<in> set ls. newline \<notin> set l \<Longrightarrow> raw_lines (join_lines ls) = ls"
  by (simp add: raw_lines_def split_join_lines)

lemma read_lines_join: "\<forall>l \<in> set ls. newline \<notin> set l \<Longrightarrow> read_lines (join_lines ls) = map (\<lambda>l. l @ [newline]) ls"
  by (simp add: read_lines_def split_join_lines)

lemma drop_cr_good: "good_line l \<Longrightarrow> drop_cr l = l"
  by (auto simp: good_line_def drop_cr_def)

lemma scan_join_lines:
  assumes "\<forall>l \<in> set ls. good_line l"
  shows "scan_lines (join_lines ls) = ls"
proof -
  have "raw_lines (join_lines ls) = ls" using assms by (intro raw_lines_join) (simp add: good_line_def)
  moreover have "takeWhile (\<lambda>l. length l < MaxScanTokenSize) ls = ls"
    using assms by (auto simp: takeWhile_eq_all_conv good_line_def)
  moreover have "map drop_cr ls = ls" using assms drop_cr_good by (simp add: map_idI)
  ultimately show ?thesis by (simp only: scan_lines_def)
qed

text \<open>A line that is too long hides the ones after it.\<close>

lemma scan_stops:
  assumes "\<forall>l \<in> set ls. good_line l" "newline \<notin> set long" "MaxScanTokenSize \<le> length long"
    and "\<forall>l \<in> set ls'. newline \<notin> set l"
  shows "scan_lines (join_lines (ls @ long # ls')) = ls"
proof -
  have "raw_lines (join_lines (ls @ long # ls')) = ls @ long # ls'"
    using assms by (intro raw_lines_join) (auto simp: good_line_def)
  moreover have "takeWhile (\<lambda>l. length l < MaxScanTokenSize) (ls @ long # ls') = ls"
    using assms by (subst takeWhile_append2) (auto simp: good_line_def)
  moreover have "map drop_cr ls = ls" using assms drop_cr_good by (simp add: map_idI)
  ultimately show ?thesis by (simp only: scan_lines_def)
qed

section \<open>Replay\<close>

definition known :: "Tx \<Rightarrow> bool" where
  "known tx \<longleftrightarrow> tx_Tx tx = WriteTx \<or> tx_Tx tx = DeleteTx"

text \<open>The lines that count, and their transactions.\<close>

definition valid_line :: "(string \<Rightarrow> Tx option) \<Rightarrow> string \<Rightarrow> bool" where
  "valid_line um l \<longleftrightarrow> l \<noteq> [] \<and> (case um l of None \<Rightarrow> False | Some tx \<Rightarrow> known tx)"

definition log_txs :: "(string \<Rightarrow> Tx option) \<Rightarrow> string list \<Rightarrow> Tx list" where
  "log_txs um ls = map (\<lambda>l. the (um l)) (filter (valid_line um) ls)"

lemma log_txs_append: "log_txs um (xs @ ys) = log_txs um xs @ log_txs um ys"
  by (simp add: log_txs_def)

definition all_lines :: "(string \<Rightarrow> bytes option) \<Rightarrow> Message list \<Rightarrow> string list" where
  "all_lines http ms = concat (map (\<lambda>m. concat (map (\<lambda>u. case http u of
     None \<Rightarrow> [] | Some data \<Rightarrow> scan_lines data) (msg_URLs m))) ms)"

text \<open>The specification: what the last transaction on a path makes of it.\<close>

definition outcome_for :: "string \<Rightarrow> Tx list \<Rightarrow> Tx option \<Rightarrow> Tx option" where
  "outcome_for p txs old = (case find (\<lambda>tx. tx_Path tx = p) (rev txs) of
     None \<Rightarrow> old
   | Some tx \<Rightarrow> if tx_Tx tx = WriteTx then Some tx else None)"

definition tx_effect :: "'t env \<Rightarrow> Tx \<Rightarrow> 't DB \<Rightarrow> 't DB" where
  "tx_effect E tx d = (if tx_Tx tx = WriteTx then db_Insert (env_db E) d (tx_Path tx) tx
     else db_Delete (env_db E) d (tx_Path tx))"

lemma apply_line_valid:
  "apply_line E um l (d, buffer) =
     (if valid_line um l then (tx_effect E (the (um l)) d, buffer @ l @ [newline]) else (d, buffer))"
  by (auto simp: apply_line_def valid_line_def known_def tx_effect_def split: option.splits)

lemma apply_lines:
  "fold (apply_line E um) ls (d, buffer) =
     (fold (tx_effect E) (log_txs um ls) d, buffer @ join_lines (filter (valid_line um) ls))"
  by (induction ls arbitrary: d buffer) (simp_all add: apply_line_valid log_txs_def)

lemma fold_concat: "fold f (concat xss) s = fold (fold f) xss s"
  by (induction xss arbitrary: s) simp_all

lemma applyMessageTxs_lines:
  "applyMessageTxs E um http ms st = fold (apply_line E um) (all_lines http ms) st"
proof -
  have "apply_file E um http = (\<lambda>u. fold (apply_line E um) (case http u of None \<Rightarrow> [] | Some data \<Rightarrow> scan_lines data))"
    by (auto simp: apply_file_def fun_eq_iff split: option.splits)
  then have "fold (apply_file E um http) us st = fold (apply_line E um)
      (concat (map (\<lambda>u. case http u of None \<Rightarrow> [] | Some data \<Rightarrow> scan_lines data) us)) st" for us st
    by (induction us arbitrary: st) simp_all
  then show ?thesis
    unfolding applyMessageTxs_def all_lines_def by (induction ms arbitrary: st) simp_all
qed

lemma tx_effect_ok: "db_ok (env_db E) d \<Longrightarrow> db_ok (env_db E) (tx_effect E tx d)"
  by (simp add: tx_effect_def anydb.ok_insert anydb.ok_delete)

lemma tx_effects_ok: "db_ok (env_db E) d \<Longrightarrow> db_ok (env_db E) (fold (tx_effect E) txs d)"
  by (induction txs arbitrary: d) (simp_all add: tx_effect_ok)

lemma outcome_for_snoc:
  "outcome_for p (txs @ [tx]) old =
     (if tx_Path tx = p then (if tx_Tx tx = WriteTx then Some tx else None) else outcome_for p txs old)"
  by (simp add: outcome_for_def)

lemma tx_effects_get:
  assumes "db_ok (env_db E) d"
  shows "db_Get (env_db E) (fold (tx_effect E) txs d) p = outcome_for p txs (db_Get (env_db E) d p)"
proof (induction txs rule: rev_induct)
  case Nil
  then show ?case by (simp add: outcome_for_def)
next
  case (snoc tx txs)
  have "db_ok (env_db E) (fold (tx_effect E) txs d)" using tx_effects_ok [OF assms] .
  then show ?case
    using snoc by (auto simp: outcome_for_snoc tx_effect_def [of E tx] anydb.get_insert anydb.get_delete)
qed

lemma replay_get:
  assumes "db_ok (env_db E) d"
  shows "db_Get (env_db E) (fst (applyMessageTxs E um http ms (d, b))) p =
    outcome_for p (log_txs um (all_lines http ms)) (db_Get (env_db E) d p)"
  by (simp add: applyMessageTxs_lines apply_lines tx_effects_get [OF assms])

section \<open>Pages\<close>

text \<open>
  What the service documents of the request for messages after an id: up to the limit of
  the messages that follow it, the newest first.
\<close>

definition page_after :: "Message list \<Rightarrow> string \<Rightarrow> Message list" where
  "page_after hist i = rev (take MaxDiscordMessageRequest (tl (dropWhile (\<lambda>m. msg_ID m \<noteq> i) hist)))"

lemma page_after_split:
  assumes "hist = pre @ m # post" "distinct (map msg_ID hist)"
  shows "page_after hist (msg_ID m) = rev (take MaxDiscordMessageRequest post)"
proof -
  have "\<forall>x \<in> set pre. msg_ID x \<noteq> msg_ID m"
  proof -
    have "msg_ID m \<notin> msg_ID ` set pre" using assms by auto
    then show ?thesis by (metis imageI)
  qed
  then have "dropWhile (\<lambda>x. msg_ID x \<noteq> msg_ID m) hist = m # post"
    unfolding assms(1) by (subst dropWhile_append2) simp_all
  then show ?thesis by (simp add: page_after_def)
qed

lemma fetch_all_pages:
  assumes "distinct (map msg_ID hist)" "hist = pre @ got @ rest" "got \<noteq> []"
    and "length rest < fuel * MaxDiscordMessageRequest"
  shows "fetch_all fuel (\<lambda>i. Some (page_after hist i)) got = Some (Inr (got @ rest))"
  using assms(2-)
proof (induction fuel arbitrary: got rest)
  case (Suc fuel)
  let ?n = MaxDiscordMessageRequest
  have "hist = (pre @ butlast got) @ last got # rest" using Suc.prems(1,2) by simp
  from page_after_split [OF this assms(1)]
  have page: "page_after hist (msg_ID (last got)) = rev (take ?n rest)" .
  show ?case
  proof (cases "?n \<le> length rest")
    case True
    then have len: "length (rev (take ?n rest)) = ?n" by simp
    have ne: "rest \<noteq> []" using True by (auto simp: MaxDiscordMessageRequest_def)
    have "fetch_all fuel (\<lambda>i. Some (page_after hist i)) (got @ take ?n rest) =
        Some (Inr ((got @ take ?n rest) @ drop ?n rest))"
      using Suc.prems True by (intro Suc.IH) auto
    then show ?thesis using page len ne by (simp add: MaxDiscordMessageRequest_def)
  next
    case False
    then show ?thesis using page by (auto simp: MaxDiscordMessageRequest_def)
  qed
qed simp

section \<open>Compaction\<close>

abbreviation co_start :: Compaction where
  "co_start \<equiv> \<lparr>co_buffer = [], co_first = None, co_sent = [], co_failed = False\<rparr>"

text \<open>As long as the buffer does not overflow the lines are just appended.\<close>

lemma compact_loop_fits:
  "int (length (co_buffer c) + length (concat bs)) \<le> MaxDiscordFileSize \<Longrightarrow>
   compact_loop send bs c = c\<lparr>co_buffer := co_buffer c @ concat bs\<rparr>"
proof (induction bs arbitrary: c)
  case (Cons b bs)
  have "int (length (co_buffer c) + length b) \<le> MaxDiscordFileSize" using Cons.prems by simp
  then show ?case using Cons.IH [of "c\<lparr>co_buffer := co_buffer c @ b\<rparr>"] Cons.prems by (simp add: add.assoc)
qed simp

lemma compact_txs_fits:
  assumes "\<forall>l \<in> set ls. newline \<notin> set l" "int (length (join_lines ls)) \<le> MaxDiscordFileSize"
    and "ls \<noteq> []" "send 0 (join_lines ls) = Some m"
  shows "co_sent (compact_txs send (join_lines ls)) = [join_lines ls]"
    and "co_first (compact_txs send (join_lines ls)) = Some m"
    and "\<not> co_failed (compact_txs send (join_lines ls))"
proof -
  have c: "concat (read_lines (join_lines ls)) = join_lines ls"
    using read_lines_join [OF assms(1)] by (simp add: join_lines_def)
  have "compact_loop send (read_lines (join_lines ls)) co_start = co_start\<lparr>co_buffer := join_lines ls\<rparr>"
    using compact_loop_fits [of co_start "read_lines (join_lines ls)" send] assms(2) by (simp add: c)
  moreover have "join_lines ls \<noteq> []" using assms(3) by (cases ls) simp_all
  ultimately show "co_sent (compact_txs send (join_lines ls)) = [join_lines ls]"
    "co_first (compact_txs send (join_lines ls)) = Some m" "\<not> co_failed (compact_txs send (join_lines ls))"
    using assms(4) by (simp_all add: compact_txs_def co_send_def Let_def)
qed

text \<open>
  A line that makes the buffer overflow is in none of the messages: the flush does not
  keep it for the next one.
\<close>

lemma compact_txs_overflow:
  assumes "newline \<notin> set l1" "newline \<notin> set l2"
    and "int (length l1) < MaxDiscordFileSize" "MaxDiscordFileSize < int (length l1 + length l2 + 2)"
    and "send 0 (l1 @ [newline]) = Some m"
  shows "co_sent (compact_txs send (join_lines [l1, l2])) = [l1 @ [newline]]"
    and "\<not> co_failed (compact_txs send (join_lines [l1, l2]))"
proof -
  have "read_lines (join_lines [l1, l2]) = [l1 @ [newline], l2 @ [newline]]"
    using assms(1,2) by (subst read_lines_join) auto
  then have "compact_txs send (join_lines [l1, l2]) =
      \<lparr>co_buffer = [], co_first = Some m, co_sent = [l1 @ [newline]], co_failed = False\<rparr>"
    using assms(3-5) by (simp add: compact_txs_def co_send_def Let_def del: join_lines_simps)
  then show "co_sent (compact_txs send (join_lines [l1, l2])) = [l1 @ [newline]]"
    "\<not> co_failed (compact_txs send (join_lines [l1, l2]))" by simp_all
qed

text \<open>Replaying the compacted lines instead of all of them.\<close>

lemma log_txs_valid: "log_txs um (filter (valid_line um) ls) = log_txs um ls"
  by (simp add: log_txs_def)

lemma replay_buffer:
  "snd (applyMessageTxs E um http ms (d, [])) = join_lines (filter (valid_line um) (all_lines http ms))"
  by (simp add: applyMessageTxs_lines apply_lines)

end
