(* ===== verification/FuseErrors.thy ===== *)
theory FuseErrors
  imports FuseTypes "HOL-Library.AList"
begin

text \<open>
  The error codes as text: the table of \<open>errstr.go\<close> and the methods of the type \<open>Error\<close> in
  \<open>fsop.go\<close>. The map of names is built once, by inserting the table's entries in order, so
  of two names for one code the later one stays.
\<close>

definition errorStrings :: "(int \<times> string) list" where
  "errorStrings = [
     (E2BIG, ''E2BIG''), (EACCES, ''EACCES''), (EADDRINUSE, ''EADDRINUSE''),
     (EADDRNOTAVAIL, ''EADDRNOTAVAIL''), (EAFNOSUPPORT, ''EAFNOSUPPORT''), (EAGAIN, ''EAGAIN''),
     (EALREADY, ''EALREADY''), (EBADF, ''EBADF''), (EBADMSG, ''EBADMSG''), (EBUSY, ''EBUSY''),
     (ECANCELED, ''ECANCELED''), (ECHILD, ''ECHILD''), (ECONNABORTED, ''ECONNABORTED''),
     (ECONNREFUSED, ''ECONNREFUSED''), (ECONNRESET, ''ECONNRESET''), (EDEADLK, ''EDEADLK''),
     (EDESTADDRREQ, ''EDESTADDRREQ''), (EDOM, ''EDOM''), (EEXIST, ''EEXIST''),
     (EFAULT, ''EFAULT''), (EFBIG, ''EFBIG''), (EHOSTUNREACH, ''EHOSTUNREACH''),
     (EIDRM, ''EIDRM''), (EILSEQ, ''EILSEQ''), (EINPROGRESS, ''EINPROGRESS''),
     (EINTR, ''EINTR''), (EINVAL, ''EINVAL''), (EIO, ''EIO''), (EISCONN, ''EISCONN''),
     (EISDIR, ''EISDIR''), (ELOOP, ''ELOOP''), (EMFILE, ''EMFILE''), (EMLINK, ''EMLINK''),
     (EMSGSIZE, ''EMSGSIZE''), (ENAMETOOLONG, ''ENAMETOOLONG''), (ENETDOWN, ''ENETDOWN''),
     (ENETRESET, ''ENETRESET''), (ENETUNREACH, ''ENETUNREACH''), (ENFILE, ''ENFILE''),
     (ENOATTR, ''ENOATTR''), (ENOBUFS, ''ENOBUFS''), (ENODATA, ''ENODATA''),
     (ENODEV, ''ENODEV''), (ENOENT, ''ENOENT''), (ENOEXEC, ''ENOEXEC''), (ENOLCK, ''ENOLCK''),
     (ENOLINK, ''ENOLINK''), (ENOMEM, ''ENOMEM''), (ENOMSG, ''ENOMSG''),
     (ENOPROTOOPT, ''ENOPROTOOPT''), (ENOSPC, ''ENOSPC''), (ENOSR, ''ENOSR''),
     (ENOSTR, ''ENOSTR''), (ENOSYS, ''ENOSYS''), (ENOTCONN, ''ENOTCONN''),
     (ENOTDIR, ''ENOTDIR''), (ENOTEMPTY, ''ENOTEMPTY''), (ENOTRECOVERABLE, ''ENOTRECOVERABLE''),
     (ENOTSOCK, ''ENOTSOCK''), (ENOTSUP, ''ENOTSUP''), (ENOTTY, ''ENOTTY''), (ENXIO, ''ENXIO''),
     (EOPNOTSUPP, ''EOPNOTSUPP''), (EOVERFLOW, ''EOVERFLOW''), (EOWNERDEAD, ''EOWNERDEAD''),
     (EPERM, ''EPERM''), (EPIPE, ''EPIPE''), (EPROTO, ''EPROTO''),
     (EPROTONOSUPPORT, ''EPROTONOSUPPORT''), (EPROTOTYPE, ''EPROTOTYPE''), (ERANGE, ''ERANGE''),
     (EROFS, ''EROFS''), (ESPIPE, ''ESPIPE''), (ESRCH, ''ESRCH''), (ETIME, ''ETIME''),
     (ETIMEDOUT, ''ETIMEDOUT''), (ETXTBSY, ''ETXTBSY''), (EWOULDBLOCK, ''EWOULDBLOCK''),
     (EXDEV, ''EXDEV'')]"

text \<open>\<open>strconv.Itoa\<close>.\<close>

definition digit_char :: "nat \<Rightarrow> char" where
  "digit_char d = char_of (48 + d)"

function nat_string :: "nat \<Rightarrow> string" where
  "nat_string n = (if n < 10 then [digit_char n] else nat_string (n div 10) @ [digit_char (n mod 10)])"
  by pat_completeness auto
termination
  by (relation "measure id") auto

declare nat_string.simps [simp del]

definition Itoa :: "int \<Rightarrow> string" where
  "Itoa i = (if i < 0 then CHR ''-'' # nat_string (nat (- i)) else nat_string (nat i))"

definition errorStringMap :: "(int \<times> string) list" where
  "errorStringMap = fold (\<lambda>(errc, errs) m. AList.update (- errc) errs m) errorStrings []"

definition Error_Error :: "int \<Rightarrow> string" where
  "Error_Error e =
     (if 0 \<le> e then Itoa e
      else (case map_of errorStringMap e of
              Some errs \<Rightarrow> ''-fuse.'' @ errs
            | None \<Rightarrow> ''fuse.Error('' @ Itoa e @ '')''))"

definition Error_String :: "int \<Rightarrow> string" where
  "Error_String e = Error_Error e"

definition Error_GoString :: "int \<Rightarrow> string" where
  "Error_GoString e = Error_Error e"

section \<open>The names\<close>

lemma errorStringMap_lookup:
  "map_of errorStringMap e = map_of (rev (map (\<lambda>(errc, errs). (- errc, errs)) errorStrings)) e"
proof -
  have "map_of (fold (\<lambda>(errc, errs) m. AList.update (- errc) errs m) xs m) e =
      (map_of m ++ map_of (rev (map (\<lambda>(errc, errs). (- errc, errs)) xs))) e" for xs m
    by (induction xs arbitrary: m) (auto simp: update_conv' map_add_def split: option.splits)
  from this [of errorStrings "[]"] show ?thesis by (simp add: errorStringMap_def)
qed

lemma errorStrings_codes: "\<forall>(errc, errs) \<in> set errorStrings. 0 < errc"
  by (simp add: errorStrings_def errno_defs)

text \<open>One code has two names.\<close>

lemma errorStrings_unique:
  "\<forall>(c, n) \<in> set errorStrings. \<forall>(c', n') \<in> set errorStrings. c = c' \<longrightarrow> n \<noteq> ''ENOATTR'' \<longrightarrow> n' \<noteq> ''ENOATTR'' \<longrightarrow> n = n'"
  by code_simp

text \<open>Looking a name up in the reversed table finds the last entry for its code.\<close>

lemma names_lookup:
  "list_all (\<lambda>(code, name). map_of (rev (map (\<lambda>(errc, errs). (- errc, errs)) errorStrings)) (- code) =
     Some (if code = ENOATTR then ''ENODATA'' else name)) errorStrings"
  by code_simp

end
