(* ===== verification/FuseC.thy ===== *)
theory FuseC
  imports Prelude "HOL-Library.Word"
begin

text \<open>
  Values of C as the FUSE layer sees them (\<open>fuse/host_nocgo_windows.go\<close>). A C string is the list
  of its bytes up to and with the zero byte; a null pointer is \<open>None\<close>.
\<close>

unbundle bit_operations_syntax

section \<open>C values\<close>

type_synonym c_string = "bytes option"

definition c_GoString :: "c_string \<Rightarrow> string" where
  "c_GoString s = (case s of None \<Rightarrow> [] | Some q \<Rightarrow> takeWhile (\<lambda>c. c \<noteq> zero_byte) q)"

definition c_CString :: "string \<Rightarrow> c_string" where
  "c_CString s = Some (s @ [zero_byte])"

definition c_int :: "int \<Rightarrow> int" where
  "c_int x = (x + 2147483648) mod 4294967296 - 2147483648"

text \<open>\<open>uintptr(int(r))\<close> in the 64-bit callbacks.\<close>

definition ret64 :: "int \<Rightarrow> 64 word" where
  "ret64 r = word_of_int r"

text \<open>\<open>(c_fuse_off_t(h) << 32) | c_fuse_off_t(l)\<close> in the 32-bit callbacks.\<close>

definition off32 :: "32 word \<Rightarrow> 32 word \<Rightarrow> int" where
  "off32 l h = sint (push_bit 32 (ucast h :: 64 word) OR (ucast l :: 64 word))"

text \<open>Go indexes a C buffer as an array of \<open>1 << 30\<close> bytes: a longer slice panics.\<close>

definition buffer_limit :: nat where
  "buffer_limit = 1073741824"

section \<open>Methods\<close>

text \<open>A method of a file system takes its state and returns, panics or never comes back.\<close>

datatype panic = ErrorPanic int | OtherPanic

datatype ('s, 'r) fsres = Returns 's 'r | Throws 's panic | Hangs

type_synonym ('s, 'r) meth = "'s \<Rightarrow> ('s, 'r) fsres"

end
