(* ===== verification/FuseBase.thy ===== *)
theory FuseBase
  imports FsSystem FuseC
begin

text \<open>
  The interface \<open>FileSystemInterface\<close> of \<open>fuse/fsop.go\<close> as a record of methods, the default
  methods of \<open>FileSystemBase\<close>, and the file system of this program: \<open>Dsfs\<close> embeds
  \<open>FileSystemBase\<close> and overrides fifteen of its methods (\<open>dsfs_ops\<close>).

  The callbacks \<open>fill\<close> of \<open>Readdir\<close> and \<open>Listxattr\<close> are modelled by the calls made to them, in
  order; the methods of this program ignore what the callbacks return. The optional interfaces are options.
\<close>

record FileInfo_t =
  fi_Flags :: int
  fi_DirectIo :: bool
  fi_KeepCache :: bool
  fi_NonSeekable :: bool
  fi_Fh :: "64 word"

record 's fsop =
  op_Statfs :: "string \<Rightarrow> Statfs_t \<Rightarrow> ('s, int \<times> Statfs_t) meth"
  op_Mknod :: "string \<Rightarrow> 32 word \<Rightarrow> 64 word \<Rightarrow> ('s, int) meth"
  op_Mkdir :: "string \<Rightarrow> 32 word \<Rightarrow> ('s, int) meth"
  op_Unlink :: "string \<Rightarrow> ('s, int) meth"
  op_Rmdir :: "string \<Rightarrow> ('s, int) meth"
  op_Link :: "string \<Rightarrow> string \<Rightarrow> ('s, int) meth"
  op_Symlink :: "string \<Rightarrow> string \<Rightarrow> ('s, int) meth"
  op_Readlink :: "string \<Rightarrow> ('s, int \<times> string) meth"
  op_Rename :: "string \<Rightarrow> string \<Rightarrow> ('s, int) meth"
  op_Chmod :: "string \<Rightarrow> 32 word \<Rightarrow> ('s, int) meth"
  op_Chown :: "string \<Rightarrow> 32 word \<Rightarrow> 32 word \<Rightarrow> ('s, int) meth"
  op_Utimens :: "string \<Rightarrow> Timespec list option \<Rightarrow> ('s, int) meth"
  op_Access :: "string \<Rightarrow> 32 word \<Rightarrow> ('s, int) meth"
  op_Create :: "string \<Rightarrow> int \<Rightarrow> 32 word \<Rightarrow> ('s, int \<times> 64 word) meth"
  op_Open :: "string \<Rightarrow> int \<Rightarrow> ('s, int \<times> 64 word) meth"
  op_Getattr :: "string \<Rightarrow> Stat_t \<Rightarrow> 64 word \<Rightarrow> ('s, int \<times> Stat_t) meth"
  op_Truncate :: "string \<Rightarrow> int \<Rightarrow> 64 word \<Rightarrow> ('s, int) meth"
  op_Read :: "string \<Rightarrow> bytes \<Rightarrow> int \<Rightarrow> 64 word \<Rightarrow> ('s, int \<times> bytes) meth"
  op_Write :: "string \<Rightarrow> bytes \<Rightarrow> int \<Rightarrow> 64 word \<Rightarrow> ('s, int) meth"
  op_Flush :: "string \<Rightarrow> 64 word \<Rightarrow> ('s, int) meth"
  op_Release :: "string \<Rightarrow> 64 word \<Rightarrow> ('s, int) meth"
  op_Fsync :: "string \<Rightarrow> bool \<Rightarrow> 64 word \<Rightarrow> ('s, int) meth"
  op_Opendir :: "string \<Rightarrow> ('s, int \<times> 64 word) meth"
  op_Readdir :: "string \<Rightarrow> int \<Rightarrow> 64 word \<Rightarrow> ('s, int \<times> fill_call list) meth"
  op_Releasedir :: "string \<Rightarrow> 64 word \<Rightarrow> ('s, int) meth"
  op_Fsyncdir :: "string \<Rightarrow> bool \<Rightarrow> 64 word \<Rightarrow> ('s, int) meth"
  op_Setxattr :: "string \<Rightarrow> string \<Rightarrow> bytes \<Rightarrow> int \<Rightarrow> ('s, int) meth"
  op_Getxattr :: "string \<Rightarrow> string \<Rightarrow> ('s, int \<times> bytes) meth"
  op_Removexattr :: "string \<Rightarrow> string \<Rightarrow> ('s, int) meth"
  op_Listxattr :: "string \<Rightarrow> ('s, int \<times> string list) meth"
  op_OpenEx :: "(string \<Rightarrow> FileInfo_t \<Rightarrow> ('s, int \<times> FileInfo_t) meth) option"
  op_CreateEx :: "string \<Rightarrow> 32 word \<Rightarrow> FileInfo_t \<Rightarrow> ('s, int \<times> FileInfo_t) meth"
  op_Getpath :: "(string \<Rightarrow> 64 word \<Rightarrow> ('s, int \<times> string) meth) option"
  op_Setchgtime :: "(string \<Rightarrow> Timespec \<Rightarrow> ('s, int) meth) option"
  op_Setcrtime :: "(string \<Rightarrow> Timespec \<Rightarrow> ('s, int) meth) option"
  op_Chflags :: "(string \<Rightarrow> 32 word \<Rightarrow> ('s, int) meth) option"

section \<open>FileSystemBase\<close>

text \<open>\<open>return -ENOSYS\<close>, in the result types that occur.\<close>

definition nosys :: "('s, int) meth" where
  "nosys s = Returns s (- ENOSYS)"

definition nosys_with :: "'r \<Rightarrow> ('s, int \<times> 'r) meth" where
  "nosys_with r s = Returns s (- ENOSYS, r)"

text \<open>
  The optional interfaces are absent; \<open>op_CreateEx\<close>, which belongs to the same interface as
  \<open>op_OpenEx\<close>, is then never called.
\<close>

definition FileSystemBase :: "'s fsop" where
  "FileSystemBase =
    \<lparr>op_Statfs = (\<lambda>path stat. nosys_with stat),
     op_Mknod = (\<lambda>path mode dev. nosys),
     op_Mkdir = (\<lambda>path mode. nosys),
     op_Unlink = (\<lambda>path. nosys),
     op_Rmdir = (\<lambda>path. nosys),
     op_Link = (\<lambda>oldpath newpath. nosys),
     op_Symlink = (\<lambda>target newpath. nosys),
     op_Readlink = (\<lambda>path. nosys_with []),
     op_Rename = (\<lambda>oldpath newpath. nosys),
     op_Chmod = (\<lambda>path mode. nosys),
     op_Chown = (\<lambda>path uid gid. nosys),
     op_Utimens = (\<lambda>path tmsp. nosys),
     op_Access = (\<lambda>path mask. nosys),
     op_Create = (\<lambda>path flags mode. nosys_with no_handle),
     op_Open = (\<lambda>path flags. nosys_with no_handle),
     op_Getattr = (\<lambda>path stat fh. nosys_with stat),
     op_Truncate = (\<lambda>path sz fh. nosys),
     op_Read = (\<lambda>path buff ofst fh. nosys_with buff),
     op_Write = (\<lambda>path buff ofst fh. nosys),
     op_Flush = (\<lambda>path fh. nosys),
     op_Release = (\<lambda>path fh. nosys),
     op_Fsync = (\<lambda>path datasync fh. nosys),
     op_Opendir = (\<lambda>path. nosys_with no_handle),
     op_Readdir = (\<lambda>path ofst fh. nosys_with []),
     op_Releasedir = (\<lambda>path fh. nosys),
     op_Fsyncdir = (\<lambda>path datasync fh. nosys),
     op_Setxattr = (\<lambda>path name val flags. nosys),
     op_Getxattr = (\<lambda>path name. nosys_with []),
     op_Removexattr = (\<lambda>path name. nosys),
     op_Listxattr = (\<lambda>path. nosys_with []),
     op_OpenEx = None,
     op_CreateEx = (\<lambda>path mode fi. nosys_with fi),
     op_Getpath = None,
     op_Setchgtime = None,
     op_Setcrtime = None,
     op_Chflags = None\<rparr>"

section \<open>Dsfs\<close>

text \<open>The outcome of a method on the system's state; its panics carry no \<open>Error\<close> value.\<close>

definition on_sys :: "('t Dsfs \<Rightarrow> ('t Dsfs, 'r, job) outcome) \<Rightarrow> ('t sys, 'r) meth" where
  "on_sys m y = (let out = m (sy_fs y) in case out of
     Ret s r js \<Rightarrow> Returns (advance y out) r
   | Panics s \<Rightarrow> Throws (advance y out) OtherPanic
   | Blocks \<Rightarrow> Hangs)"

text \<open>\<open>now\<close> is the clock during the call, \<open>bg\<close> what happens to a file while \<open>Read\<close> waits.\<close>

definition dsfs_ops :: "'t env \<Rightarrow> Time \<Rightarrow> (nat \<Rightarrow> FileData \<Rightarrow> FileData) \<Rightarrow> 't sys fsop" where
  "dsfs_ops E now bg = FileSystemBase
    \<lparr>op_Statfs := (\<lambda>path stat y. Returns y (Statfs path stat)),
     op_Mknod := (\<lambda>path mode dev. on_sys (Mknod E now now path)),
     op_Mkdir := (\<lambda>path mode. on_sys (Mkdir E path)),
     op_Unlink := (\<lambda>path. on_sys (Unlink E path)),
     op_Rmdir := (\<lambda>path. on_sys (Rmdir E path)),
     op_Rename := (\<lambda>oldpath newpath. on_sys (Rename E oldpath newpath)),
     op_Open := (\<lambda>path flags. on_sys (Open E path)),
     op_Getattr := (\<lambda>path stat fh. on_sys (Getattr E path stat)),
     op_Truncate := (\<lambda>path sz fh. on_sys (fs_Truncate E now path sz)),
     op_Read := (\<lambda>path buff ofst fh. on_sys (Read E bg path buff ofst)),
     op_Write := (\<lambda>path buff ofst fh. on_sys (Write E now path buff ofst)),
     op_Release := (\<lambda>path fh. on_sys (Release E path)),
     op_Opendir := (\<lambda>path y. Returns y (Opendir path)),
     op_Readdir := (\<lambda>path ofst fh. on_sys (Readdir E path)),
     op_Releasedir := (\<lambda>path fh y. Returns y (Releasedir path))\<rparr>"

end
