(* ===== verification/FuseHost.thy ===== *)
theory FuseHost
  imports FuseBase FuseC
begin

text \<open>
  The file \<open>fuse/host.go\<close>: the functions the C library calls, between its types and the
  methods of a \<open>FileSystemInterface\<close>. C types are those of \<open>host_nocgo_windows.go\<close>, on a
  64-bit platform; a C buffer is the list of the bytes at its address.

  A handler returns the state, what it wrote through its pointers, and an \<open>int32\<close>. A panic
  of the method is turned into a result by \<open>recoverAsErrno\<close>; nothing is then written. The
  context's private data, by which the handlers find the file system, is resolved: the
  file system is an argument.
\<close>

section \<open>Structures\<close>

record fuse_timespec =
  tv_sec :: "64 word"
  tv_nsec :: "64 word"

record fuse_stat =
  c_dev :: "32 word"
  c_ino :: "64 word"
  c_mode :: "32 word"
  c_nlink :: "16 word"
  c_uid :: "32 word"
  c_gid :: "32 word"
  c_rdev :: "32 word"
  c_size :: int
  c_atim :: fuse_timespec
  c_mtim :: fuse_timespec
  c_ctim :: fuse_timespec
  c_blksize :: "32 word"
  c_blocks :: int
  c_birthtim :: fuse_timespec
  c_flags :: "32 word option"

record fuse_statvfs =
  f_bsize :: "64 word"
  f_frsize :: "64 word"
  f_blocks :: "64 word"
  f_bfree :: "64 word"
  f_bavail :: "64 word"
  f_files :: "64 word"
  f_ffree :: "64 word"
  f_favail :: "64 word"
  f_fsid :: "64 word"
  f_flag :: "64 word"
  f_namemax :: "64 word"

record fuse_file_info =
  c_fi_flags :: int
  c_fi_bits :: "32 word"
  c_fi_fh :: "64 word"

section \<open>Conversions\<close>

definition copyFusetimespecFromCtimespec :: "fuse_timespec \<Rightarrow> Timespec" where
  "copyFusetimespecFromCtimespec src = \<lparr>ts_Sec = sint (tv_sec src), ts_Nsec = sint (tv_nsec src)\<rparr>"

definition c_hostCstatvfsFromFusestatfs ::
    "64 word \<Rightarrow> 64 word \<Rightarrow> 64 word \<Rightarrow> 64 word \<Rightarrow> 64 word \<Rightarrow> 64 word \<Rightarrow> 64 word \<Rightarrow> 64 word \<Rightarrow>
     64 word \<Rightarrow> 64 word \<Rightarrow> 64 word \<Rightarrow> fuse_statvfs" where
  "c_hostCstatvfsFromFusestatfs bsize frsize blocks bfree bavail files ffree favail fsid flag namemax =
     \<lparr>f_bsize = bsize, f_frsize = frsize, f_blocks = blocks, f_bfree = bfree, f_bavail = bavail,
      f_files = files, f_ffree = ffree, f_favail = favail, f_fsid = fsid, f_flag = flag, f_namemax = namemax\<rparr>"

definition copyCstatvfsFromFusestatfs :: "Statfs_t \<Rightarrow> fuse_statvfs" where
  "copyCstatvfsFromFusestatfs src =
     c_hostCstatvfsFromFusestatfs (sf_Bsize src) (sf_Frsize src) (sf_Blocks src) (sf_Bfree src) (sf_Bavail src)
       (sf_Files src) (sf_Ffree src) (sf_Favail src) (sf_Fsid src) (sf_Flag src) (sf_Namemax src)"

text \<open>
  \<open>stat_ex\<close> is the variable \<open>cgofuse_stat_ex\<close>: whether the C library expects the flags. The
  struct is written anew; a birth time of zero seconds is replaced by the change time.
\<close>

definition c_hostCstatFromFusestat ::
    "bool \<Rightarrow> 64 word \<Rightarrow> 64 word \<Rightarrow> 32 word \<Rightarrow> 32 word \<Rightarrow> 32 word \<Rightarrow> 32 word \<Rightarrow> 64 word \<Rightarrow> int \<Rightarrow>
     int \<times> int \<Rightarrow> int \<times> int \<Rightarrow> int \<times> int \<Rightarrow> int \<Rightarrow> int \<Rightarrow> int \<times> int \<Rightarrow> 32 word \<Rightarrow> fuse_stat" where
  "c_hostCstatFromFusestat stat_ex dev ino mode nlink uid gid rdev sz atim mtim ctim blksize blocks birthtim flags =
     (let time = (\<lambda>t. \<lparr>tv_sec = word_of_int (fst t), tv_nsec = word_of_int (snd t)\<rparr>) in
      \<lparr>c_dev = ucast dev, c_ino = ino, c_mode = mode, c_nlink = ucast nlink, c_uid = uid, c_gid = gid,
       c_rdev = ucast rdev, c_size = sz, c_atim = time atim, c_mtim = time mtim, c_ctim = time ctim,
       c_blksize = word_of_int blksize, c_blocks = blocks,
       c_birthtim = (if fst birthtim \<noteq> 0 then time birthtim else time ctim),
       c_flags = (if stat_ex then Some flags else None)\<rparr>)"

definition copyCstatFromFusestat :: "bool \<Rightarrow> Stat_t \<Rightarrow> fuse_stat" where
  "copyCstatFromFusestat stat_ex src =
     c_hostCstatFromFusestat stat_ex (st_Dev src) (st_Ino src) (st_Mode src) (st_Nlink src) (st_Uid src)
       (st_Gid src) (st_Rdev src) (st_Size src)
       (ts_Sec (st_Atim src), ts_Nsec (st_Atim src)) (ts_Sec (st_Mtim src), ts_Nsec (st_Mtim src))
       (ts_Sec (st_Ctim src), ts_Nsec (st_Ctim src)) (st_Blksize src) (st_Blocks src)
       (ts_Sec (st_Birthtim src), ts_Nsec (st_Birthtim src)) (st_Flags src)"

definition c_hostAsgnCfileinfo :: "fuse_file_info \<Rightarrow> FileInfo_t \<Rightarrow> fuse_file_info" where
  "c_hostAsgnCfileinfo fi0 fi =
     (let b1 = (if fi_DirectIo fi then c_fi_bits fi0 OR 1 else c_fi_bits fi0);
          b2 = (if fi_KeepCache fi then b1 OR 2 else b1);
          b3 = (if fi_NonSeekable fi then b2 OR 8 else b2)
      in fi0\<lparr>c_fi_bits := b3, c_fi_fh := fi_Fh fi\<rparr>)"

definition new_FileInfo :: "fuse_file_info \<Rightarrow> FileInfo_t" where
  "new_FileInfo fi0 = \<lparr>fi_Flags = c_fi_flags fi0, fi_DirectIo = False, fi_KeepCache = False,
     fi_NonSeekable = False, fi_Fh = 0\<rparr>"

section \<open>Calling a method\<close>

datatype ('s, 'o) hres = Host 's 'o int | HostHangs

definition recoverAsErrno :: "panic \<Rightarrow> int" where
  "recoverAsErrno r = (case r of ErrorPanic e \<Rightarrow> c_int e | OtherPanic \<Rightarrow> - EIO)"

text \<open>
  Call a method and go on with its result; \<open>out0\<close> is what the pointers show when it panics.
  The rest of the handler may panic itself (\<open>None\<close>), with the method's effects in place.
\<close>

definition host_call :: "('s, 'r) fsres \<Rightarrow> 'o \<Rightarrow> ('r \<Rightarrow> ('o \<times> int) option) \<Rightarrow> ('s, 'o) hres" where
  "host_call res out0 k = (case res of
     Returns s r \<Rightarrow> (case k r of Some (out, errc) \<Rightarrow> Host s out (c_int errc)
                            | None \<Rightarrow> Host s out0 (recoverAsErrno OtherPanic))
   | Throws s p \<Rightarrow> Host s out0 (recoverAsErrno p)
   | Hangs \<Rightarrow> HostHangs)"

definition plain :: "('s, int) fsres \<Rightarrow> ('s, unit) hres" where
  "plain res = host_call res () (\<lambda>errc. Some ((), errc))"

definition ignore_nosys :: "int \<Rightarrow> int" where
  "ignore_nosys errc = (if errc = - ENOSYS then 0 else errc)"

section \<open>The handlers\<close>

definition hostGetattr where
  "hostGetattr ops ex path0 stat0 (s :: 's) =
     host_call (op_Getattr (ops :: 's fsop) (c_GoString path0) zero_Stat no_handle s) stat0
       (\<lambda>(errc, stat). Some (copyCstatFromFusestat ex stat, errc))"

text \<open>A string result and its end in a buffer of the caller, as far as they fit.\<close>

definition put_string :: "bytes \<Rightarrow> nat \<Rightarrow> string \<Rightarrow> bytes option" where
  "put_string buff size0 rslt =
     (if size0 = 0 \<or> buffer_limit < size0 - 1 then None
      else
        let b = go_copy (take (size0 - 1) buff) rslt @ drop (size0 - 1) buff;
            rlen = length rslt
        in if rlen < size0
           then (if buffer_limit \<le> rlen then None else Some (b[rlen := zero_byte]))
           else Some b)"

definition hostReadlink where
  "hostReadlink ops path0 buff0 size0 (s :: 's) =
     host_call (op_Readlink (ops :: 's fsop) (c_GoString path0) s) buff0
       (\<lambda>(errc, rslt). map_option (\<lambda>b. (b, errc)) (put_string buff0 size0 rslt))"

definition hostMknod where
  "hostMknod ops path0 mode0 (dev0 :: 32 word) (s :: 's) =
     plain (op_Mknod (ops :: 's fsop) (c_GoString path0) mode0 (ucast dev0) s)"

definition hostMkdir where
  "hostMkdir ops path0 mode0 (s :: 's) = plain (op_Mkdir (ops :: 's fsop) (c_GoString path0) mode0 s)"

definition hostUnlink where
  "hostUnlink ops path0 (s :: 's) = plain (op_Unlink (ops :: 's fsop) (c_GoString path0) s)"

definition hostRmdir where
  "hostRmdir ops path0 (s :: 's) = plain (op_Rmdir (ops :: 's fsop) (c_GoString path0) s)"

definition hostSymlink where
  "hostSymlink ops target0 newpath0 (s :: 's) =
     plain (op_Symlink (ops :: 's fsop) (c_GoString target0) (c_GoString newpath0) s)"

definition hostRename where
  "hostRename ops oldpath0 newpath0 (s :: 's) =
     plain (op_Rename (ops :: 's fsop) (c_GoString oldpath0) (c_GoString newpath0) s)"

definition hostLink where
  "hostLink ops oldpath0 newpath0 (s :: 's) =
     plain (op_Link (ops :: 's fsop) (c_GoString oldpath0) (c_GoString newpath0) s)"

definition hostChmod where
  "hostChmod ops path0 mode0 (s :: 's) = plain (op_Chmod (ops :: 's fsop) (c_GoString path0) mode0 s)"

definition hostChown where
  "hostChown ops path0 uid0 gid0 (s :: 's) = plain (op_Chown (ops :: 's fsop) (c_GoString path0) uid0 gid0 s)"

definition hostTruncate where
  "hostTruncate ops path0 size0 (s :: 's) =
     plain (op_Truncate (ops :: 's fsop) (c_GoString path0) size0 no_handle s)"

definition hostOpen where
  "hostOpen ops path0 fi0 (s :: 's) = (case op_OpenEx (ops :: 's fsop) of
     Some OpenEx \<Rightarrow>
       host_call (OpenEx (c_GoString path0) (new_FileInfo fi0) s) fi0
         (\<lambda>(errc, fi). Some (c_hostAsgnCfileinfo fi0 fi, errc))
   | None \<Rightarrow>
       host_call (op_Open ops (c_GoString path0) (c_fi_flags fi0) s) fi0
         (\<lambda>(errc, rslt). Some (fi0\<lparr>c_fi_fh := rslt\<rparr>, errc)))"

text \<open>\<open>buff[:size0]\<close>; the buffer is given by its first \<open>size0\<close> bytes.\<close>

definition hostRead where
  "hostRead ops path0 (buff0 :: bytes) ofst0 fi0 (s :: 's) =
     (if buffer_limit < length buff0 then Host s buff0 (recoverAsErrno OtherPanic)
      else host_call (op_Read (ops :: 's fsop) (c_GoString path0) buff0 ofst0 (c_fi_fh fi0) s) buff0
             (\<lambda>(nbyt, buff). Some (buff, nbyt)))"

definition hostWrite where
  "hostWrite ops path0 (buff0 :: bytes) ofst0 fi0 (s :: 's) =
     (if buffer_limit < length buff0 then Host s () (recoverAsErrno OtherPanic)
      else plain (op_Write (ops :: 's fsop) (c_GoString path0) buff0 ofst0 (c_fi_fh fi0) s))"

definition hostStatfs where
  "hostStatfs ops path0 stat0 (s :: 's) =
     host_call (op_Statfs (ops :: 's fsop) (c_GoString path0) zero_Statfs s) stat0
       (\<lambda>(errc, stat). Some (copyCstatvfsFromFusestatfs (if errc = - ENOSYS then zero_Statfs else stat),
                             ignore_nosys errc))"

definition hostFlush where
  "hostFlush ops path0 fi0 (s :: 's) = plain (op_Flush (ops :: 's fsop) (c_GoString path0) (c_fi_fh fi0) s)"

definition hostRelease where
  "hostRelease ops path0 fi0 (s :: 's) = plain (op_Release (ops :: 's fsop) (c_GoString path0) (c_fi_fh fi0) s)"

definition hostFsync where
  "hostFsync ops path0 (datasync :: int) fi0 (s :: 's) =
     host_call (op_Fsync (ops :: 's fsop) (c_GoString path0) (datasync \<noteq> 0) (c_fi_fh fi0) s) ()
       (\<lambda>errc. Some ((), ignore_nosys errc))"

definition hostSetxattr where
  "hostSetxattr ops path0 name0 (buff0 :: bytes) flags (s :: 's) =
     (if buffer_limit < length buff0 then Host s () (recoverAsErrno OtherPanic)
      else plain (op_Setxattr (ops :: 's fsop) (c_GoString path0) (c_GoString name0) buff0 flags s))"

definition hostGetxattr where
  "hostGetxattr ops path0 name0 (buff0 :: bytes) size0 (s :: 's) =
     host_call (op_Getxattr (ops :: 's fsop) (c_GoString path0) (c_GoString name0) s) buff0
       (\<lambda>(errc, rslt).
          if errc \<noteq> 0 then Some (buff0, errc)
          else if size0 = 0 then Some (buff0, int (length rslt))
          else if size0 < length rslt then Some (buff0, - ERANGE)
          else if buffer_limit < size0 then None
          else Some (go_copy (take size0 buff0) rslt @ drop size0 buff0, int (length rslt)))"

text \<open>The callback of \<open>hostListxattr\<close>, on the buffer and the number of bytes so far.\<close>

definition listxattr_fill :: "nat \<Rightarrow> string \<Rightarrow> bytes \<times> nat \<Rightarrow> bytes \<times> nat" where
  "listxattr_fill sz name1 st = (case st of (buff, nbyt) \<Rightarrow>
     let nlen = length name1 in
     if sz \<noteq> 0 then
       (if sz < nbyt + nlen + 1 then (buff, nbyt)
        else ((put_slice buff nbyt (nbyt + nlen) name1)[nbyt + nlen := zero_byte], nbyt + nlen + 1))
     else (buff, nbyt + nlen + 1))"

definition hostListxattr where
  "hostListxattr ops path0 (buff0 :: bytes) size0 (s :: 's) =
     host_call (op_Listxattr (ops :: 's fsop) (c_GoString path0) s) buff0
       (\<lambda>(errc, names). case fold (listxattr_fill size0) names (buff0, 0) of
          (buff, nbyt) \<Rightarrow> Some (buff, if errc \<noteq> 0 then errc else int nbyt))"

definition hostRemovexattr where
  "hostRemovexattr ops path0 name0 (s :: 's) =
     plain (op_Removexattr (ops :: 's fsop) (c_GoString path0) (c_GoString name0) s)"

definition hostOpendir where
  "hostOpendir ops path0 fi0 (s :: 's) =
     host_call (op_Opendir (ops :: 's fsop) (c_GoString path0) s) fi0
       (\<lambda>(errc, rslt). Some (fi0\<lparr>c_fi_fh := rslt\<rparr>, ignore_nosys errc))"

text \<open>
  The calls of the C callback \<open>filler\<close>: the name, the attributes, the offset. Calls made
  before a panic of the method are not recorded.
\<close>

definition fill_entry :: "bool \<Rightarrow> fill_call \<Rightarrow> c_string \<times> fuse_stat option \<times> int" where
  "fill_entry ex c = (case c of (name1, stat1, off1) \<Rightarrow>
     (c_CString name1, map_option (copyCstatFromFusestat ex) stat1, off1))"

definition hostReaddir where
  "hostReaddir ops ex path0 ofst0 fi0 (s :: 's) =
     host_call (op_Readdir (ops :: 's fsop) (c_GoString path0) ofst0 (c_fi_fh fi0) s) []
       (\<lambda>(errc, calls). Some (map (fill_entry ex) calls, errc))"

definition hostReleasedir where
  "hostReleasedir ops path0 fi0 (s :: 's) =
     plain (op_Releasedir (ops :: 's fsop) (c_GoString path0) (c_fi_fh fi0) s)"

definition hostFsyncdir where
  "hostFsyncdir ops path0 (datasync :: int) fi0 (s :: 's) =
     host_call (op_Fsyncdir (ops :: 's fsop) (c_GoString path0) (datasync \<noteq> 0) (c_fi_fh fi0) s) ()
       (\<lambda>errc. Some ((), ignore_nosys errc))"

definition hostAccess where
  "hostAccess ops path0 (mask0 :: 32 word) (s :: 's) =
     plain (op_Access (ops :: 's fsop) (c_GoString path0) mask0 s)"

text \<open>
  \<open>hostCreate\<close>: a file system without \<open>Create\<close> gets a \<open>Mknod\<close> and an \<open>Open\<close>. In between a
  method may panic or hang, so the second call is made on the outcome of the first.
\<close>

definition then_call :: "('s, 'r) fsres \<Rightarrow> ('s \<Rightarrow> 'r \<Rightarrow> ('s, 'q) fsres) \<Rightarrow> ('s, 'q) fsres" where
  "then_call res k = (case res of Returns s r \<Rightarrow> k s r | Throws s p \<Rightarrow> Throws s p | Hangs \<Rightarrow> Hangs)"

definition mknod_open ::
    "'s fsop \<Rightarrow> string \<Rightarrow> 32 word \<Rightarrow> 'a \<Rightarrow> ('s, int \<times> 'a) meth \<Rightarrow> 's \<Rightarrow> ('s, int \<times> 'a) fsres" where
  "mknod_open ops path mode0 rslt open_it s =
     then_call (op_Mknod ops path (S_IFREG OR mode0) 0 s)
       (\<lambda>s1 errc. if errc = 0 then open_it s1 else Returns s1 (errc, rslt))"

definition hostCreate where
  "hostCreate ops path0 mode0 fi0 (s :: 's) =
     (let path = c_GoString path0 in
      case op_OpenEx (ops :: 's fsop) of
        Some OpenEx \<Rightarrow>
          host_call (then_call (op_CreateEx ops path mode0 (new_FileInfo fi0) s)
              (\<lambda>s1 (errc, fi). if errc = - ENOSYS then mknod_open ops path mode0 fi (OpenEx path fi) s1
                               else Returns s1 (errc, fi)))
            fi0 (\<lambda>(errc, fi). Some (c_hostAsgnCfileinfo fi0 fi, errc))
      | None \<Rightarrow>
          host_call (then_call (op_Create ops path (c_fi_flags fi0) mode0 s)
              (\<lambda>s1 (errc, rslt). if errc = - ENOSYS
                 then mknod_open ops path mode0 rslt (op_Open ops path (c_fi_flags fi0)) s1
                 else Returns s1 (errc, rslt)))
            fi0 (\<lambda>(errc, rslt). Some (fi0\<lparr>c_fi_fh := rslt\<rparr>, errc)))"

definition hostFtruncate where
  "hostFtruncate ops path0 size0 fi0 (s :: 's) =
     plain (op_Truncate (ops :: 's fsop) (c_GoString path0) size0 (c_fi_fh fi0) s)"

definition hostFgetattr where
  "hostFgetattr ops ex path0 stat0 fi0 (s :: 's) =
     host_call (op_Getattr (ops :: 's fsop) (c_GoString path0) zero_Stat (c_fi_fh fi0) s) stat0
       (\<lambda>(errc, stat). Some (copyCstatFromFusestat ex stat, errc))"

definition hostUtimens where
  "hostUtimens ops path0 (tmsp0 :: (fuse_timespec \<times> fuse_timespec) option) (s :: 's) =
     plain (op_Utimens (ops :: 's fsop) (c_GoString path0)
       (map_option (\<lambda>(a, m). [copyFusetimespecFromCtimespec a, copyFusetimespecFromCtimespec m]) tmsp0) s)"

definition hostGetpath where
  "hostGetpath ops path0 buff0 size0 (fi0 :: fuse_file_info option) (s :: 's) =
     (case op_Getpath (ops :: 's fsop) of
        None \<Rightarrow> Host s buff0 (c_int (- ENOSYS))
      | Some Getpath \<Rightarrow>
          host_call (Getpath (c_GoString path0) (case fi0 of None \<Rightarrow> no_handle | Some fi \<Rightarrow> c_fi_fh fi) s) buff0
            (\<lambda>(errc, rslt). map_option (\<lambda>b. (b, errc)) (put_string buff0 size0 rslt)))"

definition hostSetchgtime where
  "hostSetchgtime ops path0 tmsp0 (s :: 's) = (case op_Setchgtime (ops :: 's fsop) of
     None \<Rightarrow> Host s () 0
   | Some Setchgtime \<Rightarrow> plain (Setchgtime (c_GoString path0) (copyFusetimespecFromCtimespec tmsp0) s))"

definition hostSetcrtime where
  "hostSetcrtime ops path0 tmsp0 (s :: 's) = (case op_Setcrtime (ops :: 's fsop) of
     None \<Rightarrow> Host s () 0
   | Some Setcrtime \<Rightarrow> plain (Setcrtime (c_GoString path0) (copyFusetimespecFromCtimespec tmsp0) s))"

definition hostChflags where
  "hostChflags ops path0 flags (s :: 's) = (case op_Chflags (ops :: 's fsop) of
     None \<Rightarrow> Host s () 0
   | Some Chflags \<Rightarrow> plain (Chflags (c_GoString path0) flags s))"

end
