(* ===== verification/FuseLaws.thy ===== *)
theory FuseLaws
  imports FuseHost FileContent
begin

text \<open>
  Laws of the host layer: what crosses the boundary to C comes out as it went in, as far as
  the C types carry it; what \<open>hostCreate\<close> does on this program's file system; which
  operations this file system does not offer.
\<close>

section \<open>Values\<close>

lemma c_string_roundtrip: "zero_byte \<notin> set s \<Longrightarrow> c_GoString (c_CString s) = s"
  by (auto simp: c_GoString_def c_CString_def takeWhile_append)

lemma c_int_id: "- 2147483648 \<le> x \<Longrightarrow> x < 2147483648 \<Longrightarrow> c_int x = x"
  by (simp add: c_int_def)

lemma sint_of_int64: "i64 x \<Longrightarrow> sint (word_of_int x :: 64 word) = x"
  by (simp add: int_word_sint i64_def)

lemma ret64_c_int: "sint (ret64 (c_int x)) = c_int x"
proof -
  have "i64 (c_int x)"
    using pos_mod_sign [of 4294967296 "x + 2147483648"] pos_mod_bound [of 4294967296 "x + 2147483648"]
    unfolding c_int_def i64_def by linarith
  then show ?thesis by (simp add: ret64_def sint_of_int64)
qed

text \<open>The two halves of a 64-bit offset.\<close>

definition low32 :: "int \<Rightarrow> 32 word" where
  "low32 x = ucast (word_of_int x :: 64 word)"

definition high32 :: "int \<Rightarrow> 32 word" where
  "high32 x = ucast (drop_bit 32 (word_of_int x :: 64 word))"

lemma join_halves: "push_bit 32 (ucast (ucast (drop_bit 32 w) :: 32 word) :: 64 word) OR ucast (ucast w :: 32 word) = (w :: 64 word)"
  by (rule bit_word_eqI) (auto simp: bit_simps)

lemma off32_halves: "i64 x \<Longrightarrow> off32 (low32 x) (high32 x) = x"
  by (simp add: off32_def low32_def high32_def join_halves sint_of_int64)

text \<open>The times and the size of a file survive the way to the C struct and back.\<close>

lemma stat_roundtrip:
  assumes "i64 (ts_Sec (st_Mtim st))" "i64 (ts_Nsec (st_Mtim st))"
  shows "copyFusetimespecFromCtimespec (c_mtim (copyCstatFromFusestat ex st)) = st_Mtim st"
    and "c_size (copyCstatFromFusestat ex st) = st_Size st"
    and "c_mode (copyCstatFromFusestat ex st) = st_Mode st"
  using assms
  by (simp_all add: copyFusetimespecFromCtimespec_def copyCstatFromFusestat_def c_hostCstatFromFusestat_def
      Let_def sint_of_int64)

section \<open>Buffers\<close>

lemma put_string_fits:
  assumes "length rslt < size0" "size0 \<le> length buff" "size0 \<le> buffer_limit" "zero_byte \<notin> set rslt"
  shows "\<exists>b. put_string buff size0 rslt = Some b \<and> length b = length buff \<and> c_GoString (Some b) = rslt"
proof -
  let ?b = "go_copy (take (size0 - 1) buff) rslt @ drop (size0 - 1) buff"
  have len: "length rslt \<le> size0 - 1" "length (take (size0 - 1) buff) = size0 - 1" using assms by simp_all
  then have "take (length rslt) ?b = rslt" by (simp add: go_copy_def)
  then have "?b[length rslt := zero_byte] = rslt @ zero_byte # drop (Suc (length rslt)) ?b"
    using assms len by (subst upd_conv_take_nth_drop) auto
  then have "takeWhile (\<lambda>c. c \<noteq> zero_byte) (?b[length rslt := zero_byte]) = rslt"
    using assms(4) by (simp add: takeWhile_append)
  moreover have "put_string buff size0 rslt = Some (?b[length rslt := zero_byte])"
    using assms by (simp add: put_string_def Let_def)
  moreover have "length (?b[length rslt := zero_byte]) = length buff" using assms by simp
  ultimately show ?thesis by (simp add: c_GoString_def)
qed

text \<open>A result that does not fit leaves the last byte of the buffer as it was: no end is written.\<close>

lemma put_string_truncates:
  assumes "size0 \<le> length rslt" "0 < size0" "size0 \<le> length buff" "size0 \<le> buffer_limit"
  shows "put_string buff size0 rslt = Some (take (size0 - 1) rslt @ drop (size0 - 1) buff)"
  using assms by (simp add: put_string_def go_copy_def Let_def)

section \<open>This file system\<close>

lemma fuse_create:
  assumes "env_ok E" "fs_ok E (sy_fs y)" "\<not> fs_locked (sy_fs y)" "GetNewCache (sy_fs y) \<noteq> None"
    and "go_get (fs_open (sy_fs y)) (c_GoString path0) = None"
    and "get E (sy_fs y) (getDir (env_win E) (c_GoString path0)) \<noteq> None"
    and "get E (sy_fs y) (c_GoString path0) = None"
  shows "\<exists>y'. hostCreate (dsfs_ops E now bg) path0 mode0 fi0 y = Host y' (fi0\<lparr>c_fi_fh := 1\<rparr>) 0 \<and>
    content (sy_fs y') (c_GoString path0) = Some [] \<and> usable (sy_fs y') (c_GoString path0) \<and>
    fs_ok E (sy_fs y') \<and> sy_jobs y' = sy_jobs y"
proof -
  let ?p = "c_GoString path0" and ?s = "sy_fs y"
  obtain c where c: "GetNewCache ?s = Some c" using assms(4) by blast
  let ?s1 = "open_new ?s ?p (fresh_file c now now)"
  have mk: "Mknod E now now ?p ?s = Ret ?s1 0 []"
    using assms(3,5-7) c by (auto simp: Mknod_def)
  have nl: "\<not> fs_locked ?s1" and og: "go_get (fs_open ?s1) ?p = Some (length (fs_heap ?s))"
    using assms(3) by (simp_all add: open_new_def)
  then have op: "Open E ?p ?s1 = Ret ?s1 (0, 1) []" by (simp add: Open_def)
  have "cache_bytes c = []" using GetNewCache_ok [OF c env_okD(2) [OF assms(1)]] by blast
  then have "content ?s1 ?p = Some []" "usable ?s1 ?p"
    using nl og by (simp_all add: content_def usable_def file_bytes_def file_at_def open_new_def fresh_file_def)
  moreover have "fs_ok E ?s1" using Mknod_ok [OF assms(1,2), of now now ?p] mk by simp
  ultimately show ?thesis
    using mk op
    by (simp add: hostCreate_def dsfs_ops_def FileSystemBase_def nosys_with_def then_call_def mknod_open_def
        on_sys_def advance_def host_call_def c_int_def Let_def)
qed

lemma host_write:
  assumes "Write E now (c_GoString path0) data ofst0 (sy_fs y) = Ret s n []" "length data \<le> buffer_limit"
  shows "hostWrite (dsfs_ops E now bg) path0 data ofst0 fi0 y = Host (y\<lparr>sy_fs := s\<rparr>) () (c_int n)"
  using assms by (simp add: hostWrite_def plain_def dsfs_ops_def FileSystemBase_def on_sys_def advance_def host_call_def Let_def)

lemma host_read:
  assumes "Read E bg (c_GoString path0) buff ofst0 (sy_fs y) = Ret s (n, buff') []" "length buff \<le> buffer_limit"
  shows "hostRead (dsfs_ops E now bg) path0 buff ofst0 fi0 y = Host (y\<lparr>sy_fs := s\<rparr>) buff' (c_int n)"
  using assms by (simp add: hostRead_def dsfs_ops_def FileSystemBase_def on_sys_def advance_def host_call_def Let_def)

lemma host_panic:
  "Mknod E now now (c_GoString path0) (sy_fs y) = Panics s \<Longrightarrow>
   hostMknod (dsfs_ops E now bg) path0 mode0 dev0 y = Host (y\<lparr>sy_fs := s\<rparr>) () (- EIO)"
  by (simp add: hostMknod_def dsfs_ops_def FileSystemBase_def on_sys_def advance_def plain_def
      host_call_def recoverAsErrno_def Let_def)

end
