(* ===== verification/Sample.thy ===== *)
theory Sample
  imports FileTruncate Listing BlockTransfer WriterQueue TxReplay FuseErrors FuseLaws
begin

text \<open>
  One concrete instance of everything the model leaves open, on which the properties of the
  development are tried: the radix tree as an association list, the sort of the standard
  library, a limit writer that cuts, a checksum that keeps the bytes, an encoder that keeps
  the path; a small database and a file system with one open file.
\<close>

section \<open>The packages\<close>

definition sample_iradix :: "Tx gomap iradix" where
  "sample_iradix = \<lparr>ir_New = [], ir_Get = go_get, ir_Insert = go_set, ir_Delete = go_del,
     ir_SeekPrefix = (\<lambda>t p. filter (\<lambda>(k, v). prefix p k) (AList.clearjunk t))\<rparr>"

lemma sample_iradix_laws: "iradix_laws sample_iradix"
proof -
  have get: "map_of (AList.clearjunk t) k = go_get t k" for t :: "Tx gomap" and k
    by (simp add: map_of_clearjunk go_get_def)
  have "(k, v) \<in> set (AList.clearjunk t) \<longleftrightarrow> go_get t k = Some v" for t :: "Tx gomap" and k v
    by (metis distinct_clearjunk map_of_eq_Some_iff get)
  then show ?thesis
    by (auto simp: iradix_laws_def sample_iradix_def distinct_map_filter)
qed

definition sample_limitw :: "int \<Rightarrow> bytes \<Rightarrow> bytes \<times> int" where
  "sample_limitw lim b = (take (nat lim) b, int (length (take (nat lim) b)))"

definition sample_env :: "Tx gomap env" where
  "sample_env =
     \<lparr>env_cache = \<lparr>ce_grow = (\<lambda>n. 0), ce_limitw = sample_limitw\<rparr>,
      env_db = \<lparr>de_iradix = sample_iradix, de_order = id\<rparr>,
      env_sort = sort_key rstart, env_win = False, env_sum = (\<lambda>b. CHR ''h'' # b),
      env_marshal = tx_Path\<rparr>"

lemma sample_env_sel [simp]:
  "env_cache sample_env = \<lparr>ce_grow = (\<lambda>n. 0), ce_limitw = sample_limitw\<rparr>"
  "env_db sample_env = \<lparr>de_iradix = sample_iradix, de_order = id\<rparr>"
  "env_sort sample_env = sort_key rstart" "env_win sample_env = False"
  "env_sum sample_env b = CHR ''h'' # b" "env_marshal sample_env = tx_Path"
  by (simp_all add: sample_env_def)

lemma sample_limitw_ok [simp]: "limitwriter_ok sample_limitw"
  by (simp add: limitwriter_ok_def sample_limitw_def)

lemma sample_sort_ok [simp]: "sort_ok (sort_key rstart)"
proof -
  have "sorted_wrt (\<lambda>a b. rstart a \<le> rstart b) (sort_key rstart rs)" for rs :: "Range list"
    using sorted_sort_key [of rstart rs] by (simp only: sorted_map)
  then show ?thesis by (simp add: sort_ok_def)
qed

lemma sample_env_ok [simp]: "env_ok sample_env"
  by (simp add: env_ok_def sample_iradix_laws order_ok_def)

section \<open>A file system\<close>

abbreviation rng :: "int \<Rightarrow> int \<Rightarrow> Range" where
  "rng s e \<equiv> \<lparr>rstart = s, rend = e\<rparr>"

lemma range_ok_simps [simp]: "range_ok (rng s e) \<longleftrightarrow> 0 \<le> s \<and> i64 s \<and> i64 e"
  by (simp add: range_ok_def)

definition sample_tx :: Tx where
  "sample_tx = zero_Tx\<lparr>tx_Path := ''/g'', tx_FileIDs := [''id''], tx_Checksums := [''habc''], tx_Size := 3\<rparr>"

definition sample_db :: "Tx gomap" where
  "sample_db = [(''/'', rootTx), (''/d'', folderTx ''/d''), (''/g'', sample_tx)]"

definition sample_file :: "bytes \<Rightarrow> Range list \<Rightarrow> FileData" where
  "sample_file b rs =
     \<lparr>fd_mtim = (0, 0), fd_ctim = (0, 0), fd_syncing = False, fd_load = \<lparr>ranges = rs\<rparr>,
      fd_cache = Mem \<lparr>mc_array = b, mc_len = length b\<rparr>, fd_lock = Free, fd_dirty = True\<rparr>"

definition sample_fs :: "bytes \<Rightarrow> Range list \<Rightarrow> Tx gomap Dsfs" where
  "sample_fs b rs =
     \<lparr>fs_db = MapDB sample_db, fs_open = [(''/f'', 0)], fs_heap = [sample_file b rs], fs_locked = False,
      fs_cacheType = ''memory'', fs_txChannel = ''t'', fs_dataChannel = ''d''\<rparr>"

lemma sample_get [simp]:
  "get sample_env (sample_fs b rs) p =
     (if p = ''/'' then Some rootTx else if p = ''/d'' then Some (folderTx ''/d'')
      else if p = ''/g'' then Some sample_tx else None)"
  by (simp add: get_def db_Get_def sample_fs_def map_Get_def sample_db_def go_get_def)

lemma sample_open [simp]:
  "go_get (fs_open (sample_fs b rs)) p = (if p = ''/f'' then Some 0 else None)"
  by (simp add: sample_fs_def go_get_def)

lemma sample_sel [simp]:
  "fs_locked (sample_fs b rs) = False" "file_at (sample_fs b rs) 0 = sample_file b rs"
  "GetNewCache (sample_fs b rs) = Some (Mem NewMemoryCache)"
  "fd_lock (sample_file b rs) = Free" "ranges (fd_load (sample_file b rs)) = rs"
  "fd_dirty (sample_file b rs)" "\<not> fd_syncing (sample_file b rs)"
  "fd_cache (sample_file b rs) = Mem \<lparr>mc_array = b, mc_len = length b\<rparr>"
  by (simp_all add: sample_fs_def sample_file_def file_at_def GetNewCache_def)

lemma sample_tx_types [simp]:
  "tx_ok sample_tx" "tx_ok rootTx" "tx_Type rootTx = FolderType" "tx_Type sample_tx = FileType"
  "tx_Path sample_tx = ''/g''"
  by (simp_all add: tx_ok_def sample_tx_def rootTx_def folderTx_def zero_Tx_def FileType_def i64_def)

lemma sample_db_ok [simp]: "db_ok (env_db sample_env) (MapDB sample_db)"
  by (simp add: db_ok_def go_ok_def sample_db_def order_ok_def)

lemma sample_fs_ok [simp]:
  assumes "\<forall>r \<in> set rs. range_ok r" "i64 (int (length b))"
  shows "fs_ok sample_env (sample_fs b rs)"
proof -
  have "db_ok (env_db sample_env) (fs_db (sample_fs b rs))"
    using sample_db_ok by (simp add: sample_fs_def)
  moreover have "open_ok (fs_open (sample_fs b rs)) (length (fs_heap (sample_fs b rs)))"
    by (simp add: open_ok_def go_ok_def) (simp add: sample_fs_def)
  moreover have "file_ok sample_env f" if "f \<in> set (fs_heap (sample_fs b rs))" for f
    using that assms
    by (simp add: sample_fs_def file_ok_def cache_ok_def mem_ok_def sample_file_def load_ok_def)
  ultimately show ?thesis by (simp add: fs_ok_def)
qed

lemma sample_view [simp]:
  "content (sample_fs b rs) p = (if p = ''/f'' then Some b else None)"
  "ready (sample_fs b rs) p = (if p = ''/f'' then covered rs else {})"
  "usable (sample_fs b rs) p = (p = ''/f'')" "dirty (sample_fs b rs) p = (p = ''/f'')"
  "syncing (sample_fs b rs) p = False"
  by (simp_all add: content_def ready_def usable_def dirty_def syncing_def file_bytes_def file_ready_def
      cache_bytes_def mem_contents_def)

lemma sample_names [simp]:
  "stored sample_env (sample_fs b rs) p =
     (if p = ''/'' \<or> p = ''/d'' then Some AFolder else if p = ''/g'' then Some AFile else None)"
  "types_ok sample_env (sample_fs b rs)" "fits sample_env tx = (int (length (tx_Path tx)) \<le> MaxDiscordFileSize)"
  by (auto simp: stored_def kind_of_def types_ok_def fits_def)

lemma sample_visible [simp]:
  "is_open (sample_fs b rs) p = (p = ''/f'')"
  "visible sample_env (sample_fs b rs) p = (if p = ''/f'' then Some AFile else stored sample_env (sample_fs b rs) p)"
  by (simp_all add: visible_def is_open_def)

lemma sample_wf [simp]:
  "wf_path ''/''" "wf_path ''/d''" "wf_path ''/f''" "wf_path ''/g''" "wf_path ''/d/x''"
  by (simp_all add: wf_path_def components_def mkpath_def good_name_def)

lemma sample_getDir [simp]:
  "getDir False ''/'' = ''/''" "getDir False ''/d'' = ''/''" "getDir False ''/f'' = ''/''"
  "getDir False ''/g'' = ''/''" "getDir False ''/h'' = ''/''" "getDir False ''/d/x'' = ''/d''"
  by code_simp+

lemma sample_tree [simp]: "tree_ok sample_env (sample_fs b rs)"
  by (auto simp: tree_ok_def)

lemma sample_fs_small: "(\<forall>r \<in> set rs. range_ok r) \<Longrightarrow> length b < 1000 \<Longrightarrow> fs_ok sample_env (sample_fs b rs)"
  by (simp add: i64_def)

lemma sample_fits: "length (tx_Path tx) < 1000 \<Longrightarrow> fits sample_env tx"
  by (simp add: MaxDiscordFileSize_def)

end
