(* ===== verification/ContentProps.thy ===== *)
theory ContentProps
  imports Sample
begin

text \<open>
  The properties of what is in an open file: reading, writing and truncating it, the load
  ranges behind them, the two caches. The witnesses try each on the file \<open>/f\<close> of the
  theory \<open>Sample\<close>.
\<close>

lemma usable_content:
  assumes "usable s p"
  obtains b where "content s p = Some b"
  using assms by (auto simp: usable_def content_def split: option.splits)

section \<open>Reading and writing\<close>

lemma write_then_read:
  assumes "env_ok E" "fs_ok E s" "usable s p" "0 \<le> ofst" "i64 (ofst + int (length data))"
    and "data \<noteq> []" "length buff = length data"
  shows "\<exists>s1 s2. Write E now p data ofst s = Ret s1 (int (length data)) [] \<and>
    Read E bg p buff ofst s1 = Ret s2 (int (length data), data) []"
proof -
  obtain b where b: "content s p = Some b" using usable_content [OF assms(3)] .
  obtain s1 where w: "Write E now p data ofst s = Ret s1 (int (length data)) []" "fs_ok E s1" "usable s1 p"
    "content s1 p = Some (write_bytes b (nat ofst) data)" "{ofst..<ofst + int (length data)} \<subseteq> ready s1 p"
    using Write_view [OF assms(1-5), of now] b by auto
  let ?b = "write_bytes b (nat ofst) data" and ?n = "int (length data)"
  have len: "ofst + ?n \<le> int (length ?b)" "0 < ?n" using assms(4,6) by auto
  have inside: "ofst < int (length ?b)" using len by linarith
  have at: "ofst \<in> ready s1 p" using len(2) w(5) by auto
  obtain s2 n buff' where r: "Read E bg p buff ofst s1 = Ret s2 (clip_ready (int (length ?b)) ofst ?n n, buff') []"
    "ofst + n \<notin> ready s1 p" "0 < n"
    "buff' = go_copy buff (sub_slice ?b (nat ofst) (nat (ofst + clip_ready (int (length ?b)) ofst ?n n)))"
    using Read_ready [OF assms(1) w(2,3,4) assms(4) inside at, of bg buff] unfolding assms(7) by blast
  have "?n \<le> n"
  proof (rule ccontr)
    assume "\<not> ?n \<le> n"
    then have "ofst + n \<in> {ofst..<ofst + ?n}" using r(3) by simp
    then show False using r(2) w(5) by blast
  qed
  then have clip: "clip_ready (int (length ?b)) ofst ?n n = ?n" using len by (simp add: clip_ready_def)
  have "nat (ofst + ?n) = nat ofst + length data" using assms(4) by simp
  then have "buff' = data"
    using r(4) assms(7) unfolding clip by (simp add: sub_slice_write_bytes go_copy_same_length)
  then show ?thesis using w(1) r(1) unfolding clip by blast
qed

text \<open>
  C3. What is written is read: after a write of \<open>data\<close> at an offset, a read of as many bytes
  at that offset returns them all, whatever the file held and had downloaded before, with no
  wait for other goroutines.
\<close>

theorem read_after_write:
  assumes "env_ok E" "fs_ok E s" "usable s p" "0 \<le> ofst" "i64 (ofst + int (length data))"
    and "data \<noteq> []" "length buff = length data"
  shows "\<exists>s1 s2. Write E now p data ofst s = Ret s1 (int (length data)) [] \<and>
    Read E bg p buff ofst s1 = Ret s2 (int (length data), data) []"
  using write_then_read [OF assms] .

theorem read_after_write_witness:
  "\<exists>s1 s2. Write sample_env (5, 0) ''/f'' ''xy'' 2 (sample_fs ''abc'' [rng 0 1]) = Ret s1 2 [] \<and>
    Read sample_env (\<lambda>k f. f) ''/f'' ''..'' 2 s1 = Ret s2 (2, ''xy'') []"
  using read_after_write [of sample_env "sample_fs ''abc'' [rng 0 1]" "''/f''" 2 "''xy''" "''..''" "(5, 0)" "\<lambda>k f. f"]
  by (simp add: i64_def)

text \<open>
  C4. The exact effect of a write: the file's size becomes the larger of its old size and the
  end of the write; the bytes in the written range are the data, those before the old end
  are kept, and a gap in between reads as zero; the written range counts as real data; no
  other file and no database entry changes, and the state stays well-formed.
\<close>

theorem write_content:
  assumes "env_ok E" "fs_ok E s" "usable s p" "content s p = Some b"
    and "0 \<le> ofst" "i64 (ofst + int (length data))"
  shows "\<exists>s' b'. Write E now p data ofst s = Ret s' (int (length data)) [] \<and> fs_ok E s' \<and> fs_db s' = fs_db s \<and>
    content s' = (content s)(p \<mapsto> b') \<and> ready s' = (ready s)(p := ready s p \<union> {ofst..<ofst + int (length data)}) \<and>
    length b' = max (length b) (nat ofst + length data) \<and>
    (\<forall>i < length b'. b' ! i =
       (if nat ofst \<le> i \<and> i < nat ofst + length data then data ! (i - nat ofst)
        else if i < length b then b ! i else zero_byte))"
proof -
  obtain s' where "Write E now p data ofst s = Ret s' (int (length data)) []" "fs_ok E s'" "fs_db s' = fs_db s"
    "content s' = (content s)(p \<mapsto> write_bytes b (nat ofst) data)"
    "ready s' = (ready s)(p := ready s p \<union> {ofst..<ofst + int (length data)})"
    using Write_view [OF assms(1,2,3,5,6), of now] assms(4) by auto
  then show ?thesis
    using nth_write_bytes [of _ b "nat ofst" data]
    by (intro exI [of _ s'] exI [of _ "write_bytes b (nat ofst) data"]) simp
qed

theorem write_content_witness:
  "\<exists>s' b'. Write sample_env (5, 0) ''/f'' ''xy'' 4 (sample_fs ''abc'' [rng 0 3]) = Ret s' 2 [] \<and>
    content s' ''/f'' = Some b' \<and> length b' = 6 \<and> b' ! 3 = zero_byte \<and> b' ! 4 = CHR ''x''"
  using write_content [of sample_env "sample_fs ''abc'' [rng 0 3]" "''/f''" "''abc''" 4 "''xy''" "(5, 0)"]
  by (auto simp: i64_def)

text \<open>
  C9. What a read returns is in the file: for a call that returns \<open>n\<close>, whatever the other
  goroutines did while it waited, \<open>n\<close> is at most the length of the buffer; the first \<open>n\<close>
  bytes of the buffer are the file's bytes at the offset and all of them are real data, not
  the zeros of a part that is still to be downloaded; the rest of the buffer is untouched. (The
  cache is read in one step; what readers beside it do to a cache on disk is in \<open>DiskReaders\<close>.)
\<close>

theorem read_returns_content:
  assumes "env_ok E" "bg_ok E bg" "fs_ok E s" "is_open s p" "0 \<le> ofst" "i64 ofst"
    and "Read E bg p buff ofst s = Ret s' (n, buff') js"
  shows "0 \<le> n \<and> n \<le> int (length buff) \<and> drop (nat n) buff' = drop (nat n) buff \<and>
    {ofst..<ofst + n} \<subseteq> ready s' p \<and>
    (0 < n \<longrightarrow> (\<exists>b. content s' p = Some b \<and> ofst + n \<le> int (length b) \<and>
       take (nat n) buff' = sub_slice b (nat ofst) (nat (ofst + n))))"
proof -
  obtain r where "go_get (fs_open s) p = Some r" using assms(4) by (auto simp: is_open_def)
  note sound = Read_sound [OF assms(1-3) this assms(5-7)]
  show ?thesis using sound(1-4) sound(5) by blast
qed

lemma sample_read:
  "Read sample_env (\<lambda>k f. f) ''/f'' ''.....'' 1 (sample_fs ''abc'' [rng 0 3]) =
     Ret (sample_fs ''abc'' [rng 0 3]) (2, ''bc...'') []"
proof -
  have "read_wait (sort_key rstart) (\<lambda>k f. f) 5 1 0 (sample_file ''abc'' [rng 0 3]) = Ready (sample_file ''abc'' [rng 0 3]) 2"
    by (subst read_wait.simps)
      (simp add: sample_file_def bytesReady_def sortRanges_def Size_def mem_Size_def sub64_def add64_def wrap64_def)
  then show ?thesis
    by (simp add: Read_def ReadRange_def mem_ReadRange_def slice_ok_def sub_slice_def go_copy_def copy_count_def
        add64_def wrap64_def Let_def set_file_def) (simp add: sample_fs_def sample_file_def)
qed

theorem read_returns_content_witness:
  "0 \<le> (2::int) \<and> {1..<3::int} \<subseteq> ready (sample_fs ''abc'' [rng 0 3]) ''/f'' \<and>
   (\<exists>b. content (sample_fs ''abc'' [rng 0 3]) ''/f'' = Some b \<and> ''bc'' = sub_slice b 1 3)"
  using read_returns_content [of sample_env "\<lambda>k f. f" "sample_fs ''abc'' [rng 0 3]" "''/f''" 1 "''.....''", OF _ _ _ _ _ _ sample_read]
  by (simp add: bg_ok_def is_open_def i64_def)

text \<open>
  A read inside a file, at an offset whose byte is there, never waits and returns as much
  as can be returned: the least of the buffer's length, the distance to the end of the file,
  and the distance to the first byte that is not there yet.
\<close>

theorem read_of_loaded_data:
  assumes "env_ok E" "fs_ok E s" "usable s p" "content s p = Some b"
    and "0 \<le> ofst" "ofst < int (length b)" "ofst \<in> ready s p"
  shows "\<exists>s' n k. Read E bg p buff ofst s =
      Ret s' (k, go_copy buff (sub_slice b (nat ofst) (nat (ofst + k)))) [] \<and>
    k = min (min (int (length buff)) n) (int (length b) - ofst) \<and>
    0 < n \<and> {ofst..<ofst + n} \<subseteq> ready s p \<and> ofst + n \<notin> ready s p \<and>
    content s' = content s \<and> ready s' = ready s \<and> usable s' p"
  using Read_ready [OF assms, of bg buff] unfolding clip_ready_def by metis

theorem read_of_loaded_data_witness:
  "\<exists>s' n k. Read sample_env (\<lambda>k f. f) ''/f'' ''.....'' 1 (sample_fs ''abcd'' [rng 2 3, rng 0 2]) =
      Ret s' (k, go_copy ''.....'' (sub_slice ''abcd'' 1 (nat (1 + k)))) [] \<and>
    k = min (min 5 n) 3 \<and> 0 < n \<and> 1 + n \<notin> {2..<3} \<union> {0..<2::int}"
  using read_of_loaded_data [of sample_env "sample_fs ''abcd'' [rng 2 3, rng 0 2]" "''/f''" "''abcd''" 1 "\<lambda>k f. f" "''.....''"]
  by (auto simp: i64_def)

text \<open>
  C40. A hole stays a hole: a read at an offset where nothing was written or downloaded, in a
  file that no other goroutine is filling, returns zero bytes after its last retry. So the
  gap that a write behind the end of a file leaves, and that no download will fill, reads as
  the end of the file, although the file goes on behind it.
\<close>

theorem read_of_hole:
  assumes "env_ok E" "fs_ok E s" "usable s p" "0 \<le> ofst" "i64 ofst" "ofst \<notin> ready s p"
  shows "\<exists>s'. Read E (\<lambda>k f. f) p buff ofst s = Ret s' (0, buff) [] \<and> content s' = content s \<and> ready s' = ready s"
  using Read_idle [OF assms] .

theorem read_of_hole_witness:
  "\<exists>s'. Read sample_env (\<lambda>k f. f) ''/f'' ''.....'' 1 (sample_fs ''abcd'' [rng 0 1, rng 3 4]) = Ret s' (0, ''.....'') []"
  using read_of_hole [of sample_env "sample_fs ''abcd'' [rng 0 1, rng 3 4]" "''/f''" 1 "''.....''"]
  by (auto simp: i64_def)

section \<open>Truncation\<close>

text \<open>
  C10. The effect of a truncation that the load ranges survive: the content is cut or padded
  with zeros to the size asked for, no other file changes; what counts as real data is cut
  with it. When the file grows, the bytes from the old size to the sum of the old and the
  new size are marked as real data, more than the file then has.
\<close>

theorem truncate_effect:
  assumes "env_ok E" "fs_ok E s" "usable s p" "content s p = Some b" "0 \<le> sz" "i64 sz"
    and "sz < int (length b) \<longrightarrow> \<not> (\<exists>j. overruns sz (load_ranges s p) j)"
  shows "\<exists>s'. fs_Truncate E now p sz s = Ret s' 0 [] \<and> fs_ok E s' \<and> usable s' p \<and>
    content s' = (content s)(p \<mapsto> resize b (nat sz)) \<and>
    ready s' = (ready s)(p :=
      (if sz < int (length b) then ready s p \<inter> {..<sz}
       else if sz = int (length b) then ready s p
       else ready s p \<union> {int (length b)..<add64 (int (length b)) sz}))"
proof -
  consider "sz < int (length b)" | "sz = int (length b)" | "int (length b) < sz" by linarith
  then show ?thesis
  proof cases
    case 1
    then have "resize b (nat sz) = take (nat sz) b" by (simp add: resize_def)
    then show ?thesis
      using truncate_shrinks [OF assms(1-5) 1, of now] assms(7) 1 by (simp add: truncate_fails_def)
  next
    case 2
    then show ?thesis
      using truncate_same [OF assms(3,4,2), of now] assms(2-4) by (auto simp: fun_upd_idem)
  next
    case 3
    then have "resize b (nat sz) = b @ replicate (nat sz - length b) zero_byte" by (simp add: resize_def)
    then show ?thesis
      using truncate_grows [OF assms(1-4) 3 assms(6), of now] 3 by auto
  qed
qed

theorem truncate_effect_witness:
  "\<exists>s'. fs_Truncate sample_env (5, 0) ''/f'' 2 (sample_fs ''abcd'' [rng 0 1, rng 3 4]) = Ret s' 0 [] \<and>
    content s' ''/f'' = Some ''ab'' \<and> ready s' ''/f'' = ({0..<1} \<union> {3..<4}) \<inter> {..<2}"
proof -
  have "\<not> overruns 2 [rng 0 1, rng 3 4] j" for j
    by (cases j) (auto simp: overruns_def out_of_def n_removed_def less_Suc_eq nth_Cons')
  then show ?thesis
    using truncate_effect [of sample_env "sample_fs ''abcd'' [rng 0 1, rng 3 4]" "''/f''" "''abcd''" 2 "(5, 0)"]
    by (auto simp: i64_def load_ranges_def resize_def)
qed

text \<open>
  C27. When shrinking fails, and what is left then: the call panics exactly when the loop over
  the load ranges has to change an element behind the shortened slice (\<open>overruns\<close>), which two
  ranges behind the new end can bring about; and after the panic the lock of the file stays
  taken: every later read, write or truncation of the file blocks for ever.
\<close>

theorem truncate_panic_deadlocks:
  assumes "env_ok E" "fs_ok E s" "usable s p" "content s p = Some b" "0 \<le> sz" "sz < int (length b)"
  shows "(case fs_Truncate E now p sz s of
      Ret s' res js \<Rightarrow> res = 0 \<and> \<not> (\<exists>j. overruns sz (load_ranges s p) j)
    | Panics s' \<Rightarrow> (\<exists>j. overruns sz (load_ranges s p) j) \<and>
        (\<forall>bg buff ofst now' sz'. Read E bg p buff ofst s' = Blocks \<and> Write E now' p buff ofst s' = Blocks \<and>
           fs_Truncate E now' p sz' s' = Blocks)
    | Blocks \<Rightarrow> False)"
proof (cases "truncate_fails s p sz")
  case True
  obtain s' r where s': "fs_Truncate E now p sz s = Panics s'" "go_get (fs_open s') p = Some r"
    "fd_lock (file_at s' r) = WHeld"
    using truncate_panic_state [OF assms(2-6) True] by blast
  then show ?thesis using True stuck_calls [OF s'(2,3)] by (simp add: truncate_fails_def)
next
  case False
  then show ?thesis
    using truncate_shrinks [OF assms(1-6) False, of now] by (auto simp: truncate_fails_def)
qed

theorem truncate_panic_deadlocks_witness:
  "(case fs_Truncate sample_env (5, 0) ''/f'' 1 (sample_fs ''abcd'' [rng 1 2, rng 3 4]) of
      Ret s' res js \<Rightarrow> False
    | Panics s' \<Rightarrow> Read sample_env (\<lambda>k f. f) ''/f'' ''.'' 0 s' = Blocks
    | Blocks \<Rightarrow> False)"
proof -
  have "overruns 1 [rng 1 2, rng 3 4] 1"
    by (simp add: overruns_def out_of_def n_removed_def)
  then show ?thesis
    using truncate_panic_deadlocks [of sample_env "sample_fs ''abcd'' [rng 1 2, rng 3 4]" "''/f''" "''abcd''" 1 "(5, 0)"]
    by (auto simp: i64_def load_ranges_def split: outcome.splits)
qed

text \<open>
  A grown file can no longer be read behind its end: after a truncation that grows a
  file kept in memory, a read at an offset between the new size and the sum of the sizes,
  where an ordinary file system reports the end of the file, panics.
\<close>

theorem grown_read_panics:
  assumes "env_ok E" "fs_ok E s" "usable s p" "content s p = Some b"
    and "int (length b) < sz" "sz < ofst" "ofst < int (length b) + sz" "i64 (int (length b) + sz)"
    and "fs_open s = [(p, r)]" "fd_cache (file_at s r) = Mem m"
  shows "\<exists>s1 s2. fs_Truncate E now p sz s = Ret s1 0 [] \<and> content s1 p = Some (resize b (nat sz)) \<and>
    Read E bg p buff ofst s1 = Panics s2"
proof -
  have r: "go_get (fs_open s) p = Some r" using assms(9) by (simp add: go_get_def)
  have i: "i64 sz" "i64 ofst" using assms(5-8) by (auto simp: i64_def)
  obtain s1 where s1: "fs_Truncate E now p sz s = Ret s1 0 []" "fs_ok E s1" "usable s1 p"
    "content s1 p = Some (b @ replicate (nat sz - length b) zero_byte)"
    "ready s1 p = ready s p \<union> {int (length b)..<int (length b) + sz}"
    "Truncate (env_cache E) (fd_cache (file_at s r)) sz = Some (fd_cache (file_at s1 r))" "fs_open s1 = fs_open s"
    using truncate_grows [OF assms(1-4,5) i(1), of now] r assms(8) by (auto simp: i64_simps)
  obtain m1 where "Mem m1 = fd_cache (file_at s1 r)"
    using s1(6) assms(10) by (auto simp: Truncate_def)
  note m1 = this [symmetric]
  have r1: "go_get (fs_open s1) p = Some r" using r s1(7) by simp
  have "int (length (b @ replicate (nat sz - length b) zero_byte)) = sz" using assms(5) by simp
  then have "Size (fd_cache (file_at s1 r)) = sz"
    using s1(4) r1 Size_ok(1) [of "env_cache E" "fd_cache (file_at s1 r)"] fs_okD(5) [OF s1(2) r1]
    by (simp add: content_def file_bytes_def file_ok_def)
  then have "mem_Size m1 < ofst" using m1 assms(6) by (simp add: Size_def)
  moreover have "ofst \<in> ready s1 p" using s1(5) assms(5-7) by simp
  ultimately show ?thesis
    using Read_behind_end [OF assms(1) s1(2,3) r1 m1 _ _ i(2), of bg buff] s1(1,4) assms(5)
    by (auto simp: resize_def)
qed

theorem grown_read_panics_witness:
  "\<exists>s1 s2. fs_Truncate sample_env (5, 0) ''/f'' 4 (sample_fs ''ab'' [rng 0 2]) = Ret s1 0 [] \<and>
    Read sample_env (\<lambda>k f. f) ''/f'' ''..'' 5 s1 = Panics s2"
  using grown_read_panics [of sample_env "sample_fs ''ab'' [rng 0 2]" "''/f''" "''ab''" 4 5 0 _ "(5, 0)" "\<lambda>k f. f" "''..''"]
  by (auto simp: i64_def) (auto simp: sample_fs_def)

text \<open>
  The attributes follow the content: after a write the size that \<open>Getattr\<close> reports is the
  length of the content the write left.
\<close>

theorem getattr_after_write:
  assumes "env_ok E" "fs_ok E s" "usable s p" "content s p = Some b"
    and "0 \<le> ofst" "i64 (ofst + int (length data))"
  shows "\<exists>s' st'. Write E now p data ofst s = Ret s' (int (length data)) [] \<and>
    Getattr E p st s' = Ret s' (0, st') [] \<and> st_Mode st' = S_IFREG OR mode_777 \<and>
    st_Size st' = max (int (length b)) (ofst + int (length data))"
proof -
  obtain s' where s': "Write E now p data ofst s = Ret s' (int (length data)) []" "fs_ok E s'" "usable s' p"
    "content s' p = Some (write_bytes b (nat ofst) data)"
    using Write_view [OF assms(1,2,3,5,6), of now] assms(4) by auto
  have "\<not> fs_locked s'" using s'(3) by (simp add: usable_def)
  then show ?thesis
    using Getattr_open [OF s'(2) _ s'(4), of st] s'(1) assms(5) by (auto simp: max_def)
qed

theorem getattr_after_write_witness:
  "\<exists>s' st'. Write sample_env (5, 0) ''/f'' ''xy'' 4 (sample_fs ''abc'' [rng 0 3]) = Ret s' 2 [] \<and>
    Getattr sample_env ''/f'' zero_Stat s' = Ret s' (0, st') [] \<and> st_Size st' = 6"
  using getattr_after_write [of sample_env "sample_fs ''abc'' [rng 0 3]" "''/f''" "''abc''" 4 "''xy''" "(5, 0)" zero_Stat]
  by (auto simp: i64_def)

section \<open>Load ranges\<close>

text \<open>
  The two queries on load ranges are exact, whatever the order, overlaps and gaps of the
  ranges: \<open>isReady\<close> says whether every offset of a non-empty interval is covered, and only
  reorders the ranges; \<open>bytesReady\<close> is the distance to the first offset that is not covered: it
  is not negative, every offset before it is covered, and the one at it is not.
\<close>

theorem load_queries_exact:
  assumes "sort_ok sortf" "load_i64 l" "s < e" "0 \<le> i" "i64 i"
  shows "snd (isReady sortf l s e) = ({s..<e} \<subseteq> covered (ranges l)) \<and>
    mset (ranges (fst (isReady sortf l s e))) = mset (ranges l) \<and>
    0 \<le> snd (bytesReady sortf l i) \<and> {i..<i + snd (bytesReady sortf l i)} \<subseteq> covered (ranges l) \<and>
    i + snd (bytesReady sortf l i) \<notin> covered (ranges l)"
  using isReady_correct [OF assms(1,3), of l] bytesReady_bounds [OF assms(1,2,4,5)] assms(1)
  by (simp add: isReady_def sortRanges_def sort_ok_def Let_def)

theorem load_queries_exact_witness:
  "snd (isReady (sort_key rstart) \<lparr>ranges = [rng 4 9, rng 0 5, rng 11 12]\<rparr> 1 8) \<and>
   1 + snd (bytesReady (sort_key rstart) \<lparr>ranges = [rng 4 9, rng 0 5, rng 11 12]\<rparr> 1) \<notin>
     {4..<9} \<union> {0..<5} \<union> {11..<12::int}"
  using load_queries_exact [of "sort_key rstart" "\<lparr>ranges = [rng 4 9, rng 0 5, rng 11 12]\<rparr>" 1 8 1]
  by (auto simp: load_i64_def i64_def)

text \<open>
  \<open>truncate\<close> against its reference: when it returns, the ranges left are, up to their
  order, those of the reference that drops the ranges behind the end and cuts the others; the
  offsets covered are those before the end. It returns unless the loop overruns the slice.
\<close>

theorem truncate_refines:
  "case truncate_load l e of
     Some l' \<Rightarrow> mset (ranges l') = mset (truncate_spec e (ranges l)) \<and>
       covered (ranges l') = covered (ranges l) \<inter> {..<e} \<and> \<not> (\<exists>j. overruns e (ranges l) j)
   | None \<Rightarrow> (\<exists>j. overruns e (ranges l) j)"
  using truncate_None_iff [of l e] truncate_Some [of l e] covered_truncate [of l e]
  by (auto split: option.split)

section \<open>The caches\<close>

text \<open>
  C19. The two caches are interchangeable: a memory cache and a disk cache with the same
  content report the same size; reads of a range inside it return the same bytes and counts
  and change neither; writes that fill such a range and truncations to any size succeed on
  both, return the same count, and leave the same content again.
\<close>

theorem caches_agree:
  assumes "mem_ok m" "disk_ok lw d" "mem_contents m = disk_contents d"
  shows "mem_Size m = disk_Size d \<and>
    (0 \<le> s \<and> s \<le> e \<and> e \<le> mem_Size m \<longrightarrow>
      (\<exists>m' d' buf' n. mem_ReadRange m s e buf = Some (m', buf', n) \<and> disk_ReadRange d s e buf = Some (d', buf', n) \<and>
         mem_ok m' \<and> disk_ok lw d' \<and> mem_contents m' = mem_contents m \<and> disk_contents d' = disk_contents d)) \<and>
    (0 \<le> s \<and> e = s + int (length buf) \<and> e \<le> mem_Size m \<longrightarrow>
      (\<exists>m' d' n. mem_WriteRange m s e buf = Some (m', n) \<and> disk_WriteRange lw d s e buf = Some (d', n) \<and>
         mem_ok m' \<and> disk_ok lw d' \<and> mem_contents m' = disk_contents d')) \<and>
    (0 \<le> sz \<and> i64 sz \<longrightarrow>
      (\<exists>m' d'. mem_Truncate grow m sz = Some m' \<and> disk_Truncate d sz = Some d' \<and>
         mem_ok m' \<and> disk_ok lw d' \<and> mem_contents m' = disk_contents d'))"
proof (intro conjI impI)
  show size: "mem_Size m = disk_Size d"
    using memcache.size_law [OF assms(1)] diskcache.size_law [OF assms(2)] assms(3) by simp
  show "\<exists>m' d' buf' n. mem_ReadRange m s e buf = Some (m', buf', n) \<and> disk_ReadRange d s e buf = Some (d', buf', n) \<and>
         mem_ok m' \<and> disk_ok lw d' \<and> mem_contents m' = mem_contents m \<and> disk_contents d' = disk_contents d"
    if "0 \<le> s \<and> s \<le> e \<and> e \<le> mem_Size m"
    using memcache.read_law [OF assms(1), of s e buf] diskcache.read_law [OF assms(2), of s e buf] that size
    unfolding assms(3) by metis
  show "\<exists>m' d' n. mem_WriteRange m s e buf = Some (m', n) \<and> disk_WriteRange lw d s e buf = Some (d', n) \<and>
         mem_ok m' \<and> disk_ok lw d' \<and> mem_contents m' = disk_contents d'"
    if w: "0 \<le> s \<and> e = s + int (length buf) \<and> e \<le> mem_Size m"
  proof -
    have b: "0 \<le> s" "e = s + int (length buf)" "e \<le> mem_Size m" "e \<le> disk_Size d" using w size by simp_all
    obtain m' where "mem_WriteRange m s e buf = Some (m', int (length buf))" "mem_ok m'"
      "mem_contents m' = put_slice (mem_contents m) (nat s) (nat e) buf"
      using memcache.write_exact [OF assms(1) b(1-3)] by blast
    moreover obtain d' where "disk_WriteRange lw d s e buf = Some (d', int (length buf))" "disk_ok lw d'"
      "disk_contents d' = put_slice (disk_contents d) (nat s) (nat e) buf"
      using diskcache.write_exact [OF assms(2) b(1,2,4)] by blast
    ultimately show ?thesis using assms(3) by auto
  qed
  show "\<exists>m' d'. mem_Truncate grow m sz = Some m' \<and> disk_Truncate d sz = Some d' \<and>
         mem_ok m' \<and> disk_ok lw d' \<and> mem_contents m' = disk_contents d'"
    if "0 \<le> sz \<and> i64 sz"
    using memcache.truncate_law [OF assms(1), of sz grow] diskcache.truncate_law [OF assms(2), of sz] that
    unfolding assms(3) by metis
qed

theorem caches_agree_witness:
  "\<exists>m' d' n. mem_WriteRange \<lparr>mc_array = ''abcd'', mc_len = 3\<rparr> 1 3 ''xy'' = Some (m', n) \<and>
     disk_WriteRange sample_limitw \<lparr>dc_file = \<lparr>of_bytes = ''abc'', of_pos = 2, of_closed = False\<rparr>, dc_size = 3\<rparr> 1 3 ''xy''
       = Some (d', n) \<and> mem_contents m' = disk_contents d'"
proof -
  let ?m = "\<lparr>mc_array = ''abcd'', mc_len = 3\<rparr>"
  let ?d = "\<lparr>dc_file = \<lparr>of_bytes = ''abc'', of_pos = 2, of_closed = False\<rparr>, dc_size = 3\<rparr>"
  have ok: "mem_ok ?m" "disk_ok sample_limitw ?d" "mem_contents ?m = disk_contents ?d"
    by (simp_all add: mem_ok_def disk_ok_def mem_contents_def disk_contents_def i64_def)
  show ?thesis using caches_agree [OF ok, of 1 3 "''xy''"] by (force simp: mem_Size_def)
qed

end
