(* ===== verification/NameTree.thy ===== *)
theory NameTree
  imports Listing FsSystem
begin

text \<open>
  The stored names as a transition system: every sequence of calls that FUSE lets through
  keeps them a tree, and keeps the rest of what the methods on names rely on.
\<close>

section \<open>Calls\<close>

text \<open>
  What FUSE checks before it passes a call on: paths are absolute and clean, the parent of a
  new name is no file, the root is neither removed nor moved, a folder does not replace a
  file nor move into itself. The encoded transactions are short enough.
\<close>

inductive tree_step :: "'t env \<Rightarrow> 't Dsfs \<Rightarrow> 't Dsfs \<Rightarrow> bool" for E where
  mknod: "Mknod E t1 t2 p s = Ret s' res js \<Longrightarrow> tree_step E s s'"
| mkdir: "Mkdir E p s = Ret s' res js \<Longrightarrow> wf_path p \<Longrightarrow> stored E s (getDir (env_win E) p) \<noteq> Some AFile \<Longrightarrow>
    fits E (folderTx p) \<Longrightarrow> tree_step E s s'"
| opens: "Open E p s = Ret s' h js \<Longrightarrow> tree_step E s s'"
| unlink: "Unlink E p s = Ret s' res js \<Longrightarrow> fits E (createDeleteTx p) \<Longrightarrow> tree_step E s s'"
| rmdir: "Rmdir E p s = Ret s' res js \<Longrightarrow> p \<noteq> [slash] \<Longrightarrow> fits E (createDeleteTx p) \<Longrightarrow> tree_step E s s'"
| rename: "Rename E old new s = Ret s' res js \<Longrightarrow> rename_legal E s old new \<Longrightarrow> fits E (createDeleteTx old) \<Longrightarrow>
    (\<And>tx. get E s old = Some tx \<Longrightarrow> fits E (tx\<lparr>tx_Path := new\<rparr>)) \<Longrightarrow> tree_step E s s'"
| truncates: "0 \<le> sz \<Longrightarrow> i64 sz \<Longrightarrow> fs_Truncate E now p sz s = Ret s' res js \<Longrightarrow> tree_step E s s'"
| writes: "0 \<le> ofst \<Longrightarrow> i64 (ofst + int (length buff)) \<Longrightarrow> Write E now p buff ofst s = Ret s' res js \<Longrightarrow> tree_step E s s'"
| reads: "0 \<le> ofst \<Longrightarrow> i64 ofst \<Longrightarrow> bg_ok E bg \<Longrightarrow> Read E bg p buff ofst s = Ret s' out js \<Longrightarrow> tree_step E s s'"

inductive_cases tree_stepE [consumes 1]: "tree_step E s s'"

definition tree_inv :: "'t env \<Rightarrow> 't Dsfs \<Rightarrow> bool" where
  "tree_inv E s \<longleftrightarrow> env_ok E \<and> fs_ok E s \<and> \<not> fs_locked s \<and> types_ok E s \<and> tree_ok E s"

section \<open>Calls that keep the database\<close>

lemma keeps_db:
  "Mknod E t1 t2 p s = Ret s' res js \<Longrightarrow> fs_db s' = fs_db s \<and> fs_locked s' = fs_locked s"
  "Open E p s = Ret s' h js \<Longrightarrow> fs_db s' = fs_db s \<and> fs_locked s' = fs_locked s"
  "fs_Truncate E now p sz s = Ret s' res js \<Longrightarrow> fs_db s' = fs_db s \<and> fs_locked s' = fs_locked s"
  "Write E now p buff ofst s = Ret s' res js \<Longrightarrow> fs_db s' = fs_db s \<and> fs_locked s' = fs_locked s"
  "Read E bg p buff ofst s = Ret s' out js \<Longrightarrow> fs_db s' = fs_db s \<and> fs_locked s' = fs_locked s"
proof -
  show "Mknod E t1 t2 p s = Ret s' res js \<Longrightarrow> fs_db s' = fs_db s \<and> fs_locked s' = fs_locked s"
    by (auto simp: Mknod_def open_new_def split: if_splits option.splits)
  show "Open E p s = Ret s' h js \<Longrightarrow> fs_db s' = fs_db s \<and> fs_locked s' = fs_locked s"
    by (auto simp: Open_def open_new_def split: if_splits option.splits)
  show "fs_Truncate E now p sz s = Ret s' res js \<Longrightarrow> fs_db s' = fs_db s \<and> fs_locked s' = fs_locked s"
    by (auto simp: fs_Truncate_def Let_def split: if_splits option.splits)
  show "Write E now p buff ofst s = Ret s' res js \<Longrightarrow> fs_db s' = fs_db s \<and> fs_locked s' = fs_locked s"
    by (auto simp: Write_def Let_def split: if_splits option.splits prod.splits)
  show "Read E bg p buff ofst s = Ret s' out js \<Longrightarrow> fs_db s' = fs_db s \<and> fs_locked s' = fs_locked s"
    by (auto simp: Read_def split: if_splits option.splits wait.splits)
qed

lemma same_db:
  assumes "fs_db s' = fs_db s"
  shows "stored E s' = stored E s" and "types_ok E s' = types_ok E s" and "tree_ok E s' = tree_ok E s"
proof -
  have "get E s' = get E s" using assms by (simp add: get_def fun_eq_iff)
  then show "stored E s' = stored E s" and "types_ok E s' = types_ok E s" and "tree_ok E s' = tree_ok E s"
    by (simp_all add: stored_def types_ok_def tree_ok_def fun_eq_iff)
qed

lemma tree_inv_same_db:
  assumes "tree_inv E s" "fs_db s' = fs_db s \<and> fs_locked s' = fs_locked s" "fs_ok E s'"
  shows "tree_inv E s'"
  using assms same_db [of s' s E] by (simp add: tree_inv_def)

section \<open>Calls that change it\<close>

definition type_known :: "Tx \<Rightarrow> bool" where
  "type_known tx \<longleftrightarrow> tx_Type tx = FileType \<or> tx_Type tx = FolderType"

lemma types_ok_get: "types_ok E s \<Longrightarrow> get E s k = Some tx \<Longrightarrow> type_known tx"
  by (auto simp: types_ok_def type_known_def)

lemma types_ok_insert:
  "db_ok (env_db E) (fs_db s) \<Longrightarrow> types_ok E s \<Longrightarrow> type_known tx \<Longrightarrow>
   types_ok E (s\<lparr>fs_db := db_Insert (env_db E) (fs_db s) k tx\<rparr>)"
  by (auto simp: types_ok_def type_known_def)

lemma types_ok_delete:
  "db_ok (env_db E) (fs_db s) \<Longrightarrow> types_ok E s \<Longrightarrow>
   types_ok E (s\<lparr>fs_db := db_Delete (env_db E) (fs_db s) k\<rparr>)"
  by (auto simp: types_ok_def)

lemma types_ok_open [simp]: "types_ok E (s\<lparr>fs_open := m\<rparr>) = types_ok E s"
  by (simp add: types_ok_def)

lemma types_ok_move [simp]: "types_ok E (move_open s a b) = types_ok E s"
  by (simp add: types_ok_def)

lemma rename_commit_types:
  assumes "db_ok (env_db E) (fs_db s)" "types_ok E s" "type_known tx"
    and "rename_commit E old new tx s = Ret s' res js"
  shows "types_ok E s' \<and> fs_locked s' = fs_locked s"
proof -
  let ?tx = "tx\<lparr>tx_Path := new\<rparr>"
  let ?s1 = "s\<lparr>fs_db := db_Insert (env_db E) (fs_db s) old ?tx\<rparr>"
  let ?s2 = "?s1\<lparr>fs_db := db_Insert (env_db E) (fs_db ?s1) new ?tx\<rparr>"
  have tx: "type_known ?tx" using assms(3) by (simp add: type_known_def)
  have 1: "types_ok E ?s1" "db_ok (env_db E) (fs_db ?s1)"
    using types_ok_insert [OF assms(1,2) tx] anydb.ok_insert [OF assms(1)] by simp_all
  have 2: "types_ok E ?s2" "db_ok (env_db E) (fs_db ?s2)"
    using types_ok_insert [OF 1(2,1) tx] anydb.ok_insert [OF 1(2)] by simp_all
  have "types_ok E (?s2\<lparr>fs_db := db_Delete (env_db E) (fs_db ?s2) old\<rparr>)"
    using types_ok_delete [OF 2(2,1)] .
  then show ?thesis using 1(1) assms(4) by (auto simp: rename_commit_def Let_def split: if_splits)
qed

lemma keeps_types:
  assumes "fs_ok E s" "\<not> fs_locked s" "types_ok E s"
  shows "Mkdir E p s = Ret s' res js \<Longrightarrow> types_ok E s' \<and> \<not> fs_locked s'"
    and "Unlink E p s = Ret s' res js \<Longrightarrow> types_ok E s' \<and> \<not> fs_locked s'"
    and "Rmdir E p s = Ret s' res js \<Longrightarrow> types_ok E s' \<and> \<not> fs_locked s'"
    and "Rename E old new s = Ret s' res js \<Longrightarrow> types_ok E s' \<and> \<not> fs_locked s'"
proof -
  note d = fs_okD(1) [OF assms(1)]
  have folder: "type_known (folderTx p)" by (simp add: type_known_def)
  show "Mkdir E p s = Ret s' res js \<Longrightarrow> types_ok E s' \<and> \<not> fs_locked s'"
    using assms types_ok_insert [OF d assms(3) folder]
    by (auto simp: Mkdir_def Let_def split: if_splits)
  show "Unlink E p s = Ret s' res js \<Longrightarrow> types_ok E s' \<and> \<not> fs_locked s'"
    using assms types_ok_delete [of E "s\<lparr>fs_open := go_del (fs_open s) p\<rparr>" p] d
    by (auto simp: Unlink_def Let_def split: if_splits option.splits)
  show "Rmdir E p s = Ret s' res js \<Longrightarrow> types_ok E s' \<and> \<not> fs_locked s'"
    using assms types_ok_delete [OF d assms(3)]
    by (auto simp: Rmdir_def Let_def split: if_splits option.splits)
  show "Rename E old new s = Ret s' res js \<Longrightarrow> types_ok E s' \<and> \<not> fs_locked s'"
  proof -
    have here: "types_ok E s' \<and> \<not> fs_locked s'"
      if "get E s old = Some tx" "rename_commit E old new tx s = Ret s' res js" for tx
      using rename_commit_types [OF d assms(3) types_ok_get [OF assms(3) that(1)] that(2)] assms(2) by simp
    have moved: "types_ok E s' \<and> \<not> fs_locked s'"
      if "get E s old = Some tx" "rename_commit E old new tx (move_open s old new) = Ret s' res js" for tx
      using rename_commit_types [OF _ _ types_ok_get [OF assms(3) that(1)] that(2)] d assms(2,3) by simp
    show "Rename E old new s = Ret s' res js \<Longrightarrow> types_ok E s' \<and> \<not> fs_locked s'"
      using assms(2,3) by (auto simp: Rename_def dest: here moved split: if_splits option.splits)
  qed
qed

lemma tree_inv_changed:
  assumes "tree_inv E s" "out_ok E (Ret s' res js)" "types_ok E s' \<and> \<not> fs_locked s'" "tree_ok E s'"
  shows "tree_inv E s'"
  using assms by (simp add: tree_inv_def)

section \<open>Every call keeps the invariant\<close>

lemma tree_invD:
  assumes "tree_inv E s"
  shows "env_ok E" "fs_ok E s" "\<not> fs_locked s" "types_ok E s" "tree_ok E s"
  using assms by (simp_all add: tree_inv_def)

lemma tree_inv_step:
  assumes "tree_inv E s" "tree_step E s s'"
  shows "tree_inv E s'"
proof -
  note i = tree_invD [OF assms(1)]
  note same = tree_inv_same_db [OF assms(1)] and changed = tree_inv_changed [OF assms(1)]
  from assms(2) show ?thesis
  proof (cases rule: tree_stepE)
    case (1 t1 t2 p res js)
    then show ?thesis using same [OF keeps_db(1) [OF 1]] Mknod_ok [OF i(1,2), of t1 t2 p] by simp
  next
    case (2 p res js)
    then show ?thesis
      using changed [of s' res js] Mkdir_ok [OF i(2), of p] keeps_types(1) [OF i(2-4) 2(1)]
        Mkdir_tree [OF i(3,2) 2(4) i(5) 2(2,3)] by simp
  next
    case (3 p h js)
    then show ?thesis using same [OF keeps_db(2) [OF 3]] Open_ok [OF i(1,2), of p] by simp
  next
    case (4 p res js)
    then show ?thesis
      using changed [of s' res js] Unlink_ok [OF i(2), of p] keeps_types(2) [OF i(2-4) 4(1)]
        Unlink_tree [OF i(3,2,4) 4(2) i(5)] by simp
  next
    case (5 p res js)
    then show ?thesis
      using changed [of s' res js] Rmdir_ok [OF i(2), of p] keeps_types(3) [OF i(2-4) 5(1)]
        Rmdir_tree [OF i(3,2,4) 5(3) i(5) 5(2)] by simp
  next
    case (6 old new res js)
    then show ?thesis
      using changed [of s' res js] Rename_ok [OF i(2), of old new] keeps_types(4) [OF i(2-4) 6(1)]
        Rename_tree [OF i(3,2,4,5) 6(2,3,4)] by simp
  next
    case (7 sz now p res js)
    then show ?thesis
      using same [OF keeps_db(3) [OF 7(3)]] fs_Truncate_ok [OF i(1,2) 7(1,2), of now p] by simp
  next
    case (8 ofst buff now p res js)
    then show ?thesis
      using same [OF keeps_db(4) [OF 8(3)]] Write_ok [OF i(1,2) 8(1,2), of now p] by simp
  next
    case (9 ofst bg p buff out js)
    then show ?thesis
      using same [OF keeps_db(5) [OF 9(4)]] Read_ok [OF i(1,2) 9(3), of p buff ofst] by simp
  qed
qed

interpretation tree_machine: machine "tree_step E" "tree_inv E" for E
  by unfold_locales (rule tree_inv_step)

end
