(* ===== verification/NameProps.thy ===== *)
theory NameProps
  imports Sample NameTree
begin

text \<open>
  The properties of names: what each method on names answers and does to the names that can
  be seen, the tree, the listing of a folder, paths, and the two databases.
\<close>

section \<open>The methods on names\<close>

lemma ret_ok: "out = Ret s' res js \<Longrightarrow> out_ok E out \<Longrightarrow> fs_ok E s'"
  by simp

text \<open>
  \<open>Mknod\<close> on every branch: an open name exists, a missing parent is \<open>ENOENT\<close>, a stored
  name exists; otherwise the new file becomes visible, is open with no content, nothing else
  that is visible changes, and nothing is stored or sent until it is released.
\<close>

theorem mknod_result:
  assumes "env_ok E" "fs_ok E s" "\<not> fs_locked s" "GetNewCache s \<noteq> None"
  shows "\<exists>s' res. Mknod E t1 t2 p s = Ret s' res [] \<and> stored E s' = stored E s \<and>
    (if is_open s p then res = - EEXIST \<and> s' = s
     else if stored E s (getDir (env_win E) p) = None then res = - ENOENT \<and> s' = s
     else if stored E s p \<noteq> None then res = - EEXIST \<and> s' = s
     else res = 0 \<and> visible E s' = (visible E s)(p \<mapsto> AFile) \<and> content s' p = Some [])"
proof -
  obtain c where c: "GetNewCache s = Some c" using assms(4) by blast
  have "cache_bytes c = []" using GetNewCache_ok [OF c env_okD(2) [OF assms(1)]] by simp
  then have "content (open_new s p (fresh_file c t1 t2)) p = Some []"
    by (simp add: content_def open_new_def file_at_def fresh_file_def file_bytes_def)
  then show ?thesis
    using Mknod_names [OF assms(3) c, of E t1 t2 p] c assms(3)
    by (auto simp: Mknod_def is_open_def split: if_splits)
qed

theorem mknod_result_witness:
  "\<exists>s'. Mknod sample_env (1, 0) (1, 0) ''/h'' (sample_fs ''abc'' []) = Ret s' 0 [] \<and>
    visible sample_env s' ''/h'' = Some AFile \<and> visible sample_env s' ''/g'' = Some AFile \<and> content s' ''/h'' = Some []"
  using mknod_result [of sample_env "sample_fs ''abc'' []" "(1, 0)" "(1, 0)" "''/h''"]
  by (auto simp: i64_def simp del: stored_iff)

text \<open>
  \<open>Mkdir\<close> on every branch: a missing parent, an existing stored name, or success: the
  folder is stored, no other stored name changes, and the transaction for it is sent. A name
  that is only open does not stand in the way.
\<close>

theorem mkdir_result:
  assumes "fs_ok E s" "\<not> fs_locked s" "fits E (folderTx p)"
  shows "\<exists>s' res js. Mkdir E p s = Ret s' res js \<and> fs_ok E s' \<and> fs_open s' = fs_open s \<and>
    (if stored E s (getDir (env_win E) p) = None then res = - ENOENT \<and> s' = s \<and> js = []
     else if stored E s p \<noteq> None then res = - EEXIST \<and> s' = s \<and> js = []
     else res = 0 \<and> stored E s' = (stored E s)(p \<mapsto> AFolder) \<and>
       js = [SendTx (env_marshal E (folderTx p))])"
  using Mkdir_names [OF assms(2,1,3)] Mkdir_ok [OF assms(1), of p] by force

theorem mkdir_result_witness:
  "\<exists>s' js. Mkdir sample_env ''/h'' (sample_fs ''abc'' []) = Ret s' 0 js \<and>
    stored sample_env s' ''/h'' = Some AFolder \<and> js = [SendTx ''/h'']"
  using mkdir_result [of sample_env "sample_fs ''abc'' []" "''/h''"]
  by (auto simp: i64_def MaxDiscordFileSize_def simp del: stored_iff)

text \<open>
  \<open>Unlink\<close> on every branch: a folder is \<open>EISDIR\<close>, an invisible name \<open>ENOENT\<close>, and
  otherwise the name disappears, stored or only open, and no other; the deletion is sent when
  the name was stored.
\<close>

theorem unlink_result:
  assumes "fs_ok E s" "\<not> fs_locked s" "types_ok E s" "fits E (createDeleteTx p)"
  shows "\<exists>s' res js. Unlink E p s = Ret s' res js \<and> fs_ok E s' \<and>
    (if stored E s p = Some AFolder then res = - EISDIR \<and> s' = s \<and> js = []
     else if visible E s p = None then res = - ENOENT \<and> s' = s \<and> js = []
     else res = 0 \<and> stored E s' = (stored E s)(p := None) \<and> visible E s' = (visible E s)(p := None) \<and>
       js = (if stored E s p = None then [] else [SendTx (env_marshal E (createDeleteTx p))]))"
  using Unlink_names [OF assms(2,1,3,4)] Unlink_ok [OF assms(1), of p] by force

theorem unlink_result_witness:
  "\<exists>s' js. Unlink sample_env ''/g'' (sample_fs ''abc'' []) = Ret s' 0 js \<and>
    visible sample_env s' ''/g'' = None \<and> visible sample_env s' ''/f'' = Some AFile \<and> js = [SendTx ''/g'']"
  using unlink_result [of sample_env "sample_fs ''abc'' []" "''/g''"]
  by (auto simp: i64_def MaxDiscordFileSize_def simp del: stored_iff)

text \<open>
  C31. \<open>Rmdir\<close> on every branch. The folder counts as not empty when another stored name
  begins with the folder's path: that holds for a name below it, but also for a neighbour
  whose name continues the folder's (\<open>/d\<close> and \<open>/dx\<close>). Names that are only open do not count.
\<close>

theorem rmdir_result:
  assumes "fs_ok E s" "\<not> fs_locked s" "types_ok E s" "fits E (createDeleteTx p)"
  shows "\<exists>s' res js. Rmdir E p s = Ret s' res js \<and> fs_ok E s' \<and> fs_open s' = fs_open s \<and>
    (if stored E s p = None then res = - ENOENT \<and> s' = s \<and> js = []
     else if stored E s p = Some AFile then res = - ENOTDIR \<and> s' = s \<and> js = []
     else if \<exists>q. q \<noteq> p \<and> stored E s q \<noteq> None \<and> prefix p q then res = - ENOTEMPTY \<and> s' = s \<and> js = []
     else res = 0 \<and> stored E s' = (stored E s)(p := None) \<and>
       js = [SendTx (env_marshal E (createDeleteTx p))])"
  using Rmdir_names [OF assms(2,1,3,4)] Rmdir_ok [OF assms(1), of p] by force

theorem rmdir_result_witness:
  "\<exists>s' js. Rmdir sample_env ''/d'' (sample_fs ''abc'' []) = Ret s' 0 js \<and> stored sample_env s' ''/d'' = None"
proof -
  have "\<not> (\<exists>q. q \<noteq> ''/d'' \<and> stored sample_env (sample_fs ''abc'' []) q \<noteq> None \<and> prefix ''/d'' q)"
    by (auto split: if_splits)
  then show ?thesis
    using rmdir_result [of sample_env "sample_fs ''abc'' []" "''/d''"]
    by (auto simp: i64_def MaxDiscordFileSize_def simp del: stored_iff)
qed

text \<open>
  A folder can be removed from above an open file: \<open>Rmdir\<close> of a folder without stored
  names succeeds although a file in it is open; that file then stays visible below a folder
  that is gone.
\<close>

theorem rmdir_orphans:
  assumes "fs_ok E s" "\<not> fs_locked s" "types_ok E s" "fits E (createDeleteTx p)"
    and "stored E s p = Some AFolder" "\<forall>q. q \<noteq> p \<and> prefix p q \<longrightarrow> stored E s q = None"
    and "is_open s q" "getDir (env_win E) q = p"
  shows "\<exists>s' js. Rmdir E p s = Ret s' 0 js \<and> visible E s' q = Some AFile \<and>
    stored E s' (getDir (env_win E) q) = None"
proof -
  have "\<not> (\<exists>q. q \<noteq> p \<and> stored E s q \<noteq> None \<and> prefix p q)" using assms(6) by metis
  then obtain s' js where s': "Rmdir E p s = Ret s' 0 js" "fs_open s' = fs_open s"
    "stored E s' = (stored E s)(p := None)"
    using Rmdir_names [OF assms(2,1,3,4)] assms(5) by auto
  have "visible E s' q = Some AFile" using assms(7) s'(2) by (simp add: visible_def is_open_def)
  moreover have "stored E s' (getDir (env_win E) q) = None" unfolding s'(3) assms(8) by simp
  ultimately show ?thesis using s'(1) by blast
qed

theorem rmdir_orphans_witness:
  "\<exists>s' js. Rmdir sample_env ''/d'' ((sample_fs ''abc'' [])\<lparr>fs_open := [(''/d/x'', 0)]\<rparr>) = Ret s' 0 js \<and>
    visible sample_env s' ''/d/x'' = Some AFile \<and> stored sample_env s' ''/d'' = None"
proof -
  let ?s = "(sample_fs ''abc'' [])\<lparr>fs_open := [(''/d/x'', 0)]\<rparr>"
  have ok: "fs_ok sample_env (sample_fs ''abc'' [])" by (simp add: i64_def)
  have "fs_ok sample_env ?s"
    by (rule fs_ok_open [OF ok]) (simp add: open_ok_def go_ok_def go_get_def sample_fs_def)
  then show ?thesis
    using rmdir_orphans [of sample_env ?s "''/d''" "''/d/x''"]
    by (auto simp: i64_def MaxDiscordFileSize_def is_open_def go_get_def simp del: stored_iff split: if_splits)
qed

text \<open>
  C21. \<open>Rename\<close> on every branch, for two different names: \<open>ENOENT\<close> without a parent for the
  new name or without the old one; \<open>ENOTEMPTY\<close> for a folder below which (or beside which, see
  \<open>Rmdir\<close>) there is another stored name; otherwise the stored entry and the open file move to
  the new name, replacing what was there, and no other name changes.
\<close>

theorem rename_result:
  assumes "fs_ok E s" "\<not> fs_locked s" "types_ok E s" "old \<noteq> new"
    and "fits E (createDeleteTx old)" "\<And>tx. get E s old = Some tx \<Longrightarrow> fits E (tx\<lparr>tx_Path := new\<rparr>)"
  shows "\<exists>s' res js. Rename E old new s = Ret s' res js \<and> fs_ok E s' \<and> fs_heap s' = fs_heap s \<and>
    (if stored E s (getDir (env_win E) new) = None \<or> visible E s old = None then res = - ENOENT \<and> s' = s
     else if stored E s old = Some AFolder \<and> (\<exists>q. q \<noteq> old \<and> stored E s q \<noteq> None \<and> prefix old q)
     then res = - ENOTEMPTY \<and> s' = s
     else res = 0 \<and>
       stored E s' = (if stored E s old = None then stored E s
                      else (stored E s)(new := stored E s old, old := None)) \<and>
       (\<forall>q. go_get (fs_open s') q =
          (if stored E s old = Some AFolder then go_get (fs_open s) q else move_map (fs_open s) old new q)))"
    (is "\<exists>s' res js. ?A s' res js \<and> _ \<and> ?B s' res")
proof -
  have "\<exists>s' res js. ?A s' res js \<and> ?B s' res"
    by (rule Rename_names [OF assms(2,1,3-5)]) (rule assms(6))
  then show ?thesis
    by (elim ex_forward conjE) (intro conjI, assumption, erule ret_ok, rule Rename_ok [OF assms(1)])
qed

theorem rename_result_witness:
  "\<exists>s' res js. Rename sample_env ''/f'' ''/d/x'' (sample_fs ''abc'' []) = Ret s' res js \<and> res = 0 \<and>
    go_get (fs_open s') ''/d/x'' = Some 0 \<and> go_get (fs_open s') ''/f'' = None"
proof -
  have fit: "fits sample_env (createDeleteTx ''/f'')"
    "get sample_env (sample_fs ''abc'' []) ''/f'' = Some tx \<Longrightarrow> fits sample_env (tx\<lparr>tx_Path := ''/d/x''\<rparr>)" for tx
    by (rule sample_fits, simp) (rule sample_fits, simp)
  have ok: "fs_ok sample_env (sample_fs ''abc'' [])" by (rule sample_fs_small) simp_all
  show ?thesis
    using rename_result [OF ok _ _ _ fit]
    by (simp add: move_map_def del: stored_iff) (elim ex_forward, simp)
qed

text \<open>
  A rename over an open file does not show: when a stored file that is not open replaces
  a name that is open, the call succeeds, the stored entry is replaced, but the content and the
  bytes that readers of the new name see are still those of the file that was there.
\<close>

theorem rename_onto_open_is_stale:
  assumes "fs_ok E s" "\<not> fs_locked s" "types_ok E s" "old \<noteq> new"
    and "fits E (createDeleteTx old)" "\<And>tx. get E s old = Some tx \<Longrightarrow> fits E (tx\<lparr>tx_Path := new\<rparr>)"
    and "stored E s old = Some AFile" "\<not> is_open s old" "is_open s new"
    and "stored E s (getDir (env_win E) new) \<noteq> None"
  shows "\<exists>s' js. Rename E old new s = Ret s' 0 js \<and> stored E s' new = Some AFile \<and> stored E s' old = None \<and>
    content s' new = content s new \<and> ready s' new = ready s new"
proof -
  obtain s' js where s': "Rename E old new s = Ret s' 0 js" "fs_heap s' = fs_heap s"
    "stored E s' = (stored E s)(new := stored E s old, old := None)"
    "\<forall>q. go_get (fs_open s') q = move_map (fs_open s) old new q"
    using Rename_names [OF assms(2,1,3-6)] assms(7,10)
    by (auto simp: visible_def simp del: stored_iff split: if_splits)
  have "go_get (fs_open s') new = go_get (fs_open s) new"
    using s'(4) assms(8) by (simp add: move_map_def is_open_def)
  moreover have "file_at s' = file_at s" using s'(2) by (simp add: file_at_def fun_eq_iff)
  ultimately have "content s' new = content s new" "ready s' new = ready s new"
    by (simp_all add: content_def ready_def cong: option.case_cong)
  then show ?thesis using s'(1,3) assms(4,7) by (auto simp del: stored_iff)
qed

theorem rename_onto_open_is_stale_witness:
  "\<exists>s' js. Rename sample_env ''/g'' ''/f'' (sample_fs ''abc'' [rng 0 3]) = Ret s' 0 js \<and>
    stored sample_env s' ''/f'' = Some AFile \<and> stored sample_env s' ''/g'' = None \<and>
    content s' ''/f'' = Some ''abc'' \<and> ready s' ''/f'' = {0..<3}"
proof -
  let ?s = "sample_fs ''abc'' [rng 0 3]"
  have fit: "fits sample_env (createDeleteTx ''/g'')"
    "get sample_env ?s ''/g'' = Some tx \<Longrightarrow> fits sample_env (tx\<lparr>tx_Path := ''/f''\<rparr>)" for tx
    by (rule sample_fits, simp) (rule sample_fits, simp)
  have ok: "fs_ok sample_env ?s" by (rule sample_fs_small) (simp_all add: i64_def)
  show ?thesis
    using rename_onto_open_is_stale [OF ok _ _ _ fit] by (simp del: stored_iff)
qed

section \<open>The tree\<close>



section \<open>Listing\<close>

text \<open>
  C12. A listing is exact: after the two dot entries it has one entry, under its own last
  component and with the attributes \<open>Getattr\<close> gives, for each visible name whose parent is the
  folder, and nothing else; no name occurs twice, although a file may be both stored and open.
\<close>

theorem readdir_exact:
  assumes "env_ok E" "fs_ok E s" "\<not> fs_locked s" "names_wf E s"
  shows "\<exists>ks. Readdir E path s = Ret s (0, dot_entries @
      map (\<lambda>k. (filepath_Base (env_win E) k, attr_of E s k, 0)) ks) [] \<and>
    set ks = {k. visible E s k \<noteq> None \<and> k \<noteq> path \<and> getDir (env_win E) k = path} \<and>
    distinct ks \<and> distinct (map (filepath_Base (env_win E)) ks)"
  using Readdir_parts [OF assms(1-3)] list_keys_set [OF assms(1,2,4)] list_keys_distinct [OF assms(1,2)]
    list_names_distinct [OF assms(1,2,4)] by blast

theorem readdir_exact_witness:
  "\<exists>ks. Readdir sample_env ''/'' (sample_fs ''abc'' []) = Ret (sample_fs ''abc'' []) (0, dot_entries @
      map (\<lambda>k. (filepath_Base False k, attr_of sample_env (sample_fs ''abc'' []) k, 0)) ks) [] \<and>
    set ks = {''/f'', ''/d'', ''/g''} \<and> distinct ks"
proof -
  let ?s = "sample_fs ''abc'' []"
  have ks: "{k. visible sample_env ?s k \<noteq> None \<and> k \<noteq> ''/'' \<and> getDir (env_win sample_env) k = ''/''} =
      {''/f'', ''/d'', ''/g''}"
    by (auto simp del: stored_iff split: if_splits)
  have ok: "fs_ok sample_env ?s" by (rule sample_fs_small) simp_all
  have "names_wf sample_env ?s" by (auto simp: names_wf_def simp del: stored_iff split: if_splits)
  then show ?thesis
    using readdir_exact [OF sample_env_ok ok, of "''/''"] unfolding ks by auto
qed

section \<open>Paths\<close>

text \<open>
  Paths on both platforms: for the path of the components \<open>ws\<close> and \<open>w\<close>, \<open>getDir\<close> is the path
  of \<open>ws\<close> and \<open>filepath.Base\<close> is \<open>w\<close>, on Windows too, where the library cleans a path with
  backslashes; and a path is determined by its folder and its last component.
\<close>

theorem getDir_Base:
  assumes "list_all good_name ws" "good_name w" "list_all good_name vs" "good_name v"
  shows "getDir win (mkpath (ws @ [w])) = mkpath ws \<and> filepath_Base win (mkpath (ws @ [w])) = w \<and>
    (mkpath (ws @ [w]) = mkpath (vs @ [v]) \<longleftrightarrow> mkpath ws = mkpath vs \<and> w = v)"
  using getDir_mkpath [OF assms(1,2)] filepath_Base_mkpath [OF assms(2)]
    mkpath_inject [of "ws @ [w]" "vs @ [v]"] mkpath_inject [OF assms(1,3)] assms by simp

theorem getDir_Base_witness:
  "getDir True ''/ab/c'' = ''/ab'' \<and> filepath_Base True ''/ab/c'' = ''c''"
  using getDir_Base [of "[''ab'']" "''c''" "[]" "''c''" True]
  by (simp add: mkpath_def good_name_def)

section \<open>The databases\<close>

definition db_run :: "'t db_env \<Rightarrow> (string \<times> Tx option) list \<Rightarrow> 't DB \<Rightarrow> 't DB" where
  "db_run E ops d = foldl (\<lambda>d (k, v). case v of Some tx \<Rightarrow> db_Insert E d k tx | None \<Rightarrow> db_Delete E d k) d ops"

text \<open>
  C20. The two databases are interchangeable: after the same insertions and deletions, in any
  order and number, a lookup of any key gives the same in \<open>RadixDB\<close> and in \<open>MapDB\<close>, and
  their iterators deliver the same entries, each once, though the order may differ.
\<close>

theorem databases_agree:
  assumes "iradix_laws (de_iradix E)" "order_ok (de_order E)"
    and "GetNewDB E ''radix'' = Some d1" "GetNewDB E ''map'' = Some d2"
  shows "db_Get E (db_run E ops d1) k = db_Get E (db_run E ops d2) k \<and>
    mset (db_Iterator E (db_run E ops d1) p) = mset (db_Iterator E (db_run E ops d2) p)"
proof -
  note ok = GetNewDB_empty(1) [OF assms(3,1,2)] GetNewDB_empty(1) [OF assms(4,1,2)]
  have "db_Get E d1 = db_Get E d2"
    using GetNewDB_empty(2) [OF assms(3,1,2)] GetNewDB_empty(2) [OF assms(4,1,2)] by (simp add: fun_eq_iff)
  then have "db_Get E (db_run E ops d1) = db_Get E (db_run E ops d2)"
    and run: "db_ok E (db_run E ops d1)" "db_ok E (db_run E ops d2)"
    using anydb.replay [OF ok(1), of ops] anydb.replay [OF ok(2), of ops] by (simp_all add: db_run_def)
  then show ?thesis using anydb.mset_iter [OF run] by simp
qed

theorem databases_agree_witness:
  "db_Get (env_db sample_env) (db_run (env_db sample_env) [(''/a'', Some rootTx), (''/a'', None)] (RadixDB [])) ''/a'' =
   db_Get (env_db sample_env) (db_run (env_db sample_env) [(''/a'', Some rootTx), (''/a'', None)] (MapDB [])) ''/a''"
  using databases_agree [of "env_db sample_env" "RadixDB []" "MapDB []"
      "[(''/a'', Some rootTx), (''/a'', None)]" "''/a''" "[]"]
  by (simp add: sample_iradix_laws order_ok_def GetNewDB_def) (simp add: sample_iradix_def)

end
