(* ===== verification/TransferProps.thy ===== *)
theory TransferProps
  imports Sample
begin

text \<open>
  The properties of the goroutines that move blocks: the download after an \<open>Open\<close>, the upload
  after a \<open>Release\<close>, the two together, and what can go wrong.
\<close>

section \<open>Download\<close>

text \<open>
  Opening a stored file and letting its download run to the end gives the file: \<open>Open\<close>
  succeeds at once with zeros none of which count as real data, and when every block of \<open>b\<close>
  can be fetched under the identifier the transaction has for it, the goroutine ends, the
  content is \<open>b\<close> and every byte of it counts as real.
\<close>

theorem open_downloads:
  assumes "env_ok E" "fs_ok E s" "\<not> fs_locked s" "go_get (fs_open s) p = None" "GetNewCache s \<noteq> None"
    and "get E s p = Some tx" "tx_Type tx = FileType" "tx_Size tx = int (length b)"
    and "length (tx_FileIDs tx) = n_blocks b"
    and "\<forall>i < n_blocks b. net_dl net (tx_FileIDs tx ! i) = Some (block b i)"
  shows "\<exists>s1 s2. Open E p s = Ret s1 (0, 1) [LoadFile p tx] \<and>
    content s1 p = Some (replicate (length b) zero_byte) \<and> ready s1 p = {} \<and>
    run_job E net (LoadFile p tx) s1 = Ret s2 () [] \<and> fs_ok E s2 \<and> usable s2 p \<and>
    content s2 p = Some b \<and> ready s2 p = {0..<int (length b)}"
  using run_open [OF assms] .

text \<open>A network with one file on it.\<close>

definition sample_net :: net where
  "sample_net = \<lparr>net_dl = (\<lambda>i. if i = ''id'' then Some ''abc'' else None),
     net_up = (\<lambda>b. if b = ''abc'' then Some ''id'' else None), net_tx = (\<lambda>b. True)\<rparr>"

lemma sample_blocks [simp]: "n_blocks ''abc'' = 1" "block ''abc'' 0 = ''abc''"
  by (simp_all add: n_blocks_def block_count_def block_def block_len_def FileBlockSize_def)

theorem open_downloads_witness:
  "\<exists>s1 s2. Open sample_env ''/g'' (sample_fs ''x'' []) = Ret s1 (0, 1) [LoadFile ''/g'' sample_tx] \<and>
    run_job sample_env sample_net (LoadFile ''/g'' sample_tx) s1 = Ret s2 () [] \<and> content s2 ''/g'' = Some ''abc''"
proof -
  have tx: "tx_Size sample_tx = int (length ''abc'')" "length (tx_FileIDs sample_tx) = n_blocks ''abc''"
    "\<forall>i < n_blocks ''abc''. net_dl sample_net (tx_FileIDs sample_tx ! i) = Some (block ''abc'' i)"
    by (simp_all add: sample_tx_def zero_Tx_def sample_net_def)
  have ok: "fs_ok sample_env (sample_fs ''x'' [])" by (rule sample_fs_small) simp_all
  show ?thesis
    using open_downloads [OF sample_env_ok ok _ _ _ _ _ tx, of "''/g''"] by auto
qed

section \<open>Upload\<close>

text \<open>
  A dirty file that is released is stored: \<open>Release\<close> returns at once and starts one
  upload; when the blocks can be sent and the transaction can be encoded and sent, the
  goroutine ends with the database holding, for the path, a transaction with the file's size,
  an identifier for each block in order and the checksum of each block; the content is
  untouched and the file is clean.
\<close>

theorem release_uploads:
  assumes "fs_ok E s" "usable s p" "content s p = Some b" "go_get (fs_open s) p = Some r"
    and "dirty s p" "\<not> syncing s p" "uploadable b" "ids_ok (get E s p)"
    and "upload_ids E net (get E s p) b [0..<n_blocks b] = Some fids"
    and "fits E (uploadedTx E p (file_at s r) b fids)" "net_tx net (env_marshal E (uploadedTx E p (file_at s r) b fids))"
  shows "\<exists>j s'. Release E p s = Ret s 0 [j] \<and> run_job E net j s = Ret s' () [] \<and> fs_ok E s' \<and>
    content s' = content s \<and> ready s' = ready s \<and> \<not> dirty s' p \<and> \<not> syncing s' p \<and>
    get E s' = (get E s)(p \<mapsto> uploadedTx E p (file_at s r) b fids) \<and>
    tx_Size (uploadedTx E p (file_at s r) b fids) = int (length b)"
proof -
  have "\<not> fs_locked s" using assms(2) by (simp add: usable_def)
  note rel = Release_dirty [OF this assms(4,5), of E]
  have "tx_Size (uploadedTx E p (file_at s r) b fids) = int (length b)"
    using Size_ok(1) [of "env_cache E" "fd_cache (file_at s r)"] fs_okD(5) [OF assms(1,4)] assms(3,4)
    by (simp add: uploadedTx_def releaseTx_def content_def file_bytes_def file_ok_def)
  then show ?thesis
    using run_upload(2) [OF assms(1-4,6-9)] assms(10,11) rel unfolding fits_def by blast
qed

lemma sample_upload:
  "upload_ids sample_env sample_net (get sample_env (sample_fs ''abc'' rs) ''/f'') ''abc'' [0..<n_blocks ''abc''] = Some [''id'']"
  by (simp add: old_block_def up_result_def sample_net_def)

theorem release_uploads_witness:
  "\<exists>j s'. Release sample_env ''/f'' (sample_fs ''abc'' []) = Ret (sample_fs ''abc'' []) 0 [j] \<and>
    run_job sample_env sample_net j (sample_fs ''abc'' []) = Ret s' () [] \<and> \<not> dirty s' ''/f'' \<and>
    get sample_env s' ''/f'' = Some (uploadedTx sample_env ''/f'' (sample_file ''abc'' []) ''abc'' [''id''])"
proof -
  let ?s = "sample_fs ''abc'' []"
  have ok: "fs_ok sample_env ?s" by (rule sample_fs_small) simp_all
  have f: "go_get (fs_open ?s) ''/f'' = Some 0" by simp
  have "fits sample_env (uploadedTx sample_env ''/f'' (sample_file ''abc'' []) ''abc'' [''id''])"
    by (rule sample_fits) (simp add: uploadedTx_def releaseTx_def)
  note fit = this [folded sample_sel(2) [of "''abc''" "[]"]]
  have pre: "usable ?s ''/f''" "content ?s ''/f'' = Some ''abc''" "dirty ?s ''/f''" "\<not> syncing ?s ''/f''"
    "uploadable ''abc''" "ids_ok (get sample_env ?s ''/f'')" "net_tx sample_net t" for t
    by (simp_all add: uploadable_def ids_ok_def sample_net_def)
  obtain j s' where "Release sample_env ''/f'' ?s = Ret ?s 0 [j]" "run_job sample_env sample_net j ?s = Ret s' () []"
    "\<not> dirty s' ''/f''" "get sample_env s' = (get sample_env ?s)(''/f'' \<mapsto>
      uploadedTx sample_env ''/f'' (file_at ?s 0) ''abc'' [''id''])"
    using release_uploads [OF ok pre(1,2) f pre(3-6) sample_upload fit pre(7)] by blast
  then show ?thesis by auto
qed

text \<open>
  C28. A failed upload is forgotten: when a block cannot be sent, the upload ends, the database
  keeps what it had, and the file, whose content is nowhere but in the cache, is no longer
  dirty: releasing it again starts nothing.
\<close>

theorem failed_upload_forgotten:
  assumes "fs_ok E s" "usable s p" "content s p = Some b" "go_get (fs_open s) p = Some r"
    and "dirty s p" "\<not> syncing s p" "uploadable b" "ids_ok (get E s p)"
    and "upload_ids E net (get E s p) b [0..<n_blocks b] = None"
  shows "\<exists>j s'. Release E p s = Ret s 0 [j] \<and> run_job E net j s = Ret s' () [] \<and>
    content s' = content s \<and> get E s' = get E s \<and> Release E p s' = Ret s' 0 []"
proof -
  have "\<not> fs_locked s" using assms(2) by (simp add: usable_def)
  note rel = Release_dirty [OF this assms(4,5), of E]
  obtain s' where s': "run_job E net (Upload r p (releaseTx p (file_at s r)) (get E s p)) s = Ret s' () []"
    "content s' = content s" "get E s' = get E s" "usable s' p" "fs_open s' = fs_open s" "\<not> dirty s' p"
    using run_upload(1) [OF assms(1-4,6-9)] by blast
  then have "Release E p s' = Ret s' 0 []"
    using assms(4) by (simp add: Release_def dirty_def usable_def Let_def)
  then show ?thesis using rel s' by blast
qed

theorem failed_upload_forgotten_witness:
  "\<exists>j s'. Release sample_env ''/f'' (sample_fs ''xyz'' []) = Ret (sample_fs ''xyz'' []) 0 [j] \<and>
    run_job sample_env sample_net j (sample_fs ''xyz'' []) = Ret s' () [] \<and>
    get sample_env s' ''/f'' = None \<and> Release sample_env ''/f'' s' = Ret s' 0 []"
proof -
  let ?s = "sample_fs ''xyz'' []"
  have ok: "fs_ok sample_env ?s" by (rule sample_fs_small) simp_all
  have f: "go_get (fs_open ?s) ''/f'' = Some 0" by simp
  have "n_blocks ''xyz'' = 1" "block ''xyz'' 0 = ''xyz''"
    by (simp_all add: n_blocks_def block_count_def block_def block_len_def FileBlockSize_def)
  then have fail: "upload_ids sample_env sample_net (get sample_env ?s ''/f'') ''xyz'' [0..<n_blocks ''xyz''] = None"
    by (simp add: old_block_def up_result_def sample_net_def)
  have pre: "usable ?s ''/f''" "content ?s ''/f'' = Some ''xyz''" "dirty ?s ''/f''" "\<not> syncing ?s ''/f''"
    "uploadable ''xyz''" "ids_ok (get sample_env ?s ''/f'')"
    by (simp_all add: uploadable_def ids_ok_def)
  obtain j s' where "Release sample_env ''/f'' ?s = Ret ?s 0 [j]" "run_job sample_env sample_net j ?s = Ret s' () []"
    "get sample_env s' = get sample_env ?s" "Release sample_env ''/f'' s' = Ret s' 0 []"
    using failed_upload_forgotten [OF ok pre(1,2) f pre(3-6) fail] by blast
  then show ?thesis by auto
qed

text \<open>A new file is not dirty: one that nobody writes to is never stored.\<close>

lemma new_file_not_stored:
  assumes "Mknod E t1 t2 p s = Ret s' 0 js"
  shows "Release E p s' = Ret s' 0 []"
proof -
  obtain c where "\<not> fs_locked s" "s' = open_new s p (fresh_file c t1 t2)"
    using assms by (auto simp: Mknod_def EEXIST_def ENOENT_def split: if_splits option.splits)
  then show ?thesis by (simp add: Release_def open_new_def fresh_file_def file_at_def Let_def)
qed

text \<open>
  C29. A write during an upload is forgotten: while an upload of a file is under way, all its
  blocks sent, the file is written and released. The goroutine of the release ends at once;
  the running upload stores the transaction of the old content and then clears the dirty flag,
  so releasing the file again starts nothing: the new bytes are in the cache and nowhere else.
\<close>

theorem concurrent_write_forgotten:
  assumes "env_ok E" "fs_ok E s" "usable s p" "go_get (fs_open s) p = Some r" "syncing s p"
    and "0 \<le> ofst" "i64 (ofst + int (length buff))" "content s p = Some b"
    and "fits E tx" "net_tx net (env_marshal E tx)"
  shows "\<exists>s1 j s2. Write E now p buff ofst s = Ret s1 (int (length buff)) [] \<and>
    Release E p s1 = Ret s1 0 [j] \<and> start_job j s1 = (s1, None) \<and>
    task_step E net (Uploading r p tx old []) s1 = Ret s2 None [] \<and> get E s2 p = Some tx \<and>
    content s2 p = Some (write_bytes b (nat ofst) buff) \<and> Release E p s2 = Ret s2 0 []"
proof -
  obtain s1 where w: "Write E now p buff ofst s = Ret s1 (int (length buff)) []" "fs_ok E s1" "usable s1 p"
    "content s1 p = Some (write_bytes b (nat ofst) buff)"
    using Write_view [OF assms(1-3,6,7), of now] assms(8) by auto
  have o: "go_get (fs_open s1) p = Some r" "dirty s1 p" "syncing s1 p"
    using Write_flags [OF w(1) assms(2)] assms(4,5) by simp_all
  have l: "\<not> fs_locked s1" using w(3) by (rule usableE)
  let ?s2 = "(upload_done r s1)\<lparr>fs_db := db_Insert (env_db E) (fs_db s1) p tx\<rparr>"
  note u = upload_done_view [OF w(2,3) o(1)]
  have "Release E p ?s2 = Ret ?s2 0 []" using u(3,4) by (intro Release_clean) simp_all
  moreover have "get E ?s2 p = Some tx"
    using anydb.get_insert [OF fs_okD(1) [OF w(2)]] by (simp add: get_def)
  moreover have "task_step E net (Uploading r p tx old []) s1 = Ret ?s2 None []"
    using upload_last [OF l, of E net r p tx old] assms(9,10) by (simp add: fits_def)
  moreover have "start_job (Upload r p (releaseTx p (file_at s1 r)) (get E s1 p)) s1 = (s1, None)"
    using o(1,3) by (simp add: start_job_def syncing_def Let_def)
  ultimately show ?thesis using w(1,4) Release_dirty [OF l o(1,2), of E] u(1) by auto
qed

theorem concurrent_write_forgotten_witness:
  "\<exists>s1 j s2. Write sample_env (9, 0) ''/f'' ''XY'' 1 ((sample_fs ''abc'' [])\<lparr>fs_heap := [(sample_file ''abc'' [])\<lparr>fd_syncing := True\<rparr>]\<rparr>) = Ret s1 2 [] \<and>
    Release sample_env ''/f'' s1 = Ret s1 0 [j] \<and> start_job j s1 = (s1, None) \<and>
    task_step sample_env sample_net (Uploading 0 ''/f'' (zero_Tx\<lparr>tx_Path := ''/f''\<rparr>) None []) s1 = Ret s2 None [] \<and>
    content s2 ''/f'' = Some ''aXY'' \<and> Release sample_env ''/f'' s2 = Ret s2 0 []"
proof -
  let ?f = "(sample_file ''abc'' [])\<lparr>fd_syncing := True\<rparr>"
  let ?s = "set_file (sample_fs ''abc'' []) 0 ?f" and ?tx = "zero_Tx\<lparr>tx_Path := ''/f''\<rparr>"
  have s: "(sample_fs ''abc'' [])\<lparr>fs_heap := [?f]\<rparr> = ?s" by (simp add: set_file_def sample_fs_def)
  have ok: "fs_ok sample_env (sample_fs ''abc'' [])" by (rule sample_fs_small) simp_all
  note v = set_flags_view [OF ok, of "''/f''" "''abc''" 0 ?f]
  have pre: "fs_ok sample_env ?s" "usable ?s ''/f''" "content ?s ''/f'' = Some ''abc''" "syncing ?s ''/f''"
    using v ok by (simp_all add: i64_def cache_ok_def mem_ok_def cache_bytes_def mem_contents_def)
  have two: "int (length ''XY'') = 2" by simp
  have wb: "write_bytes ''abc'' (nat 1) ''XY'' = ''aXY''" by code_simp
  have args: "go_get (fs_open ?s) ''/f'' = Some 0" "(0 :: int) \<le> 1" "i64 (1 + int (length ''XY''))"
    "length (tx_Path ?tx) < 1000" "net_tx sample_net (env_marshal sample_env ?tx)"
    by (simp_all add: i64_def sample_net_def)
  show ?thesis
    unfolding s using concurrent_write_forgotten [OF sample_env_ok pre(1,2) args(1) pre(4) args(2,3) pre(3)
        sample_fits [OF args(4)] args(5), of "(9, 0)" None, unfolded wb two]
    by (elim exE conjE) (intro exI conjI; assumption)
qed

text \<open>A sample file system in which the stored file \<open>/g\<close> is open with the content \<open>b\<close>.\<close>

abbreviation at_g :: "bytes \<Rightarrow> Tx gomap Dsfs" where
  "at_g b \<equiv> (sample_fs b [])\<lparr>fs_open := [(''/g'', 0)]\<rparr>"

lemma at_g_ok: "length b < 1000 \<Longrightarrow> fs_ok sample_env (at_g b)"
  using sample_fs_small [of "[]" b]
  by (intro fs_ok_open) (simp_all add: open_ok_def go_ok_def go_get_def sample_fs_def)

lemma at_g_sel:
  "go_get (fs_open (at_g b)) p = (if p = ''/g'' then Some 0 else None)"
  "file_at (at_g b) 0 = sample_file b []" "get sample_env (at_g b) = get sample_env (sample_fs b [])"
  "\<not> fs_locked (at_g b)"
  by (simp_all add: go_get_def file_at_def sample_fs_def get_def fun_eq_iff)

lemma at_g_view:
  "usable (at_g b) ''/g''" "content (at_g b) ''/g'' = Some b" "dirty (at_g b) ''/g''" "\<not> syncing (at_g b) ''/g''"
  unfolding usable_def content_def dirty_def syncing_def at_g_sel
  by (simp_all add: file_bytes_def cache_bytes_def mem_contents_def at_g_sel)

text \<open>
  C30. A rename during an upload brings the old name back: an upload of \<open>p\<close> is at its last step
  when \<open>p\<close> is renamed to \<open>q\<close>. The rename succeeds and removes \<open>p\<close>, but the upload then stores
  its transaction under \<open>p\<close> again, while \<open>q\<close> keeps the transaction of the old content. The new
  content is open as \<open>q\<close>, which is no longer dirty, so its release uploads nothing.
\<close>

theorem rename_during_upload:
  assumes "fs_ok E s" "usable s p" "go_get (fs_open s) p = Some r" "get E s p = Some tx0"
    and "tx_Type tx0 = FileType" "p \<noteq> q" "get E s (getDir (env_win E) q) \<noteq> None"
    and "fits E (tx0\<lparr>tx_Path := q\<rparr>)" "fits E (createDeleteTx p)"
    and "tx_ok tx" "fits E tx" "net_tx net (env_marshal E tx)"
  shows "\<exists>s1 js s2. Rename E p q s = Ret s1 0 js \<and> get E s1 p = None \<and>
    task_step E net (Uploading r p tx old []) s1 = Ret s2 None [] \<and>
    get E s2 p = Some tx \<and> get E s2 q = Some (tx0\<lparr>tx_Path := q\<rparr>) \<and>
    content s2 q = content s p \<and> Release E q s2 = Ret s2 0 []"
proof -
  let ?m = "move_open s p q"
  have m: "fs_ok E ?m" by (rule move_open_ok [OF assms(1)])
  obtain s1 js where c: "rename_commit E p q tx0 ?m = Ret s1 0 js" "fs_open s1 = fs_open ?m"
    "fs_heap s1 = fs_heap ?m" "fs_locked s1 = fs_locked ?m"
    "\<forall>k. get E s1 k = (if k = p then None else if k = q then Some (tx0\<lparr>tx_Path := q\<rparr>) else get E ?m k)"
    using get_rename_commit [OF m assms(6,8,9)] by blast
  have l: "\<not> fs_locked s" using assms(2) by (rule usableE)
  then have R: "Rename E p q s = Ret s1 0 js"
    using assms(4,5,7) c(1) by (auto simp: Rename_def FileType_def FolderType_def)
  have ok1: "fs_ok E s1" using Rename_ok [OF assms(1), of p q] R by simp
  have r: "go_get (fs_open s1) q = Some r" "file_at s1 r = file_at s r"
    using assms(3,6) c(2,3) by (simp_all add: move_open_get move_map_def file_at_def)
  have us: "usable s1 q" using assms(2,3) r c(4) l by (simp add: usable_def)
  note u = upload_done_view [OF ok1 us r(1)]
  let ?s2 = "(upload_done r s1)\<lparr>fs_db := db_Insert (env_db E) (fs_db s1) p tx\<rparr>"
  have "get E ?s2 k = (if k = p then Some tx else get E s1 k)" for k
    using anydb.get_insert [OF fs_okD(1) [OF ok1]] by (simp add: get_def)
  then have "get E ?s2 p = Some tx" "get E ?s2 q = Some (tx0\<lparr>tx_Path := q\<rparr>)"
    using c(5) assms(6) by simp_all
  moreover have "task_step E net (Uploading r p tx old []) s1 = Ret ?s2 None []"
    using upload_last [of s1 E net r p tx old] assms(11,12) us by (simp add: fits_def usable_def)
  moreover have "content ?s2 q = content s p"
    using u(1) contentE(1) [OF r(1)] contentE(1) [OF assms(3)] r(2) by simp
  moreover have "Release E q ?s2 = Ret ?s2 0 []" using u(3,4) by (intro Release_clean) simp_all
  ultimately show ?thesis using R c(5) by auto
qed

theorem rename_during_upload_witness:
  "\<exists>s1 js s2. Rename sample_env ''/g'' ''/d/x'' (at_g ''xyz'') = Ret s1 0 js \<and> get sample_env s1 ''/g'' = None \<and>
    task_step sample_env sample_net (Uploading 0 ''/g'' sample_tx None []) s1 = Ret s2 None [] \<and>
    get sample_env s2 ''/g'' = Some sample_tx \<and> get sample_env s2 ''/d/x'' = Some (sample_tx\<lparr>tx_Path := ''/d/x''\<rparr>) \<and>
    content s2 ''/d/x'' = Some ''xyz'' \<and> Release sample_env ''/d/x'' s2 = Ret s2 0 []"
proof -
  have ok: "fs_ok sample_env (at_g ''xyz'')" by (rule at_g_ok) simp
  have g: "go_get (fs_open (at_g ''xyz'')) ''/g'' = Some 0" "get sample_env (at_g ''xyz'') ''/g'' = Some sample_tx"
    "get sample_env (at_g ''xyz'') (getDir (env_win sample_env) ''/d/x'') \<noteq> None"
    unfolding at_g_sel by simp_all
  have fit: "fits sample_env (sample_tx\<lparr>tx_Path := ''/d/x''\<rparr>)" "fits sample_env (createDeleteTx ''/g'')"
    "fits sample_env sample_tx" "''/g'' \<noteq> ''/d/x''" "net_tx sample_net (env_marshal sample_env sample_tx)"
    by (simp_all add: MaxDiscordFileSize_def createDeleteTx_def sample_net_def)
  show ?thesis
    using rename_during_upload [OF ok at_g_view(1) g(1,2) sample_tx_types(4) fit(4) g(3) fit(1,2) sample_tx_types(1) fit(3,5)]
    unfolding at_g_view(2) by blast
qed

section \<open>Both together\<close>

lemma upload_ids_fetch:
  assumes "upload_ids E net old b is = Some fids"
    and "\<forall>blk fid. net_up net blk = Some fid \<longrightarrow> net_dl net fid = Some blk"
    and "\<forall>i fid. old_block old i = Some (fid, env_sum E (block b i)) \<longrightarrow> net_dl net fid = Some (block b i)"
  shows "length fids = length is \<and> (\<forall>k < length is. net_dl net (fids ! k) = Some (block b (is ! k)))"
  using assms(1)
proof (induction "is" arbitrary: fids)
  case (Cons i "is")
  obtain fid csum rest where x: "old_block old i = Some (fid, csum)" "fids = rest"
    using Cons.prems by (auto split: option.splits)
  obtain fid' rest' where f: "up_result E net (fid, csum) (block b i) = Some fid'"
    "upload_ids E net old b is = Some rest'" "fids = fid' # rest'"
    using Cons.prems x(1) by (auto split: option.splits)
  have "net_dl net fid' = Some (block b i)"
    using f(1) x(1) assms(2,3) by (auto simp: up_result_def split: if_splits)
  then show ?case using Cons.IH [OF f(2)] f(3) by (auto simp: nth_Cons split: nat.splits)
qed simp

text \<open>
  C5. What one client writes, another reads: a dirty file is released and uploaded; another
  client whose database has the transaction that the upload stored opens the path and
  downloads it: its content is then the content that was released. The network returns under
  an identifier what was sent under it, and a block of the previous version that has the
  checksum of a block of the file is that block.
\<close>

theorem upload_download_roundtrip:
  assumes "env_ok E" "fs_ok E s" "usable s p" "content s p = Some b" "go_get (fs_open s) p = Some r"
    and "dirty s p" "\<not> syncing s p" "uploadable b" "ids_ok (get E s p)"
    and "upload_ids E net (get E s p) b [0..<n_blocks b] = Some fids"
    and "fits E (uploadedTx E p (file_at s r) b fids)" "net_tx net (env_marshal E (uploadedTx E p (file_at s r) b fids))"
    and "\<forall>blk fid. net_up net blk = Some fid \<longrightarrow> net_dl net fid = Some blk"
    and "\<forall>i fid. old_block (get E s p) i = Some (fid, env_sum E (block b i)) \<longrightarrow> net_dl net fid = Some (block b i)"
    and "fs_ok E t" "\<not> fs_locked t" "go_get (fs_open t) p = None" "GetNewCache t \<noteq> None"
    and "get E t p = Some (uploadedTx E p (file_at s r) b fids)"
  shows "\<exists>j s' tx t1 t2. Release E p s = Ret s 0 [j] \<and> run_job E net j s = Ret s' () [] \<and> get E s' p = Some tx \<and>
    get E t p = Some tx \<and> Open E p t = Ret t1 (0, 1) [LoadFile p tx] \<and>
    run_job E net (LoadFile p tx) t1 = Ret t2 () [] \<and> content t2 p = content s p"
proof -
  let ?tx = "uploadedTx E p (file_at s r) b fids"
  obtain j s' where up: "Release E p s = Ret s 0 [j]" "run_job E net j s = Ret s' () []"
    "get E s' = (get E s)(p \<mapsto> ?tx)"
    using run_upload(2) [OF assms(2-5,7-10)] assms(11,12)
      Release_dirty [OF _ assms(5,6), of E] assms(3) unfolding fits_def usable_def by blast
  have sz: "tx_Size ?tx = int (length b)"
    using Size_ok(1) [of "env_cache E" "fd_cache (file_at s r)"] fs_okD(5) [OF assms(2,5)] assms(4,5)
    by (simp add: uploadedTx_def releaseTx_def content_def file_bytes_def file_ok_def)
  note ids = upload_ids_fetch [OF assms(10,13,14)]
  have tx: "tx_Type ?tx = FileType" "length (tx_FileIDs ?tx) = n_blocks b"
    "\<forall>i < n_blocks b. net_dl net (tx_FileIDs ?tx ! i) = Some (block b i)"
    using ids by (simp_all add: uploadedTx_def releaseTx_def)
  obtain t1 t2 where "Open E p t = Ret t1 (0, 1) [LoadFile p ?tx]"
    "run_job E net (LoadFile p ?tx) t1 = Ret t2 () []" "content t2 p = Some b"
    using run_open [OF assms(1,15-19) tx(1) sz tx(2,3)] by blast
  then show ?thesis using up assms(4,19) by auto
qed

theorem upload_download_roundtrip_witness:
  "\<exists>j s' tx t1 t2. Release sample_env ''/g'' (at_g ''abc'') = Ret (at_g ''abc'') 0 [j] \<and>
    run_job sample_env sample_net j (at_g ''abc'') = Ret s' () [] \<and>
    get sample_env s' ''/g'' = Some tx \<and>
    run_job sample_env sample_net (LoadFile ''/g'' tx) t1 = Ret t2 () [] \<and> content t2 ''/g'' = Some ''abc''"
proof -
  let ?s = "at_g ''abc''"
  let ?tx = "uploadedTx sample_env ''/g'' (file_at ?s 0) ''abc'' [''id'']"
  let ?t = "(sample_fs ''x'' [])\<lparr>fs_db := db_Insert (env_db sample_env) (fs_db (sample_fs ''x'' [])) ''/g'' ?tx\<rparr>"
  have ok0: "fs_ok sample_env (sample_fs b [])" if "length b < 1000" for b
    using that by (rule sample_fs_small [rotated]) simp
  have op: "go_get (fs_open ?s) ''/g'' = Some 0" and ok: "fs_ok sample_env ?s"
    using at_g_ok [of "''abc''"] by (simp_all add: go_get_def)
  have sz: "tx_ok ?tx" by (simp add: uploadedTx_def releaseTx_def at_g_sel tx_ok_def Size_def mem_Size_def i64_def)
  have t: "fs_ok sample_env ?t" "\<not> fs_locked ?t" "go_get (fs_open ?t) ''/g'' = None" "GetNewCache ?t \<noteq> None"
    using fs_ok_insert [OF ok0 sz, of "''x''"] by (simp_all add: GetNewCache_def) (simp_all add: sample_fs_def)
  have got: "get sample_env ?t ''/g'' = Some ?tx"
    using get_db(1) [OF fs_okD(1) [OF ok0 [of "''x''"]], of "''/g''" ?tx "''/g''"] by (simp only: simp_thms if_True list.size)
  have fit: "fits sample_env ?tx" by (rule sample_fits) (simp add: uploadedTx_def releaseTx_def)
  have pre: "uploadable ''abc''" "ids_ok (get sample_env ?s ''/g'')" "net_tx sample_net (env_marshal sample_env ?tx)"
    by (simp_all add: uploadable_def ids_ok_def sample_net_def at_g_sel sample_tx_def zero_Tx_def)
  have up: "upload_ids sample_env sample_net (get sample_env ?s ''/g'') ''abc'' [0..<n_blocks ''abc''] = Some [''id'']"
    by (simp add: old_block_def up_result_def sample_net_def at_g_sel sample_tx_def zero_Tx_def)
  have net: "\<forall>blk fid. net_up sample_net blk = Some fid \<longrightarrow> net_dl sample_net fid = Some blk"
    by (simp add: sample_net_def)
  have old: "\<forall>i fid. old_block (get sample_env ?s ''/g'') i = Some (fid, env_sum sample_env (block ''abc'' i)) \<longrightarrow>
      net_dl sample_net fid = Some (block ''abc'' i)"
    by (auto simp: old_block_def at_g_sel sample_tx_def zero_Tx_def sample_net_def split: if_splits)
  obtain j s' tx t1 t2 where "Release sample_env ''/g'' ?s = Ret ?s 0 [j]" "run_job sample_env sample_net j ?s = Ret s' () []"
    "get sample_env s' ''/g'' = Some tx" "run_job sample_env sample_net (LoadFile ''/g'' tx) t1 = Ret t2 () []"
    "content t2 ''/g'' = content ?s ''/g''"
    using upload_download_roundtrip [OF sample_env_ok ok at_g_view(1,2) op at_g_view(3,4) pre(1,2) up fit pre(3) net old t got] by blast
  then show ?thesis unfolding at_g_view(2) by blast
qed

section \<open>What can go wrong, and when it ends\<close>

text \<open>
  A block that arrives late breaks a disk cache: when a file was truncated while a block
  was on its way, and the block now ends behind the file, the goroutine stores it all the same.
  The cache then reports its old size but holds more bytes than that, so the state is no
  longer well-formed.
\<close>

theorem late_block_breaks_cache:
  assumes "env_ok E" "fs_ok E s" "r < length (fs_heap s)" "fd_cache (file_at s r) = Disk d"
    and "fd_lock (file_at s r) = Free" "0 \<le> ofst" "i64 (ofst + int (length piece))"
    and "dc_size d < ofst + int (length piece)" "piece \<noteq> []"
  shows "\<exists>s' d'. dlID_store E r ofst piece s = Ret s' () [] \<and> fd_cache (file_at s' r) = Disk d' \<and>
    disk_Size d' = disk_Size d \<and> int (length (disk_contents d')) = ofst + int (length piece) \<and> \<not> fs_ok E s'"
proof -
  have "file_ok E (file_at s r)" using assms(2,3) by (simp add: fs_ok_def file_at_def)
  then have d: "\<not> of_closed (dc_file d)" "dc_size d = int (length (of_bytes (dc_file d)))"
    using assms(4) by (simp_all add: file_ok_def cache_ok_def disk_ok_def)
  have i: "i64 ofst" "i64 (int (length piece))" using assms(6,7) by (auto simp: i64_def)
  have lw: "ce_limitw (env_cache E) (int (length piece)) piece = (piece, int (length piece))"
    using env_okD(2) [OF assms(1)] by (auto simp: limitwriter_ok_def prod_eq_iff)
  let ?d = "d\<lparr>dc_file := os_Write (os_Seek (dc_file d) ofst) piece\<rparr>"
  let ?f = "(file_at s r)\<lparr>fd_cache := Disk ?d, fd_load := addRange (fd_load (file_at s r)) ofst (ofst + int (length piece))\<rparr>"
  have store: "dlID_store E r ofst piece s = Ret (set_file s r ?f) () []"
    using assms(4,5,7) i lw
    by (simp add: dlID_store_def WriteRange_def disk_WriteRange_def add64_id sub64_id Let_def)
  have at: "file_at (set_file s r ?f) r = ?f" using assms(3) by (simp add: file_at_set_file)
  have "length (disk_contents ?d) = nat ofst + length piece"
    using d assms(6,8,9) by (simp add: disk_contents_def os_Write_def os_Seek_def Let_def)
  then have len: "int (length (disk_contents ?d)) = ofst + int (length piece)" using assms(6) by simp
  have "\<not> file_ok E ?f"
    using len assms(8) by (simp add: file_ok_def cache_ok_def disk_ok_def disk_contents_def)
  moreover have "?f \<in> set (fs_heap (set_file s r ?f))"
    using assms(3) by (simp add: set_file_def set_update_memI)
  ultimately have "\<not> fs_ok E (set_file s r ?f)" unfolding fs_ok_def by blast
  then show ?thesis using store at len by (auto simp: disk_Size_def)
qed

theorem late_block_breaks_cache_witness:
  "\<exists>s' d'. dlID_store sample_env 0 0 ''abc''
      ((sample_fs [] [])\<lparr>fs_heap := [(sample_file [] [])\<lparr>fd_cache := Disk NewDiskCache\<rparr>]\<rparr>) = Ret s' () [] \<and>
    fd_cache (file_at s' 0) = Disk d' \<and> disk_Size d' = 0 \<and> length (disk_contents d') = 3"
proof -
  let ?f = "(sample_file [] [])\<lparr>fd_cache := Disk NewDiskCache\<rparr>"
  let ?s = "(sample_fs [] [])\<lparr>fs_heap := [?f]\<rparr>"
  have "fs_ok sample_env (set_file (sample_fs [] []) 0 ?f)"
    by (rule fs_ok_set_file [OF sample_fs_small]) (simp_all add: file_ok_def load_ok_def cache_ok_def sample_file_def)
  then have ok: "fs_ok sample_env ?s" by (simp add: set_file_def sample_fs_def)
  have at: "file_at ?s 0 = ?f" by (simp add: file_at_def)
  show ?thesis
    using late_block_breaks_cache [OF sample_env_ok ok, of 0 NewDiskCache 0 "''abc''"] unfolding at
    by (auto simp: NewDiskCache_def i64_def disk_Size_def sample_file_def)
qed




end
