(* ===== verification/WriterClients.thy ===== *)
theory WriterClients
  imports WriterQueue "HOL-Library.Multiset"
begin

text \<open>
  The other side of \<open>writer.go\<close>: \<open>SendTx\<close> and \<open>SendData\<close>, which hand an item with a channel of
  its own to the queue and wait for the answer on that channel (\<open>sendToQueue\<close>). A state
  (\<open>Queue\<close>) has the goroutine of \<open>WriterQueue\<close>, the callers that wait for it to receive,
  and what the chat service stores. Channels are numbered as they are made.

  Of the service it is used that a message that is sent comes back with an attachment for
  each file, in their order, under ids that are new.
\<close>

record Queue =
  wq_writer :: WriterState
  wq_waiting :: "QueueItem list"
  wq_calls :: "bytes list"
  wq_store :: "string \<Rightarrow> bytes option"

text \<open>A call up to \<open>queue <- item\<close>, with the channel it then waits on; all calls are kept in \<open>wq_calls\<close>.\<close>

definition sendToQueue :: "bytes \<Rightarrow> Queue \<Rightarrow> nat \<times> Queue" where
  "sendToQueue data q =
     (let callback = length (wq_calls q) in
      (callback, q\<lparr>wq_waiting := wq_waiting q @ [\<lparr>qi_channel = callback, qi_data = data\<rparr>],
                   wq_calls := wq_calls q @ [data]\<rparr>))"

text \<open>What has arrived on a channel: the result of the call.\<close>

definition result_on :: "Queue \<Rightarrow> nat \<Rightarrow> QueueResult option" where
  "result_on q callback = map_of (map (\<lambda>(item, r). (qi_channel item, r)) (ws_done (wq_writer q))) callback"

definition start_queue :: Queue where
  "start_queue = \<lparr>wq_writer = setupWriter, wq_waiting = [], wq_calls = [], wq_store = (\<lambda>i. None)\<rparr>"

text \<open>The writer has a queue for each of the two channels, and a goroutine for each queue.\<close>

record Writer =
  txQueue :: Queue
  dataQueue :: Queue

definition new_writer :: Writer where
  "new_writer = \<lparr>txQueue = start_queue, dataQueue = start_queue\<rparr>"

definition Writer_SendTx :: "bytes \<Rightarrow> Writer \<Rightarrow> nat \<times> Writer" where
  "Writer_SendTx data w = (case sendToQueue data (txQueue w) of (callback, q) \<Rightarrow> (callback, w\<lparr>txQueue := q\<rparr>))"

definition Writer_SendData :: "bytes \<Rightarrow> Writer \<Rightarrow> nat \<times> Writer" where
  "Writer_SendData data w = (case sendToQueue data (dataQueue w) of (callback, q) \<Rightarrow> (callback, w\<lparr>dataQueue := q\<rparr>))"

definition stores :: "string list \<Rightarrow> bytes list \<Rightarrow> (string \<Rightarrow> bytes option) \<Rightarrow> string \<Rightarrow> bytes option" where
  "stores ids files st = st ++ map_of (zip ids files)"

inductive queue_step :: "Queue \<Rightarrow> Queue \<Rightarrow> bool" where
  send: "queue_step q (snd (sendToQueue data q))"
| recv: "gathering (wq_writer q) \<Longrightarrow> item \<in> set (wq_waiting q) \<Longrightarrow>
    queue_step q (q\<lparr>wq_writer := on_item item (wq_writer q), wq_waiting := remove1 item (wq_waiting q)\<rparr>)"
| timeout: "gathering (wq_writer q) \<Longrightarrow> queue_step q (q\<lparr>wq_writer := on_after (wq_writer q)\<rparr>)"
| refused: "\<not> gathering (wq_writer q) \<Longrightarrow> flush None (wq_writer q) = Some w \<Longrightarrow> queue_step q (q\<lparr>wq_writer := w\<rparr>)"
| posted: "\<not> gathering (wq_writer q) \<Longrightarrow> length ids = length (ws_items (wq_writer q)) \<Longrightarrow> distinct ids \<Longrightarrow>
    (\<And>i. i \<in> set ids \<Longrightarrow> wq_store q i = None) \<Longrightarrow> flush (Some ids) (wq_writer q) = Some w \<Longrightarrow>
    queue_step q (q\<lparr>wq_writer := w, wq_store := stores ids (map qi_data (ws_items (wq_writer q))) (wq_store q)\<rparr>)"

section \<open>The invariant\<close>

text \<open>
  Each call has one item, which is answered, in the batch, put off or not received yet; an
  id that was given out is that of the caller's bytes.
\<close>

definition items_of :: "Queue \<Rightarrow> QueueItem list" where
  "items_of q = map fst (ws_done (wq_writer q)) @ ws_items (wq_writer q) @ ws_onhold (wq_writer q) @ wq_waiting q"

definition call_items :: "bytes list \<Rightarrow> QueueItem list" where
  "call_items calls = map (\<lambda>k. \<lparr>qi_channel = k, qi_data = calls ! k\<rparr>) [0..<length calls]"

definition queue_ok :: "Queue \<Rightarrow> bool" where
  "queue_ok q \<longleftrightarrow> mset (items_of q) = mset (call_items (wq_calls q)) \<and>
     (\<forall>item i. (item, FileID i) \<in> set (ws_done (wq_writer q)) \<longrightarrow> wq_store q i = Some (qi_data item))"

lemma call_items_snoc: "call_items (calls @ [d]) = call_items calls @ [\<lparr>qi_channel = length calls, qi_data = d\<rparr>]"
  by (simp add: call_items_def nth_append)

lemma flush_done:
  assumes "flush sent w = Some w'"
  shows "\<exists>rs. w' = round_start (w\<lparr>ws_done := ws_done w @ rs\<rparr>) \<and> map fst rs = ws_items w \<and>
    (\<forall>item i. (item, FileID i) \<in> set rs \<longrightarrow>
       (\<exists>ids k. sent = Some ids \<and> k < length (ws_items w) \<and> item = ws_items w ! k \<and> i = ids ! k))"
proof (cases "ws_items w = []")
  case True
  then show ?thesis using assms by (intro exI [of _ "[]"]) (simp add: flush_def)
next
  case False
  then obtain rs where rs: "answers sent (ws_items w) = Some rs" "w' = round_start (w\<lparr>ws_done := ws_done w @ rs\<rparr>)"
    using assms by (auto simp: flush_def split: option.splits)
  moreover have "\<exists>ids k. sent = Some ids \<and> k < length (ws_items w) \<and> item = ws_items w ! k \<and> i = ids ! k"
    if "(item, FileID i) \<in> set rs" for item i
    using rs(1) that by (cases sent) (fastforce simp: answers_def split: if_splits)+
  ultimately show ?thesis
    using answers_items [OF rs(1)] by (intro exI [of _ rs]) blast
qed

lemma mset_flush: "mset (items_of (q\<lparr>wq_writer := round_start (w\<lparr>ws_done := ws_done w @ rs\<rparr>)\<rparr>)) =
    mset (items_of (q\<lparr>wq_writer := w\<rparr>))" if "map fst rs = ws_items w"
  using that by (simp add: items_of_def round_start_def)

lemma queue_ok_step:
  assumes "queue_ok q" "queue_step q q'"
  shows "queue_ok q'"
  using assms(2)
proof cases
  case (send data)
  then show ?thesis
    using assms(1) by (simp add: queue_ok_def sendToQueue_def items_of_def call_items_snoc Let_def)
next
  case (recv item)
  then show ?thesis
    using assms(1) by (auto simp: queue_ok_def items_of_def on_item_def Let_def)
next
  case timeout
  then show ?thesis using assms(1) by (simp add: queue_ok_def items_of_def on_after_def)
next
  case (refused w)
  then show ?thesis
    using assms(1) flush_done [OF refused(3)] mset_flush [of _ "wq_writer q" q]
    by (auto simp: queue_ok_def round_start_def)
next
  case (posted ids w)
  let ?items = "ws_items (wq_writer q)"
  obtain rs where rs: "w = round_start ((wq_writer q)\<lparr>ws_done := ws_done (wq_writer q) @ rs\<rparr>)" "map fst rs = ?items"
    "\<And>item i. (item, FileID i) \<in> set rs \<Longrightarrow> \<exists>k. k < length ?items \<and> item = ?items ! k \<and> i = ids ! k"
    using flush_done [OF posted(6)] by auto
  have new: "stores ids (map qi_data ?items) (wq_store q) (ids ! k) = Some (qi_data (?items ! k))" if "k < length ?items" for k
    using that posted(3,4) by (simp add: stores_def map_add_def map_of_zip_nth)
  have old: "stores ids (map qi_data ?items) (wq_store q) i = Some d" if "wq_store q i = Some d" for i d
  proof -
    have "i \<notin> set ids" using that posted(5) by auto
    then have "map_of (zip ids (map qi_data ?items)) i = None"
      by (simp add: map_of_eq_None_iff) (auto dest: set_zip_leftD)
    then show ?thesis using that by (simp add: stores_def map_add_def)
  qed
  show ?thesis
    using assms(1) mset_flush [of rs "wq_writer q" q] rs new old unfolding posted(1)
    by (auto simp: queue_ok_def round_start_def items_of_def)
qed

interpretation queue_machine: machine queue_step queue_ok
  by unfold_locales (rule queue_ok_step)

lemma queue_ok_start: "queue_ok start_queue"
  by (simp add: queue_ok_def start_queue_def items_of_def call_items_def setupWriter_def round_start_def)

section \<open>Every call is answered\<close>

text \<open>The channels that have got an answer, of which none is ever lost.\<close>

definition answered :: "Queue \<Rightarrow> nat set" where
  "answered q = (qi_channel \<circ> fst) ` set (ws_done (wq_writer q))"

lemma result_on_answered: "result_on q c \<noteq> None \<longleftrightarrow> c \<in> answered q"
  by (force simp: result_on_def answered_def map_of_eq_None_iff)

text \<open>The end of a round, if the service refuses it: its items are answered, the item put off is in the next batch.\<close>

lemma end_round:
  "\<exists>q'. reaches queue_step q q' \<and> gathering (wq_writer q') \<and> wq_waiting q' = wq_waiting q \<and>
     ws_items (wq_writer q') = ws_onhold (wq_writer q) \<and>
     answered q' = answered q \<union> qi_channel ` set (ws_items (wq_writer q))"
proof -
  let ?q1 = "if gathering (wq_writer q) then q\<lparr>wq_writer := on_after (wq_writer q)\<rparr> else q"
  have r1: "reaches queue_step q ?q1"
    by (simp add: reaches.here) (intro impI one_step queue_step.timeout)
  have 1: "\<not> gathering (wq_writer ?q1)" "wq_waiting ?q1 = wq_waiting q" "ws_items (wq_writer ?q1) = ws_items (wq_writer q)"
    "ws_onhold (wq_writer ?q1) = ws_onhold (wq_writer q)" "answered ?q1 = answered q"
    by (simp_all add: gathering_def on_after_def answered_def)
  obtain w where w: "flush None (wq_writer ?q1) = Some w"
    by (cases "ws_items (wq_writer ?q1)") (auto simp: flush_def answers_def)
  obtain rs where rs: "w = round_start ((wq_writer ?q1)\<lparr>ws_done := ws_done (wq_writer ?q1) @ rs\<rparr>)"
    "map fst rs = ws_items (wq_writer ?q1)"
    using flush_done [OF w] by blast
  let ?q2 = "?q1\<lparr>wq_writer := w\<rparr>"
  have "reaches queue_step q ?q2" by (rule reaches_trans [OF r1], rule one_step, rule queue_step.refused [OF 1(1) w])
  moreover have "answered ?q2 = answered ?q1 \<union> qi_channel ` set (map fst rs)"
    by (auto simp: answered_def rs(1) round_start_def image_Un image_comp)
  moreover have "gathering w" "ws_items w = ws_onhold (wq_writer ?q1)"
    by (simp_all add: rs(1) gathering_def round_start_def MaxDiscordFileCount_def)
  ultimately show ?thesis using 1(2-5) rs(2) by (intro exI [of _ ?q2]) (simp del: if_split)
qed

text \<open>An item of the batch is answered within one round, one put off within two.\<close>

lemma round_answers:
  assumes "c \<in> qi_channel ` set (ws_items (wq_writer q) @ ws_onhold (wq_writer q))"
  shows "\<exists>q'. reaches queue_step q q' \<and> c \<in> answered q'"
proof -
  obtain q1 where q1: "reaches queue_step q q1" "ws_items (wq_writer q1) = ws_onhold (wq_writer q)"
    "answered q1 = answered q \<union> qi_channel ` set (ws_items (wq_writer q))"
    using end_round [of q] by blast
  obtain q2 where q2: "reaches queue_step q1 q2" "answered q2 = answered q1 \<union> qi_channel ` set (ws_items (wq_writer q1))"
    using end_round [of q1] by blast
  have "c \<in> answered q2" using assms q1(2,3) q2(2) by auto
  then show ?thesis using reaches_trans [OF q1(1) q2(1)] by blast
qed

lemma can_answer:
  assumes "queue_ok q" "c < length (wq_calls q)"
  shows "\<exists>q'. reaches queue_step q q' \<and> c \<in> answered q'"
proof -
  have "\<lparr>qi_channel = c, qi_data = wq_calls q ! c\<rparr> \<in> set (call_items (wq_calls q))"
    using assms(2) by (simp add: call_items_def)
  moreover have "set (items_of q) = set (call_items (wq_calls q))"
    using assms(1) by (intro mset_eq_setD) (simp add: queue_ok_def)
  ultimately obtain item where item: "item \<in> set (items_of q)" "qi_channel item = c" by (metis QueueItem.select_convs(1))
  then consider "c \<in> answered q" | "item \<in> set (ws_items (wq_writer q) @ ws_onhold (wq_writer q))"
    | "item \<in> set (wq_waiting q)"
    unfolding items_of_def answered_def set_append set_map image_comp [symmetric] by blast
  then show ?thesis
  proof cases
    case 1
    then show ?thesis by (intro exI [of _ q]) (simp add: reaches.here)
  next
    case 2
    then show ?thesis using round_answers [of c q] item(2) by blast
  next
    case 3
    obtain q1 where q1: "reaches queue_step q q1" "gathering (wq_writer q1)" "wq_waiting q1 = wq_waiting q"
      using end_round [of q] by blast
    let ?q2 = "q1\<lparr>wq_writer := on_item item (wq_writer q1), wq_waiting := remove1 item (wq_waiting q1)\<rparr>"
    have "reaches queue_step q ?q2"
      by (rule reaches_trans [OF q1(1)], rule one_step, rule queue_step.recv [OF q1(2)]) (use 3 q1(3) in simp)
    moreover have "c \<in> qi_channel ` set (ws_items (wq_writer ?q2) @ ws_onhold (wq_writer ?q2))"
      using item(2) by (auto simp: on_item_def Let_def)
    ultimately show ?thesis using round_answers [of c ?q2] reaches_trans [of queue_step q ?q2] by blast
  qed
qed

end
