(* ===== verification/LogProps.thy ===== *)
theory LogProps
  imports Sample WriterClients
begin

text \<open>
  The properties of the transaction log and of the queue that writes to it.
\<close>

section \<open>Replay\<close>

text \<open>
  C13. Replaying the log gives each path its last word: after the attachments of the messages
  were applied in order, a lookup of any path gives the last valid transaction for it when
  that is a write, nothing when it is a deletion, and what was there before when there is none.
  Attachments that cannot be fetched and lines that cannot be decoded are passed over.
\<close>

theorem replay_last_wins:
  assumes "db_ok (env_db E) d"
  shows "db_Get (env_db E) (fst (applyMessageTxs E um http ms (d, b))) p =
    (case find (\<lambda>tx. tx_Path tx = p) (rev (log_txs um (all_lines http ms))) of
       None \<Rightarrow> db_Get (env_db E) d p
     | Some tx \<Rightarrow> if tx_Tx tx = WriteTx then Some tx else None)"
  using replay_get [OF assms] unfolding outcome_for_def .

text \<open>A decoder for lines that name a path, and delete it when they begin with a minus sign.\<close>

definition sample_um :: "string \<Rightarrow> Tx option" where
  "sample_um l = (case l of [] \<Rightarrow> None
     | c # p \<Rightarrow> if c = CHR ''-'' then Some (createDeleteTx p) else if c = slash then Some (folderTx l) else None)"

definition sample_messages :: "Message list" where
  "sample_messages = [\<lparr>msg_ID = ''1'', msg_Author = ''a'', msg_Channel = ''t'', msg_URLs = [''u'', ''v'', ''w'']\<rparr>]"

definition sample_http :: "string \<Rightarrow> bytes option" where
  "sample_http u = (if u = ''u'' then Some (join_lines [''/a'', ''/b'', ''?'']) else if u = ''w'' then Some (join_lines [''-/a''])
     else None)"

lemma sample_lines: "all_lines sample_http sample_messages = [''/a'', ''/b'', ''?'', ''-/a'']"
proof -
  have good: "\<forall>l \<in> set [''/a'', ''/b'', ''?'']. good_line l" "\<forall>l \<in> set [''-/a'']. good_line l"
    by (simp_all add: good_line_def MaxScanTokenSize_def)
  show ?thesis
    using scan_join_lines [OF good(1)] scan_join_lines [OF good(2)]
    by (simp add: all_lines_def sample_messages_def sample_http_def)
qed

lemma sample_log: "log_txs sample_um [''/a'', ''/b'', ''?'', ''-/a''] = [folderTx ''/a'', folderTx ''/b'', createDeleteTx ''/a'']"
  by (simp add: log_txs_def valid_line_def sample_um_def known_def)

theorem replay_last_wins_witness:
  "db_Get (env_db sample_env) (fst (applyMessageTxs sample_env sample_um sample_http sample_messages (MapDB [], []))) ''/a'' = None \<and>
   db_Get (env_db sample_env) (fst (applyMessageTxs sample_env sample_um sample_http sample_messages (MapDB [], []))) ''/b''
     = Some (folderTx ''/b'')"
proof -
  have "db_ok (env_db sample_env) (MapDB [])" by (simp add: db_ok_def order_ok_def)
  note replay_last_wins [OF this, of sample_um sample_http sample_messages "[]"]
  from this [of "''/a''"] this [of "''/b''"] show ?thesis
    unfolding sample_lines sample_log by simp
qed

section \<open>Reading the log\<close>

text \<open>
  C33. The start-up reads the whole history: when the pinned message is in the channel and the
  server answers each request with the messages after the given one, newest first, at most a
  hundred at a time, then the loop returns the pinned message and everything after it, in the
  order of the channel, after at most one request more than there are full pages.
\<close>

theorem fetch_reads_all:
  assumes "distinct (map msg_ID hist)" "hist = pre @ pinned # rest"
    and "length rest < fuel * MaxDiscordMessageRequest"
  shows "fetch_all fuel (\<lambda>i. Some (page_after hist i)) [pinned] = Some (Inr (pinned # rest))"
  using fetch_all_pages [OF assms(1), of pre "[pinned]" rest fuel] assms(2,3) by simp

theorem fetch_reads_all_witness:
  "fetch_all 1 (\<lambda>i. Some (page_after
      [\<lparr>msg_ID = ''1'', msg_Author = ''a'', msg_Channel = ''t'', msg_URLs = []\<rparr>,
       \<lparr>msg_ID = ''2'', msg_Author = ''a'', msg_Channel = ''t'', msg_URLs = []\<rparr>] i))
     [\<lparr>msg_ID = ''1'', msg_Author = ''a'', msg_Channel = ''t'', msg_URLs = []\<rparr>] =
   Some (Inr [\<lparr>msg_ID = ''1'', msg_Author = ''a'', msg_Channel = ''t'', msg_URLs = []\<rparr>,
              \<lparr>msg_ID = ''2'', msg_Author = ''a'', msg_Channel = ''t'', msg_URLs = []\<rparr>])"
  using fetch_reads_all [of "[\<lparr>msg_ID = ''1'', msg_Author = ''a'', msg_Channel = ''t'', msg_URLs = []\<rparr>,
      \<lparr>msg_ID = ''2'', msg_Author = ''a'', msg_Channel = ''t'', msg_URLs = []\<rparr>]" "[]"
      "\<lparr>msg_ID = ''1'', msg_Author = ''a'', msg_Channel = ''t'', msg_URLs = []\<rparr>"
      "[\<lparr>msg_ID = ''2'', msg_Author = ''a'', msg_Channel = ''t'', msg_URLs = []\<rparr>]" 1]
  by (simp add: MaxDiscordMessageRequest_def)



section \<open>Compaction\<close>

lemma split_on_words: "w \<in> set (split_on p xs) \<Longrightarrow> c \<in> set w \<Longrightarrow> \<not> p c"
proof (induction xs arbitrary: w)
  case (Cons x xs)
  then show ?case by (fastforce split: if_splits list.splits)
qed simp

lemma drop_cr_subset: "set (drop_cr l) \<subseteq> set l" "length (drop_cr l) \<le> length l"
  by (auto simp: drop_cr_def dest: in_set_butlastD)

lemma scan_lines_clean:
  assumes "l \<in> set (scan_lines data)"
  shows "newline \<notin> set l \<and> length l < MaxScanTokenSize"
proof -
  obtain w where w: "w \<in> set (raw_lines data)" "length w < MaxScanTokenSize" "l = drop_cr w"
    using assms by (auto simp: scan_lines_def dest: set_takeWhileD)
  then have "w \<in> set (split_on (\<lambda>c. c = newline) data)"
    by (auto simp: raw_lines_def Let_def dest: in_set_butlastD split: if_splits)
  then have "newline \<notin> set w" using split_on_words by fastforce
  then show ?thesis using w drop_cr_subset [of w] by auto
qed

lemma all_lines_clean:
  "l \<in> set (all_lines http ms) \<Longrightarrow> newline \<notin> set l \<and> length l < MaxScanTokenSize"
  using scan_lines_clean by (auto simp: all_lines_def split: option.splits)

text \<open>
  C34. Compaction keeps what the log says, when it fits: if the valid lines of the whole log fit
  one attachment (and none ends in a carriage return), exactly one attachment is sent, with
  all of them in order; and replaying it alone gives the same database, and the same buffer,
  as replaying the whole log.
\<close>

theorem compaction_keeps_log:
  assumes "buffer = snd (applyMessageTxs E um http ms (d, []))" "buffer \<noteq> []"
    and "int (length buffer) \<le> MaxDiscordFileSize" "send 0 buffer = Some m"
    and "\<forall>l \<in> set (all_lines http ms). l = [] \<or> last l \<noteq> CHR 0x0D"
  shows "co_sent (compact_txs send buffer) = [buffer] \<and> \<not> co_failed (compact_txs send buffer) \<and>
    fold (apply_line E um) (scan_lines buffer) (d, []) = applyMessageTxs E um http ms (d, [])"
proof -
  let ?ls = "filter (valid_line um) (all_lines http ms)"
  have b: "buffer = join_lines ?ls" using replay_buffer [of E um http ms d] assms(1) by simp
  have good: "\<forall>l \<in> set ?ls. good_line l" and clean: "\<forall>l \<in> set ?ls. newline \<notin> set l"
    using all_lines_clean assms(5) by (auto simp: good_line_def)
  have "?ls \<noteq> []" using assms(2) b by auto
  then show ?thesis
    using compact_txs_fits [where send = send, OF clean _ _ assms(4) [unfolded b]] assms(3) b scan_join_lines [OF good]
    by (simp add: apply_lines applyMessageTxs_lines log_txs_valid del: filter_filter)
qed

theorem compaction_keeps_log_witness:
  "co_sent (compact_txs (\<lambda>n b. Some ''m'') (join_lines [''/a'', ''/b'', ''-/a''])) = [join_lines [''/a'', ''/b'', ''-/a'']] \<and>
   fold (apply_line sample_env sample_um) (scan_lines (join_lines [''/a'', ''/b'', ''-/a''])) (MapDB [], []) =
     applyMessageTxs sample_env sample_um sample_http sample_messages (MapDB [], [])"
proof -
  let ?b = "join_lines [''/a'', ''/b'', ''-/a'']"
  have buffer: "?b = snd (applyMessageTxs sample_env sample_um sample_http sample_messages (MapDB [], []))"
    by (simp add: replay_buffer sample_lines valid_line_def sample_um_def known_def)
  show ?thesis
    using compaction_keeps_log [OF buffer, where send = "\<lambda>n b. Some ''m''"]
    by (simp add: sample_lines MaxDiscordFileSize_def)
qed



section \<open>The upload queue\<close>

text \<open>
  C14. The queue loses nothing and keeps the order: in every reachable state the items that were
  answered, then those of the current batch, then the one put off, are the items received, in
  that order; at most one item is put off, and a batch holds at most eleven.
\<close>

theorem writer_fifo:
  assumes "reaches writer_step setupWriter w"
  shows "map fst (ws_done w) @ ws_items w @ ws_onhold w = ws_recv w \<and>
    length (ws_onhold w) \<le> 1 \<and> length (ws_items w) \<le> Suc MaxDiscordFileCount"
  using writer_machine.reaches_inv [OF assms writer_inv_start] by (auto simp: writer_inv_def)

lemma sample_item: "reaches writer_step setupWriter (on_item \<lparr>qi_channel = 0, qi_data = ''x''\<rparr> setupWriter)"
  by (rule there [OF here], rule writer_step.recv) (simp add: gathering_def setupWriter_def round_start_def MaxDiscordFileCount_def)

theorem writer_fifo_witness:
  "ws_items (on_item \<lparr>qi_channel = 0, qi_data = ''x''\<rparr> setupWriter) = [\<lparr>qi_channel = 0, qi_data = ''x''\<rparr>] \<and>
   length (ws_items (on_item \<lparr>qi_channel = 0, qi_data = ''x''\<rparr> setupWriter)) \<le> 11"
  using writer_fifo [OF sample_item]
  by (simp add: on_item_def setupWriter_def round_start_def MaxDiscordFileSize_def MaxDiscordFileCount_def)

lemma queue_calls:
  assumes "queue_ok q"
  shows "distinct (map (qi_channel \<circ> fst) (ws_done (wq_writer q)))"
    and "(item, r) \<in> set (ws_done (wq_writer q)) \<Longrightarrow>
      qi_channel item < length (wq_calls q) \<and> qi_data item = wq_calls q ! qi_channel item"
proof -
  have m: "mset (items_of q) = mset (call_items (wq_calls q))" using assms by (simp add: queue_ok_def)
  have "map qi_channel (call_items (wq_calls q)) = [0..<length (wq_calls q)]" by (simp add: call_items_def comp_def)
  then have "distinct (map qi_channel (items_of q))"
    using m by (metis distinct_upt mset_eq_imp_distinct_iff mset_map)
  then show "distinct (map (qi_channel \<circ> fst) (ws_done (wq_writer q)))" by (simp add: items_of_def)
  assume "(item, r) \<in> set (ws_done (wq_writer q))"
  then have "item \<in> set (items_of q)" by (force simp: items_of_def)
  then have "item \<in> set (call_items (wq_calls q))" using mset_eq_setD [OF m] by simp
  then show "qi_channel item < length (wq_calls q) \<and> qi_data item = wq_calls q ! qi_channel item"
    by (auto simp: call_items_def)
qed

text \<open>
  C15. Every caller gets the id of its own bytes: whatever calls of \<open>SendTx\<close> and \<open>SendData\<close> come in
  between and however they are gathered into messages, no channel is answered twice, and when
  the answer on the channel of a call is an id, the service has under it the bytes of that call.
\<close>

theorem caller_gets_own_file:
  assumes "reaches queue_step start_queue q" "result_on q c = Some (FileID i)"
  shows "distinct (map (qi_channel \<circ> fst) (ws_done (wq_writer q))) \<and> c < length (wq_calls q) \<and>
    wq_store q i = Some (wq_calls q ! c)"
proof -
  have ok: "queue_ok q" by (rule queue_machine.reaches_inv [OF assms(1) queue_ok_start])
  obtain item where item: "(item, FileID i) \<in> set (ws_done (wq_writer q))" "qi_channel item = c"
    using assms(2) map_of_SomeD by (force simp: result_on_def)
  then have "wq_store q i = Some (qi_data item)" using ok by (simp add: queue_ok_def)
  then show ?thesis using queue_calls(1) [OF ok] queue_calls(2) [OF ok item(1)] item(2) by simp
qed


definition sample_queue :: Queue where
  "sample_queue = snd (sendToQueue ''x'' start_queue)"


text \<open>One call, received, and the timer: its message comes back with one attachment.\<close>

theorem caller_gets_own_file_witness:
  "\<exists>q. reaches queue_step start_queue q \<and> result_on q 0 = Some (FileID ''7'') \<and> wq_store q ''7'' = Some ''x''"
proof -
  let ?item = "\<lparr>qi_channel = 0, qi_data = ''x''\<rparr>"
  let ?q1 = "sample_queue\<lparr>wq_writer := on_item ?item (wq_writer sample_queue), wq_waiting := remove1 ?item (wq_waiting sample_queue)\<rparr>"
  let ?q2 = "?q1\<lparr>wq_writer := on_after (wq_writer ?q1)\<rparr>"
  let ?w = "round_start ((wq_writer ?q2)\<lparr>ws_done := [(?item, FileID ''7'')]\<rparr>)"
  let ?q3 = "?q2\<lparr>wq_writer := ?w, wq_store := stores [''7''] (map qi_data (ws_items (wq_writer ?q2))) (wq_store ?q2)\<rparr>"
  note defs = sample_queue_def sendToQueue_def start_queue_def setupWriter_def round_start_def on_item_def on_after_def
    MaxDiscordFileCount_def MaxDiscordFileSize_def gathering_def
  have "reaches queue_step start_queue sample_queue"
    unfolding sample_queue_def by (rule one_step, rule queue_step.send)
  moreover have "queue_step sample_queue ?q1" by (rule queue_step.recv) (simp_all add: defs)
  moreover have "queue_step ?q1 ?q2" by (rule queue_step.timeout) (simp add: defs)
  moreover have "queue_step ?q2 ?q3"
    by (rule queue_step.posted) (simp_all add: defs flush_def answers_def)
  ultimately have run: "reaches queue_step start_queue ?q3" by (meson reaches.there)
  have res: "result_on ?q3 0 = Some (FileID ''7'')" by (simp add: result_on_def round_start_def)
  have "wq_calls ?q3 ! 0 = ''x''" by (simp add: defs)
  then have "wq_store ?q3 ''7'' = Some ''x''" using caller_gets_own_file [OF run res] by simp
  then show ?thesis using run res by blast
qed

definition big_item :: QueueItem where
  "big_item = \<lparr>qi_channel = 0, qi_data = replicate (nat MaxDiscordFileSize) zero_byte\<rparr>"

definition small_item :: QueueItem where
  "small_item = \<lparr>qi_channel = 0, qi_data = [zero_byte]\<rparr>"

text \<open>
  C37. A batch can exceed both limits of the service: a state is reachable in which the writer
  is about to send eleven files that together are larger than an attachment may be. The item
  put off in one round starts the next batch without being counted in it.
\<close>

theorem writer_exceeds_limits:
  "\<exists>w. reaches writer_step setupWriter w \<and> \<not> gathering w \<and> length (ws_items w) = Suc MaxDiscordFileCount \<and>
    MaxDiscordFileSize < int (sum_list (map (\<lambda>i. length (qi_data i)) (ws_items w)))"
proof -
  let ?w1 = "gather [Item small_item, Item big_item] setupWriter"
  let ?w2 = "round_start (?w1\<lparr>ws_done := ws_done ?w1 @ [(small_item, SendError)]\<rparr>)"
  let ?S = "Item small_item"
  let ?w3 = "gather [?S, ?S, ?S, ?S, ?S, ?S, ?S, ?S, ?S, ?S] ?w2"
  have len: "int (length (qi_data small_item)) = 1" "int (length (qi_data big_item)) = 26214400"
    by (simp_all add: small_item_def big_item_def MaxDiscordFileSize_def)
  note defs = on_item_def setupWriter_def round_start_def MaxDiscordFileSize_def MaxDiscordFileCount_def
    gathering_def flush_def answers_def len
  have 1: "reaches writer_step setupWriter ?w1" by (rule gather_reaches [OF here])
  have "\<not> gathering ?w1" "flush None ?w1 = Some ?w2" by (simp_all add: defs Let_def)
  then have "reaches writer_step setupWriter ?w2" using there [OF 1 sends] by blast
  then have "reaches writer_step setupWriter ?w3" by (rule gather_reaches)
  moreover have "\<not> gathering ?w3" "length (ws_items ?w3) = Suc MaxDiscordFileCount"
    "MaxDiscordFileSize < int (sum_list (map (\<lambda>i. length (qi_data i)) (ws_items ?w3)))"
    by (simp_all add: defs Let_def)
  ultimately show ?thesis by blast
qed

lemma flush_error:
  "flush None w = Some (round_start (w\<lparr>ws_done := ws_done w @ map (\<lambda>i. (i, SendError)) (ws_items w)\<rparr>))"
  by (cases w) (simp add: flush_def answers_def round_start_def)

text \<open>
  A round ends: after at most ten events, items received or the timer, the writer stops
  gathering, and then it can send: when the service fails, every item of the batch is answered
  with the error and a new round begins.
\<close>

theorem writer_round_ends:
  assumes "MaxDiscordFileCount \<le> length es + ws_i w"
  shows "\<not> gathering (gather es w) \<and>
    (\<exists>w'. flush None (gather es w) = Some w' \<and> writer_step (gather es w) w' \<and> ws_i w' = 0 \<and>
       ws_done w' = ws_done (gather es w) @ map (\<lambda>i. (i, SendError)) (ws_items (gather es w)))"
proof -
  have g: "\<not> gathering (gather es w)" by (rule gather_ends [OF assms])
  then show ?thesis
    using sends [OF g flush_error] g flush_error by (intro conjI exI) (assumption | rule flush_error | simp add: round_start_def)+
qed

theorem writer_round_ends_witness:
  "\<not> gathering (gather (replicate 10 After) setupWriter)"
  using writer_round_ends [of "replicate 10 After" setupWriter] by (simp add: MaxDiscordFileCount_def)

end
