(* ===== verification/FuseOpt.thy ===== *)
theory FuseOpt
  imports FuseC GoPath
begin

text \<open>
  The command line: \<open>opts.go\<close>, and of \<open>fuse/host.go\<close> the part of \<open>Mount\<close> that builds the
  argument vector, and \<open>OptParse\<close> with its normalisation of option formats.

  Parameters: \<open>found\<close> is what \<open>c_hostFuseInit\<close> answers, whether the FUSE library is there;
  \<open>parse\<close> is the library's \<open>fuse_opt_parse\<close>, a function of the argument vector, the option
  table and the flag for arguments that are no options, with the remaining arguments and the
  data area as its result. The data area is read as one word per option, at the option's
  offset; \<open>str_at\<close> is the string a word in it points to.
\<close>

section \<open>Arguments for FUSE\<close>

definition FuseArgs :: "string list \<Rightarrow> string list" where
  "FuseArgs opts = fold (\<lambda>arg args. args @ [''-o'', arg]) opts []"

text \<open>The argument vector of \<open>Mount\<close>, filled slot by slot; the last slot stays null.\<close>

definition mount_argc :: "string \<Rightarrow> string list \<Rightarrow> nat" where
  "mount_argc mountpoint opts = length opts + 2 + (if mountpoint \<noteq> [] then 1 else 0)"

definition exec_name :: "string list \<Rightarrow> string" where
  "exec_name os_Args = (if 0 < length os_Args then os_Args ! 0 else ''<UNKNOWN>'')"

definition put_opts :: "nat \<Rightarrow> string list \<Rightarrow> c_string list \<Rightarrow> c_string list" where
  "put_opts opti opts argv = fold (\<lambda>i a. a[i + opti := c_CString (opts ! i)]) [0..<length opts] argv"

definition mount_argv :: "string list \<Rightarrow> string \<Rightarrow> string list \<Rightarrow> c_string list" where
  "mount_argv os_Args mountpoint opts =
     (let argv = (replicate (mount_argc mountpoint opts + 1) None)[0 := c_CString (exec_name os_Args)];
          (opti, argv) = (if mountpoint \<noteq> [] then (2, argv[1 := c_CString mountpoint]) else (1, argv));
          argv = argv[opti := c_CString ''-f'']
      in put_opts (opti + 1) opts argv)"

section \<open>Option formats\<close>

text \<open>\<open>strings.Index\<close>, \<open>strings.HasSuffix\<close> and \<open>strings.Split\<close> at a space.\<close>

fun strings_Index :: "string \<Rightarrow> string \<Rightarrow> nat option" where
  "strings_Index [] sep = (if sep = [] then Some 0 else None)"
| "strings_Index (c # s) sep =
     (if prefix sep (c # s) then Some 0 else map_option Suc (strings_Index s sep))"

definition strings_HasSuffix :: "string \<Rightarrow> string \<Rightarrow> bool" where
  "strings_HasSuffix s suf = suffix suf s"

definition split_spaces :: "string \<Rightarrow> string list" where
  "split_spaces = split_on (\<lambda>c. c = CHR 0x20)"

text \<open>Each function returns the normalised format, or the string it panics with.\<close>

definition optNormBool :: "string \<Rightarrow> string + string" where
  "optNormBool opt = (case strings_Index opt ''=%'' of
     Some i \<Rightarrow>
       let verb = drop (i + 2) opt in
       if verb \<in> set [''d'', ''o'', ''x'', ''X''] then Inr opt
       else if verb = ''v'' then Inr (take (i + 1) opt)
       else Inl (''unknown format '' @ drop (i + 1) opt)
   | None \<Rightarrow> Inr opt)"

definition optNormInt :: "string \<Rightarrow> string \<Rightarrow> string + string" where
  "optNormInt opt modf = (case strings_Index opt ''=%'' of
     Some i \<Rightarrow>
       let verb = drop (i + 2) opt in
       if verb \<in> set [''d'', ''o'', ''x'', ''X''] then Inr (take (i + 2) opt @ modf @ verb)
       else if verb = ''v'' then Inr (take (i + 2) opt @ modf @ ''i'')
       else Inl (''unknown format '' @ drop (i + 1) opt)
   | None \<Rightarrow>
       if strings_HasSuffix opt ''='' then Inr (opt @ ''%'' @ modf @ ''i'')
       else Inr (opt @ ''=%'' @ modf @ ''i''))"

definition optNormStr :: "string \<Rightarrow> string + string" where
  "optNormStr opt = (case strings_Index opt ''=%'' of
     Some i \<Rightarrow>
       let verb = drop (i + 2) opt in
       if verb \<in> set [''s'', ''v''] then Inr (take (i + 2) opt @ ''s'')
       else Inl (''unknown format '' @ drop (i + 1) opt)
   | None \<Rightarrow>
       if strings_HasSuffix opt ''='' then Inr (opt @ ''%s'')
       else Inr (opt @ ''=%s''))"

section \<open>OptParse\<close>

text \<open>The pointer types that \<open>OptParse\<close> knows, and any other.\<close>

datatype OptPtr =
    BoolPtr | IntPtr | Int8Ptr | Int16Ptr | Int32Ptr | Int64Ptr
  | UintPtr | Uint8Ptr | Uint16Ptr | Uint32Ptr | Uint64Ptr | UintptrPtr
  | StringPtr | UnknownPtr

datatype OptVal = BoolVal bool | IntVal int | StringVal string

text \<open>The first type switch: the template, null for an unknown type.\<close>

definition opt_templ :: "OptPtr \<Rightarrow> string \<Rightarrow> string + c_string" where
  "opt_templ v opt =
     (let norm = (case v of
          BoolPtr \<Rightarrow> Some (optNormBool opt)
        | IntPtr \<Rightarrow> Some (optNormInt opt '''')
        | Int8Ptr \<Rightarrow> Some (optNormInt opt ''hh'')
        | Int16Ptr \<Rightarrow> Some (optNormInt opt ''h'')
        | Int32Ptr \<Rightarrow> Some (optNormInt opt '''')
        | Int64Ptr \<Rightarrow> Some (optNormInt opt ''ll'')
        | UintPtr \<Rightarrow> Some (optNormInt opt '''')
        | Uint8Ptr \<Rightarrow> Some (optNormInt opt ''hh'')
        | Uint16Ptr \<Rightarrow> Some (optNormInt opt ''h'')
        | Uint32Ptr \<Rightarrow> Some (optNormInt opt '''')
        | Uint64Ptr \<Rightarrow> Some (optNormInt opt ''ll'')
        | UintptrPtr \<Rightarrow> Some (optNormInt opt ''ll'')
        | StringPtr \<Rightarrow> Some (optNormStr opt)
        | UnknownPtr \<Rightarrow> None)
      in case norm of
           None \<Rightarrow> Inr None
         | Some (Inl msg) \<Rightarrow> Inl msg
         | Some (Inr templ) \<Rightarrow> Inr (c_CString templ))"

text \<open>The second type switch: the value in a word of the data area, by the pointer's type.\<close>

definition opt_val :: "(64 word \<Rightarrow> c_string) \<Rightarrow> OptPtr \<Rightarrow> 64 word \<Rightarrow> OptVal option" where
  "opt_val str_at v w = (case v of
     BoolPtr \<Rightarrow> Some (BoolVal (sint (ucast w :: 32 word) \<noteq> 0))
   | IntPtr \<Rightarrow> Some (IntVal (sint (ucast w :: 32 word)))
   | Int8Ptr \<Rightarrow> Some (IntVal (sint (ucast w :: 8 word)))
   | Int16Ptr \<Rightarrow> Some (IntVal (sint (ucast w :: 16 word)))
   | Int32Ptr \<Rightarrow> Some (IntVal (sint (ucast w :: 32 word)))
   | Int64Ptr \<Rightarrow> Some (IntVal (sint w))
   | UintPtr \<Rightarrow> Some (IntVal (uint (ucast w :: 32 word)))
   | Uint8Ptr \<Rightarrow> Some (IntVal (uint (ucast w :: 8 word)))
   | Uint16Ptr \<Rightarrow> Some (IntVal (uint (ucast w :: 16 word)))
   | Uint32Ptr \<Rightarrow> Some (IntVal (uint (ucast w :: 32 word)))
   | Uint64Ptr \<Rightarrow> Some (IntVal (uint w))
   | UintptrPtr \<Rightarrow> Some (IntVal (uint w))
   | StringPtr \<Rightarrow> Some (StringVal (c_GoString (str_at w)))
   | UnknownPtr \<Rightarrow> None)"

text \<open>
  The first loop: a panic with a string in the i-th turn, or, when there are fewer pointers
  than options, one with a run-time error.
\<close>

datatype OptPanic = StringPanic string | RuntimePanic

fun opt_templs :: "string list \<Rightarrow> OptPtr list \<Rightarrow> OptPanic + c_string list" where
  "opt_templs [] vals = Inr []"
| "opt_templs (opt # opts) [] = Inl RuntimePanic"
| "opt_templs (opt # opts) (v # vals) = (case opt_templ v opt of
     Inl msg \<Rightarrow> Inl (StringPanic msg)
   | Inr templ \<Rightarrow> map_sum id ((#) templ) (opt_templs opts vals))"

text \<open>An entry of the option table; the value stored for an option without parameter is 1.\<close>

record fuse_opt =
  fo_templ :: c_string
  fo_offset :: nat
  fo_value :: int

definition opt_align :: nat where
  "opt_align = 16"

definition opt_table :: "c_string list \<Rightarrow> fuse_opt list" where
  "opt_table templs =
     map (\<lambda>i. \<lparr>fo_templ = templs ! i, fo_offset = i * opt_align, fo_value = 1\<rparr>) [0..<length templs] @
     [\<lparr>fo_templ = None, fo_offset = 0, fo_value = 0\<rparr>]"

definition argv_limit :: nat where
  "argv_limit = 65536"

datatype OptResult = Parsed "string list" "OptVal option list" | OptError string | OptPanics

type_synonym opt_parser =
  "c_string list \<Rightarrow> fuse_opt list \<Rightarrow> bool \<Rightarrow> (c_string list \<times> (nat \<Rightarrow> 64 word)) option"

definition format_opts :: "string \<Rightarrow> string list" where
  "format_opts format = (if format = [] then [] else split_spaces format)"

definition OptParse ::
    "bool \<Rightarrow> opt_parser \<Rightarrow> (64 word \<Rightarrow> c_string) \<Rightarrow> string list \<Rightarrow> string \<Rightarrow> OptPtr list \<Rightarrow> OptResult" where
  "OptParse found parse str_at args format vals =
     (if \<not> found then OptPanics
      else
        let nonopts = (format = []);
            opts = format_opts format
        in (case opt_templs opts vals of
              Inl (StringPanic msg) \<Rightarrow> OptError (''OptParse: '' @ msg)
            | Inl RuntimePanic \<Rightarrow> OptPanics
            | Inr templs \<Rightarrow>
                if argv_limit \<le> length args then OptPanics
                else (case parse (map c_CString (''<UNKNOWN>'' # args)) (opt_table templs) nonopts of
                    None \<Rightarrow> OptError ''OptParse: failed''
                  | Some (argv, data) \<Rightarrow>
                      let values = map (\<lambda>i. opt_val str_at (vals ! i) (data (i * opt_align))) [0..<length opts];
                          outargs = map c_GoString (drop 1 argv)
                      in if argv_limit < length argv then OptPanics
                         else if nonopts \<and> outargs \<noteq> [] \<and> outargs ! 0 = ''--''
                         then Parsed (drop 1 outargs) values
                         else Parsed outargs values)))"

end
