(* ===== verification/OptProps.thy ===== *)
theory OptProps
  imports FuseOpt
begin

text \<open>
  Properties of the command line: the argument vector of \<open>Mount\<close>, the normalisation of option
  formats, the errors and the values of \<open>OptParse\<close>.
\<close>

section \<open>The argument vector\<close>

lemma FuseArgs_concat: "FuseArgs opts = concat (map (\<lambda>arg. [''-o'', arg]) opts)"
proof -
  have "fold (\<lambda>arg args. args @ [''-o'', arg]) opts a = a @ concat (map (\<lambda>arg. [''-o'', arg]) opts)" for a
    by (induction opts arbitrary: a) simp_all
  then show ?thesis by (simp add: FuseArgs_def)
qed

lemma put_opts_slots:
  "put_opts (length a) opts (a @ replicate (length opts) None @ b) = a @ map c_CString opts @ b"
proof -
  have "n \<le> length opts \<Longrightarrow>
      fold (\<lambda>i a. a[i + length c := c_CString (opts ! i)]) [0..<n] (c @ replicate (length opts) None @ b) =
      c @ map c_CString (take n opts) @ replicate (length opts - n) None @ b" for n and c :: "c_string list"
  proof (induction n)
    case (Suc n)
    then have "replicate (length opts - n) None = None # replicate (length opts - Suc n) (None :: c_string)"
      by (metis Suc_diff_Suc Suc_le_lessD replicate_Suc)
    then show ?case using Suc
      by (simp add: take_Suc_conv_app_nth list_update_append min_def)
  qed simp
  from this [of "length opts" a] show ?thesis by (simp add: put_opts_def)
qed

lemma mount_argv_list:
  "mount_argv os_Args mountpoint opts =
     map c_CString (exec_name os_Args # (if mountpoint = [] then [] else [mountpoint]) @ ''-f'' # opts) @ [None]"
proof (cases "mountpoint = []")
  case True
  have "mount_argv os_Args mountpoint opts =
      put_opts (length [c_CString (exec_name os_Args), c_CString ''-f'']) opts
        ([c_CString (exec_name os_Args), c_CString ''-f''] @ replicate (length opts) None @ [None])"
    using True by (simp add: mount_argv_def mount_argc_def replicate_append_same [symmetric])
  then show ?thesis unfolding put_opts_slots using True by simp
next
  case False
  have "mount_argv os_Args mountpoint opts =
      put_opts (length [c_CString (exec_name os_Args), c_CString mountpoint, c_CString ''-f'']) opts
        ([c_CString (exec_name os_Args), c_CString mountpoint, c_CString ''-f''] @
          replicate (length opts) None @ [None])"
    using False by (simp add: mount_argv_def mount_argc_def replicate_append_same [symmetric] numeral_3_eq_3)
  then show ?thesis unfolding put_opts_slots using False by simp
qed

text \<open>
  The command line of the program: the vector that \<open>Mount\<close> fills slot by slot holds, when the
  options come from \<open>FuseArgs\<close>, the name of the program, the mount point unless it is empty,
  \<open>-f\<close>, and \<open>-o\<close> with each option in order; its last slot, and no other, is null, and the
  count passed with it is the number of slots before that.
\<close>

theorem mount_command_line:
  "mount_argv os_Args mountpoint (FuseArgs opts) =
     map c_CString (exec_name os_Args # (if mountpoint = [] then [] else [mountpoint]) @ ''-f'' #
       concat (map (\<lambda>arg. [''-o'', arg]) opts)) @ [None] \<and>
   mount_argc mountpoint (FuseArgs opts) + 1 = length (mount_argv os_Args mountpoint (FuseArgs opts))"
  unfolding mount_argv_list by (simp add: FuseArgs_concat mount_argc_def)

section \<open>Option formats\<close>

lemma index_verb:
  "strings_Index x ''=%'' = None \<Longrightarrow> strings_Index (x @ CHR ''='' # CHR ''%'' # r) ''=%'' = Some (length x)"
proof (induction x)
  case (Cons c x)
  then show ?case by (cases x) (auto split: if_splits)
qed simp

lemma index_equals: "strings_Index x ''=%'' = None \<Longrightarrow> strings_Index (x @ ''='') ''=%'' = None"
proof (induction x)
  case (Cons c x)
  then show ?case by (cases x) (auto split: if_splits)
qed simp

text \<open>
  The formats that \<open>OptParse\<close> documents as equivalent are: for an option \<open>x\<close> without a verb
  and without an equals sign at its end, \<open>x\<close>, \<open>x=\<close> and \<open>x=%v\<close> mean the same for integers and for
  strings, and \<open>x=\<close> and \<open>x=%v\<close> for booleans.
\<close>

theorem option_formats:
  assumes "strings_Index x ''=%'' = None" "\<not> strings_HasSuffix x ''=''"
  shows "optNormInt x modf = Inr (x @ ''=%'' @ modf @ ''i'') \<and>
    optNormInt (x @ ''='') modf = optNormInt x modf \<and> optNormInt (x @ ''=%v'') modf = optNormInt x modf \<and>
    optNormStr x = Inr (x @ ''=%s'') \<and>
    optNormStr (x @ ''='') = optNormStr x \<and> optNormStr (x @ ''=%v'') = optNormStr x \<and>
    optNormBool (x @ ''='') = Inr (x @ ''='') \<and> optNormBool (x @ ''=%v'') = optNormBool (x @ ''='')"
  using assms index_verb [OF assms(1)] index_equals [OF assms(1)]
  by (simp add: optNormInt_def optNormStr_def optNormBool_def strings_HasSuffix_def)

theorem option_formats_witness:
  "optNormInt ''umask=%v'' ''h'' = Inr ''umask=%hi'' \<and> optNormStr ''umask'' = Inr ''umask=%s'' \<and>
   optNormBool ''umask=%v'' = Inr ''umask=''"
  using option_formats [of "''umask''" "''h''"] by (simp add: strings_HasSuffix_def suffix_def)

section \<open>OptParse\<close>

text \<open>The verbs that a pointer type allows.\<close>

definition verb_ok :: "OptPtr \<Rightarrow> string \<Rightarrow> bool" where
  "verb_ok v verb \<longleftrightarrow> (case v of
     UnknownPtr \<Rightarrow> True
   | StringPtr \<Rightarrow> verb \<in> {''s'', ''v''}
   | _ \<Rightarrow> verb \<in> {''d'', ''o'', ''x'', ''X'', ''v''})"

definition format_ok :: "OptPtr \<Rightarrow> string \<Rightarrow> bool" where
  "format_ok v opt \<longleftrightarrow> (case strings_Index opt ''=%'' of None \<Rightarrow> True | Some i \<Rightarrow> verb_ok v (drop (i + 2) opt))"

lemma opt_templ_ok: "(\<exists>templ. opt_templ v opt = Inr templ) \<longleftrightarrow> format_ok v opt"
  by (cases v; cases "strings_Index opt ''=%''")
    (auto simp: opt_templ_def format_ok_def verb_ok_def optNormBool_def optNormInt_def optNormStr_def Let_def)

lemma opt_templs_ok:
  "length opts \<le> length vals \<Longrightarrow>
   (\<exists>templs. opt_templs opts vals = Inr templs) \<longleftrightarrow> list_all2 format_ok (take (length opts) vals) opts"
proof (induction opts vals rule: opt_templs.induct)
  case (3 opt opts v vals)
  then show ?case using opt_templ_ok [of v opt]
    by (cases "opt_templ v opt"; cases "opt_templs opts vals") auto
qed auto

lemma opt_templs_no_runtime:
  "length opts \<le> length vals \<Longrightarrow> opt_templs opts vals \<noteq> Inl RuntimePanic"
proof (induction opts vals rule: opt_templs.induct)
  case (3 opt opts v vals)
  then show ?case by (cases "opt_templ v opt"; cases "opt_templs opts vals") auto
qed auto

text \<open>
  The errors of \<open>OptParse\<close>: with the library loaded, a pointer for each option, and a number of
  arguments below the limit, it does not panic, and it returns an error exactly when a format
  has a verb that its pointer's type does not allow, or the library rejects the arguments.
\<close>

theorem OptParse_errors:
  assumes "length (format_opts format) \<le> length vals"
    and "length args < argv_limit"
    and "\<And>a t n argv data. parse a t n = Some (argv, data) \<Longrightarrow> length argv \<le> argv_limit"
  shows "OptParse True parse str_at args format vals \<noteq> OptPanics \<and>
    ((\<exists>err. OptParse True parse str_at args format vals = OptError err) \<longleftrightarrow>
      \<not> list_all2 format_ok (take (length (format_opts format)) vals)
          (format_opts format) \<or>
      (\<exists>templs. opt_templs (format_opts format) vals = Inr templs \<and>
        parse (map c_CString (''<UNKNOWN>'' # args)) (opt_table templs) (format = []) = None))"
proof -
  show ?thesis
  proof (cases "opt_templs (format_opts format) vals")
    case (Inl p)
    then have "\<not> list_all2 format_ok (take (length (format_opts format)) vals) (format_opts format)"
      using opt_templs_ok [OF assms(1)] by simp
    moreover obtain msg where "p = StringPanic msg"
      using Inl opt_templs_no_runtime [OF assms(1)] by (cases p) auto
    ultimately show ?thesis using Inl by (simp add: OptParse_def)
  next
    case (Inr templs)
    then have "list_all2 format_ok (take (length (format_opts format)) vals) (format_opts format)"
      using opt_templs_ok [OF assms(1)] by blast
    then show ?thesis using Inr assms(2)
        assms(3) [of "map c_CString (''<UNKNOWN>'' # args)" "opt_table templs" "format = []"]
      by (cases "parse (map c_CString (''<UNKNOWN>'' # args)) (opt_table templs) (format = [])")
        (auto simp: OptParse_def Let_def split: if_splits)
  qed
qed

theorem OptParse_errors_witness:
  "(\<exists>err. OptParse True (\<lambda>a t n. Some ([], \<lambda>i. 3)) (\<lambda>w. None) [''-o''] ''n=%s'' [IntPtr] = OptError err) \<and>
   \<not> (\<exists>err. OptParse True (\<lambda>a t n. Some ([], \<lambda>i. 3)) (\<lambda>w. None) [''-o''] ''n=%x'' [IntPtr] = OptError err)"
proof -
  have fmt: "format_opts ''n=%s'' = [''n=%s'']" "format_opts ''n=%x'' = [''n=%x'']"
    by (simp_all add: format_opts_def split_spaces_def)
  have ok: "\<not> format_ok IntPtr ''n=%s''" "format_ok IntPtr ''n=%x''"
    by (simp_all add: format_ok_def verb_ok_def)
  have parse: "Some ([], \<lambda>i. 3) = Some (argv, data) \<Longrightarrow> length argv \<le> argv_limit"
    for argv :: "c_string list" and data :: "nat \<Rightarrow> 64 word" by simp
  have lens: "length (format_opts ''n=%s'') \<le> length [IntPtr]" "length (format_opts ''n=%x'') \<le> length [IntPtr]"
    "length [''-o''] < argv_limit" by (simp_all add: fmt argv_limit_def)
  show ?thesis
    using OptParse_errors [where parse = "\<lambda>a t n. Some ([], \<lambda>i. 3)" and str_at = "\<lambda>w. None", OF lens(1,3) parse]
      OptParse_errors [where parse = "\<lambda>a t n. Some ([], \<lambda>i. 3)" and str_at = "\<lambda>w. None", OF lens(2,3) parse]
    by (simp add: fmt ok)
qed

section \<open>Values\<close>

definition opt_range :: "OptPtr \<Rightarrow> (int \<times> int) option" where
  "opt_range v = (case v of
     BoolPtr \<Rightarrow> None | StringPtr \<Rightarrow> None | UnknownPtr \<Rightarrow> None
   | IntPtr \<Rightarrow> Some (- (2 ^ 31), 2 ^ 31) | Int8Ptr \<Rightarrow> Some (- (2 ^ 7), 2 ^ 7)
   | Int16Ptr \<Rightarrow> Some (- (2 ^ 15), 2 ^ 15) | Int32Ptr \<Rightarrow> Some (- (2 ^ 31), 2 ^ 31)
   | Int64Ptr \<Rightarrow> Some (- (2 ^ 63), 2 ^ 63)
   | UintPtr \<Rightarrow> Some (0, 2 ^ 32) | Uint8Ptr \<Rightarrow> Some (0, 2 ^ 8) | Uint16Ptr \<Rightarrow> Some (0, 2 ^ 16)
   | Uint32Ptr \<Rightarrow> Some (0, 2 ^ 32) | Uint64Ptr \<Rightarrow> Some (0, 2 ^ 64) | UintptrPtr \<Rightarrow> Some (0, 2 ^ 64))"

lemma sint_fits:
  "- (2 ^ (LENGTH('b) - 1)) \<le> k \<Longrightarrow> k < 2 ^ (LENGTH('b) - 1) \<Longrightarrow> sint (word_of_int k :: 'b::len word) = k"
  by (simp add: signed_of_int signed_take_bit_int_eq_self)

lemma uint_fits: "0 \<le> k \<Longrightarrow> k < 2 ^ LENGTH('b) \<Longrightarrow> uint (word_of_int k :: 'b::len word) = k"
  by (simp add: unsigned_of_int take_bit_int_eq_self)

lemma low_part: "LENGTH('b) \<le> 64 \<Longrightarrow> ucast (word_of_int k :: 64 word) = (word_of_int k :: 'b::len word)"
  by (simp add: unsigned_of_int wi_bintr)

text \<open>
  Integer options arrive: for each integer type of Go, a number of its range that the library
  stored in the option's slot is the value \<open>OptParse\<close> assigns; \<open>int\<close> and \<open>uint\<close>
  have the range of 32 bits, since the library stores a C \<open>int\<close>.
\<close>

theorem option_values:
  assumes "opt_range v = Some (lo, hi)" "lo \<le> k" "k < hi"
  shows "opt_val str_at v (word_of_int k) = Some (IntVal k)"
  using assms
  by (cases v; simp add: opt_range_def opt_val_def low_part sint_fits uint_fits)

theorem option_values_witness:
  "opt_val (\<lambda>w. None) Int8Ptr (word_of_int (- 5)) = Some (IntVal (- 5)) \<and>
   opt_val (\<lambda>w. None) Uint16Ptr (word_of_int 65535) = Some (IntVal 65535)"
  using option_values [of Int8Ptr "- 128" 128 "- 5" "\<lambda>w. None"] option_values [of Uint16Ptr 0 65536 65535 "\<lambda>w. None"]
  by (simp add: opt_range_def)

end
