(* ===== verification/FuseMount.thy ===== *)
theory FuseMount
  imports FuseOpt Machine
begin

text \<open>
  Mounting, in \<open>fuse/host.go\<close>: the table of handles by which C finds a \<open>FileSystemHost\<close>
  (\<open>hostHandleNew\<close>, \<open>hostHandleDel\<close>, \<open>hostHandleGet\<close>), the capabilities negotiated in \<open>hostInit\<close>,
  \<open>hostDestroy\<close>, \<open>Mount\<close>, \<open>Unmount\<close> and \<open>Notify\<close>.

  Hosts are objects of a heap and the table maps C pointers to them. \<open>Mount\<close> runs from the
  creation of its handle until the library returns, while the library calls back, a signal may
  arrive, and a goroutine waits for one: it is a step relation (\<open>mount_step\<close>) on \<open>mstate\<close>.

  Parameters: \<open>malloc\<close> picks a block that is not among the live ones (\<open>malloc_ok\<close>); \<open>c_unmount\<close>
  and \<open>c_notify\<close> are the C functions behind \<open>Unmount\<close> and \<open>Notify\<close>; \<open>absf\<close> is \<open>filepath.Abs\<close>.
\<close>

section \<open>Hosts\<close>

record FileSystemHost =
  fh_fuse :: "nat option"
  fh_mntp :: string
  fh_sigc :: bool
  fh_capCaseInsensitive :: bool
  fh_capReaddirPlus :: bool
  fh_capDeleteAccess :: bool

definition NewFileSystemHost :: FileSystemHost where
  "NewFileSystemHost = \<lparr>fh_fuse = None, fh_mntp = [], fh_sigc = False, fh_capCaseInsensitive = False,
     fh_capReaddirPlus = False, fh_capDeleteAccess = False\<rparr>"

definition SetCapCaseInsensitive :: "bool \<Rightarrow> FileSystemHost \<Rightarrow> FileSystemHost" where
  "SetCapCaseInsensitive value h = h\<lparr>fh_capCaseInsensitive := value\<rparr>"

definition SetCapReaddirPlus :: "bool \<Rightarrow> FileSystemHost \<Rightarrow> FileSystemHost" where
  "SetCapReaddirPlus value h = h\<lparr>fh_capReaddirPlus := value\<rparr>"

definition SetCapDeleteAccess :: "bool \<Rightarrow> FileSystemHost \<Rightarrow> FileSystemHost" where
  "SetCapDeleteAccess value h = h\<lparr>fh_capDeleteAccess := value\<rparr>"

section \<open>Handles\<close>

record hosts =
  hs_heap :: "FileSystemHost list"
  hs_table :: "nat \<rightharpoonup> nat"
  hs_live :: "nat list"

definition malloc_ok :: "(nat list \<Rightarrow> nat) \<Rightarrow> bool" where
  "malloc_ok malloc \<longleftrightarrow> (\<forall>ps. malloc ps \<notin> set ps)"

definition hostHandleNew :: "(nat list \<Rightarrow> nat) \<Rightarrow> nat \<Rightarrow> hosts \<Rightarrow> nat \<times> hosts" where
  "hostHandleNew malloc host hs =
     (let p = malloc (hs_live hs)
      in (p, hs\<lparr>hs_table := (hs_table hs)(p \<mapsto> host), hs_live := p # hs_live hs\<rparr>))"

definition hostHandleDel :: "nat \<Rightarrow> hosts \<Rightarrow> hosts" where
  "hostHandleDel p hs = hs\<lparr>hs_table := (hs_table hs)(p := None), hs_live := remove1 p (hs_live hs)\<rparr>"

definition hostHandleGet :: "nat \<Rightarrow> hosts \<Rightarrow> nat option" where
  "hostHandleGet p hs = hs_table hs p"

definition set_host :: "nat \<Rightarrow> (FileSystemHost \<Rightarrow> FileSystemHost) \<Rightarrow> hosts \<Rightarrow> hosts" where
  "set_host i f hs = hs\<lparr>hs_heap := (hs_heap hs)[i := f (hs_heap hs ! i)]\<rparr>"

section \<open>Capabilities\<close>

record fuse_conn_info =
  cc_capable :: "32 word"
  cc_want :: "32 word"

definition FSP_FUSE_CAP_CASE_INSENSITIVE :: "32 word" where
  "FSP_FUSE_CAP_CASE_INSENSITIVE = push_bit 29 1"

definition FSP_FUSE_CAP_READDIR_PLUS :: "32 word" where
  "FSP_FUSE_CAP_READDIR_PLUS = push_bit 21 1"

definition FSP_FUSE_CAP_STAT_EX :: "32 word" where
  "FSP_FUSE_CAP_STAT_EX = push_bit 23 1"

definition FSP_FUSE_CAP_DELETE_ACCESS :: "32 word" where
  "FSP_FUSE_CAP_DELETE_ACCESS = push_bit 24 1"

definition want_cap :: "32 word \<Rightarrow> fuse_conn_info \<Rightarrow> fuse_conn_info" where
  "want_cap cap conn = conn\<lparr>cc_want := cc_want conn OR (cc_capable conn AND cap)\<rparr>"

text \<open>The connection's wishes, and the variable \<open>cgofuse_stat_ex\<close>.\<close>

definition c_hostAsgnCconninfo :: "bool \<Rightarrow> bool \<Rightarrow> bool \<Rightarrow> fuse_conn_info \<Rightarrow> fuse_conn_info \<times> bool" where
  "c_hostAsgnCconninfo capCaseInsensitive capReaddirPlus capDeleteAccess conn =
     (let c0 = want_cap FSP_FUSE_CAP_STAT_EX conn;
          stat_ex = (cc_want c0 AND FSP_FUSE_CAP_STAT_EX \<noteq> 0);
          c1 = (if capCaseInsensitive then want_cap FSP_FUSE_CAP_CASE_INSENSITIVE c0 else c0);
          c2 = (if capReaddirPlus then want_cap FSP_FUSE_CAP_READDIR_PLUS c1 else c1);
          c3 = (if capDeleteAccess then want_cap FSP_FUSE_CAP_DELETE_ACCESS c2 else c2)
      in (c3, stat_ex))"

section \<open>The callbacks init and destroy\<close>

text \<open>
  \<open>init\<close> and \<open>destroy\<close> are the file system's own methods. A panic, also the one of a handle that
  the table does not know, is swallowed. The result is the user data, whether the channel is
  now registered for signals, and, in \<open>hostInit\<close>, what was assigned to the connection.
\<close>

record 's callback =
  cb_state :: 's
  cb_hosts :: hosts
  cb_notified :: bool

definition hostInit ::
    "('s, unit) meth \<Rightarrow> nat \<Rightarrow> nat \<Rightarrow> fuse_conn_info \<Rightarrow> 's callback \<Rightarrow> ('s callback \<times> fuse_conn_info \<times> nat) option" where
  "hostInit init private_data fuse conn0 c =
     (case hostHandleGet private_data (cb_hosts c) of
        None \<Rightarrow> Some (c, conn0, private_data)
      | Some i \<Rightarrow>
          let hs = set_host i (\<lambda>h. h\<lparr>fh_fuse := Some fuse\<rparr>) (cb_hosts c);
              h = hs_heap hs ! i;
              (conn, stat_ex) = c_hostAsgnCconninfo (fh_capCaseInsensitive h) (fh_capReaddirPlus h)
                (fh_capDeleteAccess h) conn0;
              c1 = c\<lparr>cb_hosts := hs, cb_notified := (fh_sigc h \<or> cb_notified c)\<rparr>
          in (case init (cb_state c) of
                Returns s u \<Rightarrow> Some (c1\<lparr>cb_state := s\<rparr>, conn, private_data)
              | Throws s p \<Rightarrow> Some (c1\<lparr>cb_state := s\<rparr>, conn, private_data)
              | Hangs \<Rightarrow> None))"

definition hostDestroy :: "('s, unit) meth \<Rightarrow> nat \<Rightarrow> 's callback \<Rightarrow> 's callback option" where
  "hostDestroy destroy user_data c =
     (case hostHandleGet user_data (cb_hosts c) of
        None \<Rightarrow> Some c
      | Some i \<Rightarrow>
          (case destroy (cb_state c) of
             Returns s u \<Rightarrow>
               Some (c\<lparr>cb_state := s,
                       cb_notified := (if fh_sigc (hs_heap (cb_hosts c) ! i) then False else cb_notified c),
                       cb_hosts := set_host i (\<lambda>h. h\<lparr>fh_fuse := None\<rparr>) (cb_hosts c)\<rparr>)
           | Throws s p \<Rightarrow> Some (c\<lparr>cb_state := s\<rparr>)
           | Hangs \<Rightarrow> None))"

text \<open>\<open>FileSystemBase.Init\<close> and \<open>Destroy\<close>, which this program's file system inherits.\<close>

definition base_Init :: "('s, unit) meth" where
  "base_Init s = Returns s ()"

definition base_Destroy :: "('s, unit) meth" where
  "base_Destroy s = Returns s ()"

section \<open>Unmount and Notify\<close>

definition Unmount :: "(nat \<Rightarrow> c_string \<Rightarrow> int) \<Rightarrow> FileSystemHost \<Rightarrow> bool" where
  "Unmount c_unmount h = (case fh_fuse h of
     None \<Rightarrow> False
   | Some f \<Rightarrow> c_unmount f (if fh_mntp h \<noteq> [] then c_CString (fh_mntp h) else None) \<noteq> 0)"

definition Notify :: "(nat \<Rightarrow> c_string \<Rightarrow> 32 word \<Rightarrow> int) \<Rightarrow> string \<Rightarrow> 32 word \<Rightarrow> FileSystemHost \<Rightarrow> bool" where
  "Notify c_notify path action h = (case fh_fuse h of
     None \<Rightarrow> False
   | Some f \<Rightarrow> if path = [] then False else c_notify f (c_CString path) action \<noteq> 0)"

section \<open>Mount\<close>

text \<open>The mount point that \<open>Unmount\<close> will use; \<open>None\<close> when \<open>OptParse\<close> panics.\<close>

definition outargs_of :: "OptResult \<Rightarrow> string list option" where
  "outargs_of r = (case r of Parsed outargs vals \<Rightarrow> Some outargs | OptError err \<Rightarrow> Some [] | OptPanics \<Rightarrow> None)"

definition drive_letter :: "bool \<Rightarrow> string \<Rightarrow> bool" where
  "drive_letter win m \<longleftrightarrow> win \<and> length m = 2 \<and> m ! 1 = CHR '':''"

definition mount_point ::
    "bool \<Rightarrow> (string \<Rightarrow> string option) \<Rightarrow> opt_parser \<Rightarrow> (64 word \<Rightarrow> c_string) \<Rightarrow> string \<Rightarrow> string list \<Rightarrow> string \<Rightarrow> string option" where
  "mount_point win absf parse str_at mountpoint opts old =
     map_option
       (\<lambda>m. if m \<noteq> [] \<and> \<not> drive_letter win m then (case absf m of None \<Rightarrow> m | Some a \<Rightarrow> a) else m)
       (if mountpoint \<noteq> [] then Some mountpoint
        else map_option (\<lambda>outargs. if 1 \<le> length outargs then outargs ! 0 else old)
               (outargs_of (OptParse True parse str_at opts '''' [])))"

text \<open>
  The states of a mount: the library is not running, serves the handle, or has returned to
  \<open>Mount\<close>, which then cleans up. The goroutine waits on the signal channel, which holds one
  signal at most; it unmounts on a signal and ends, or ends when the channel is closed.
\<close>

datatype phase = Idle | Serving nat | Cleanup

datatype waiter = NoWaiter | Waiting | Unmounting | Finished

record 's mstate =
  ms_cb :: "'s callback"
  ms_phase :: phase
  ms_waiter :: waiter
  ms_signal :: bool
  ms_open :: bool

record 's mount_env =
  me_win :: bool
  me_malloc :: "nat list \<Rightarrow> nat"
  me_host :: nat
  me_mntp :: string
  me_Init :: "('s, unit) meth"
  me_Destroy :: "('s, unit) meth"

text \<open>\<open>Mount\<close> up to the call of the library, with the mount point computed by \<open>mount_point\<close>.\<close>

definition mount_begin :: "'s mount_env \<Rightarrow> 's mstate \<Rightarrow> 's mstate" where
  "mount_begin M ms =
     (let set_up = (\<lambda>h. if me_win M then h\<lparr>fh_mntp := me_mntp M\<rparr> else h\<lparr>fh_mntp := me_mntp M, fh_sigc := True\<rparr>);
          (hndl, hs) = hostHandleNew (me_malloc M) (me_host M) (set_host (me_host M) set_up (cb_hosts (ms_cb ms)))
      in ms\<lparr>ms_cb := (ms_cb ms)\<lparr>cb_hosts := hs, cb_notified := False\<rparr>, ms_phase := Serving hndl,
            ms_waiter := (if me_win M then NoWaiter else Waiting), ms_signal := False, ms_open := \<not> me_win M\<rparr>)"

text \<open>The deferred calls: the handle goes, the channel is closed; then \<open>Mount\<close> waits for the goroutine.\<close>

definition mount_end :: "nat \<Rightarrow> 's mstate \<Rightarrow> 's mstate" where
  "mount_end hndl ms =
     ms\<lparr>ms_cb := (ms_cb ms)\<lparr>cb_hosts := hostHandleDel hndl (cb_hosts (ms_cb ms))\<rparr>, ms_phase := Cleanup,
        ms_open := False\<rparr>"

definition mount_finish :: "'s mount_env \<Rightarrow> 's mstate \<Rightarrow> 's mstate" where
  "mount_finish M ms =
     ms\<lparr>ms_cb := (ms_cb ms)\<lparr>cb_hosts := set_host (me_host M) (\<lambda>h. h\<lparr>fh_mntp := []\<rparr>) (cb_hosts (ms_cb ms))\<rparr>,
        ms_phase := Idle, ms_waiter := NoWaiter\<rparr>"

inductive mount_step :: "'s mount_env \<Rightarrow> 's mstate \<Rightarrow> 's mstate \<Rightarrow> bool" for M where
  start: "ms_phase ms = Idle \<Longrightarrow> mount_step M ms (mount_begin M ms)"
| inits: "ms_phase ms = Serving p \<Longrightarrow> hostInit (me_Init M) p fuse conn (ms_cb ms) = Some (c, conn', p') \<Longrightarrow>
    mount_step M ms (ms\<lparr>ms_cb := c\<rparr>)"
| destroys: "ms_phase ms = Serving p \<Longrightarrow> hostDestroy (me_Destroy M) p (ms_cb ms) = Some c \<Longrightarrow>
    mount_step M ms (ms\<lparr>ms_cb := c\<rparr>)"
| signal: "cb_notified (ms_cb ms) \<Longrightarrow> ms_open ms \<Longrightarrow> mount_step M ms (ms\<lparr>ms_signal := True\<rparr>)"
| receive: "ms_waiter ms = Waiting \<Longrightarrow> ms_signal ms \<Longrightarrow>
    mount_step M ms (ms\<lparr>ms_waiter := Unmounting, ms_signal := False\<rparr>)"
| unmount: "ms_waiter ms = Unmounting \<Longrightarrow> mount_step M ms (ms\<lparr>ms_waiter := Finished\<rparr>)"
| closed: "ms_waiter ms = Waiting \<Longrightarrow> \<not> ms_open ms \<Longrightarrow> \<not> ms_signal ms \<Longrightarrow>
    mount_step M ms (ms\<lparr>ms_waiter := Finished\<rparr>)"
| returned: "ms_phase ms = Serving p \<Longrightarrow> mount_step M ms (mount_end p ms)"
| finish: "ms_phase ms = Cleanup \<Longrightarrow> me_win M \<or> ms_waiter ms = Finished \<Longrightarrow>
    mount_step M ms (mount_finish M ms)"

inductive_cases mount_stepE: "mount_step M ms ms'"

section \<open>The invariant of a mount\<close>

text \<open>\<open>hs0\<close> are the hosts before; \<open>Serving\<close> adds one handle and nothing else to their table.\<close>

definition mount_inv :: "'s mount_env \<Rightarrow> hosts \<Rightarrow> 's mstate \<Rightarrow> bool" where
  "mount_inv M hs0 ms \<longleftrightarrow>
     (let hs = cb_hosts (ms_cb ms) in
      malloc_ok (me_malloc M) \<and> me_host M < length (hs_heap hs) \<and> dom (hs_table hs0) \<subseteq> set (hs_live hs0) \<and>
      (case ms_phase ms of
         Serving p \<Rightarrow> p \<notin> set (hs_live hs0) \<and> hs_table hs = (hs_table hs0)(p \<mapsto> me_host M) \<and> hs_live hs = p # hs_live hs0
       | _ \<Rightarrow> hs_table hs = hs_table hs0 \<and> hs_live hs = hs_live hs0) \<and>
      fh_mntp (hs_heap hs ! me_host M) = (if ms_phase ms = Idle then [] else me_mntp M) \<and>
      (ms_waiter ms = NoWaiter \<longleftrightarrow> me_win M \<or> ms_phase ms = Idle) \<and>
      (ms_open ms \<longrightarrow> (\<exists>p. ms_phase ms = Serving p)))"

lemma set_host_simps [simp]:
  "hs_table (set_host i f hs) = hs_table hs" "hs_live (set_host i f hs) = hs_live hs"
  "length (hs_heap (set_host i f hs)) = length (hs_heap hs)"
  "i < length (hs_heap hs) \<Longrightarrow> hs_heap (set_host i f hs) ! i = f (hs_heap hs ! i)"
  by (simp_all add: set_host_def)

lemma handle_simps [simp]:
  "hs_table (hostHandleDel p hs) = (hs_table hs)(p := None)" "hs_live (hostHandleDel p hs) = remove1 p (hs_live hs)"
  "hs_heap (hostHandleDel p hs) = hs_heap hs"
  by (simp_all add: hostHandleDel_def)

text \<open>What the callbacks leave alone.\<close>

definition same_mounts :: "hosts \<Rightarrow> hosts \<Rightarrow> bool" where
  "same_mounts hs hs' \<longleftrightarrow> hs_table hs' = hs_table hs \<and> hs_live hs' = hs_live hs \<and>
     length (hs_heap hs') = length (hs_heap hs) \<and>
     (\<forall>j < length (hs_heap hs). fh_mntp (hs_heap hs' ! j) = fh_mntp (hs_heap hs ! j))"

lemma same_mounts_set_host:
  "(\<And>h. fh_mntp (f h) = fh_mntp h) \<Longrightarrow> same_mounts hs (set_host i f hs)"
proof -
  assume f: "\<And>h. fh_mntp (f h) = fh_mntp h"
  have "fh_mntp ((hs_heap hs)[i := f (hs_heap hs ! i)] ! j) = fh_mntp (hs_heap hs ! j)"
    if "j < length (hs_heap hs)" for j
    using that f by (cases "j = i") auto
  then show ?thesis by (simp add: same_mounts_def set_host_def)
qed

lemma same_mounts_refl: "same_mounts hs hs"
  by (simp add: same_mounts_def)

lemma hostInit_keeps:
  assumes "hostInit init p fuse conn c = Some (c', conn', p')"
  shows "same_mounts (cb_hosts c) (cb_hosts c') \<and> p' = p"
  using assms
  by (auto simp: hostInit_def Let_def same_mounts_refl same_mounts_set_host
      split: option.splits fsres.splits prod.splits)

lemma hostDestroy_keeps:
  assumes "hostDestroy destroy p c = Some c'"
  shows "same_mounts (cb_hosts c) (cb_hosts c')"
  using assms
  by (auto simp: hostDestroy_def same_mounts_refl same_mounts_set_host split: option.splits fsres.splits)

lemma mount_inv_callback:
  assumes "mount_inv M hs0 ms" "same_mounts (cb_hosts (ms_cb ms)) (cb_hosts c)"
  shows "mount_inv M hs0 (ms\<lparr>ms_cb := c\<rparr>)"
  using assms by (simp add: mount_inv_def Let_def same_mounts_def cong: phase.case_cong)

lemma mount_inv_begin:
  assumes "mount_inv M hs0 ms" "ms_phase ms = Idle"
  shows "mount_inv M hs0 (mount_begin M ms)"
  using assms
  by (auto simp: mount_inv_def mount_begin_def hostHandleNew_def malloc_ok_def Let_def)

lemma mount_inv_end:
  assumes "mount_inv M hs0 ms" "ms_phase ms = Serving p"
  shows "mount_inv M hs0 (mount_end p ms)"
proof -
  have "hs_table hs0 p = None" if "p \<notin> set (hs_live hs0)" "dom (hs_table hs0) \<subseteq> set (hs_live hs0)"
    using that by (auto simp: dom_def)
  then show ?thesis using assms by (auto simp: mount_inv_def mount_end_def Let_def fun_upd_idem)
qed

lemma mount_inv_step: "mount_inv M hs0 ms \<Longrightarrow> mount_step M ms ms' \<Longrightarrow> mount_inv M hs0 ms'"
proof (elim mount_stepE, goal_cases)
  case 1 then show ?case by (simp add: mount_inv_begin)
next
  case 2 then show ?case using hostInit_keeps by (metis mount_inv_callback)
next
  case 3 then show ?case using hostDestroy_keeps by (metis mount_inv_callback)
next
  case 8 then show ?case by (simp add: mount_inv_end)
qed (auto simp: mount_inv_def mount_finish_def Let_def split: phase.splits)

interpretation mount_machine: machine "mount_step M" "mount_inv M hs0" for M hs0
  by unfold_locales (rule mount_inv_step)

end
