(* ===== verification/MountProps.thy ===== *)
theory MountProps
  imports FuseMount
begin

text \<open>
  Properties of mounting: what a mount does to the table of handles and to its host in every
  order of events, that \<open>Mount\<close> comes back once the library has returned, and which
  capabilities a connection ends up with.
\<close>

section \<open>The lifecycle\<close>

text \<open>A state in which no mount is running; \<open>M\<close> is the environment of the mounts to come.\<close>

definition unmounted :: "'s mount_env \<Rightarrow> 's mstate \<Rightarrow> bool" where
  "unmounted M ms \<longleftrightarrow> malloc_ok (me_malloc M) \<and> ms_phase ms = Idle \<and> ms_waiter ms = NoWaiter \<and> \<not> ms_open ms \<and>
     me_host M < length (hs_heap (cb_hosts (ms_cb ms))) \<and>
     fh_mntp (hs_heap (cb_hosts (ms_cb ms)) ! me_host M) = [] \<and>
     dom (hs_table (cb_hosts (ms_cb ms))) \<subseteq> set (hs_live (cb_hosts (ms_cb ms)))"

lemma unmounted_inv: "unmounted M ms \<Longrightarrow> mount_inv M (cb_hosts (ms_cb ms)) ms"
  by (simp add: unmounted_def mount_inv_def Let_def)

text \<open>
  C35. The lifecycle of a mount: whatever the library, signals and the waiting goroutine do in
  between, while the library serves, the handle it was given denotes the host, no other entry
  of the table has changed, and the host knows its mount point; when \<open>Mount\<close> has returned, the
  table and the allocated blocks are what they were, and the mount point is forgotten.
\<close>

theorem mount_lifecycle:
  assumes "unmounted M ms0" "reaches (mount_step M) ms0 ms"
  shows "(\<forall>p. ms_phase ms = Serving p \<longrightarrow>
      hostHandleGet p (cb_hosts (ms_cb ms)) = Some (me_host M) \<and> hostHandleGet p (cb_hosts (ms_cb ms0)) = None \<and>
      (\<forall>q. q \<noteq> p \<longrightarrow> hostHandleGet q (cb_hosts (ms_cb ms)) = hostHandleGet q (cb_hosts (ms_cb ms0))) \<and>
      fh_mntp (hs_heap (cb_hosts (ms_cb ms)) ! me_host M) = me_mntp M) \<and>
    (ms_phase ms = Idle \<longrightarrow>
      hs_table (cb_hosts (ms_cb ms)) = hs_table (cb_hosts (ms_cb ms0)) \<and>
      hs_live (cb_hosts (ms_cb ms)) = hs_live (cb_hosts (ms_cb ms0)) \<and>
      fh_mntp (hs_heap (cb_hosts (ms_cb ms)) ! me_host M) = [])"
proof -
  have "mount_inv M (cb_hosts (ms_cb ms0)) ms"
    by (rule mount_machine.reaches_inv [OF assms(2) unmounted_inv [OF assms(1)]])
  then show ?thesis by (auto simp: mount_inv_def hostHandleGet_def Let_def)
qed

text \<open>An environment for the witnesses: one host, the methods of \<open>FileSystemBase\<close>.\<close>

definition sample_mount :: "bool \<Rightarrow> unit mount_env" where
  "sample_mount win = \<lparr>me_win = win, me_malloc = (\<lambda>ps. Suc (sum_list ps)), me_host = 0, me_mntp = ''/m'',
     me_Init = base_Init, me_Destroy = base_Destroy\<rparr>"

definition sample_start :: "unit mstate" where
  "sample_start = \<lparr>ms_cb = \<lparr>cb_state = (), cb_hosts = \<lparr>hs_heap = [NewFileSystemHost], hs_table = Map.empty,
     hs_live = []\<rparr>, cb_notified = False\<rparr>, ms_phase = Idle, ms_waiter = NoWaiter, ms_signal = False, ms_open = False\<rparr>"

lemma sample_unmounted: "unmounted (sample_mount win) sample_start"
proof -
  have "malloc_ok (me_malloc (sample_mount win))"
    using member_le_sum_list by (fastforce simp: malloc_ok_def sample_mount_def)
  then show ?thesis by (simp add: unmounted_def sample_mount_def sample_start_def NewFileSystemHost_def)
qed

lemma sample_serving:
  "reaches (mount_step (sample_mount win)) sample_start (mount_begin (sample_mount win) sample_start)"
  "ms_phase (mount_begin (sample_mount win) sample_start) = Serving 1"
proof -
  have "mount_step (sample_mount win) sample_start (mount_begin (sample_mount win) sample_start)"
    by (rule mount_step.start) (simp add: sample_start_def)
  then show "reaches (mount_step (sample_mount win)) sample_start (mount_begin (sample_mount win) sample_start)"
    by (rule there [OF here])
qed (simp add: sample_start_def mount_begin_def hostHandleNew_def sample_mount_def)

theorem mount_lifecycle_witness:
  "hostHandleGet 1 (cb_hosts (ms_cb (mount_begin (sample_mount False) sample_start))) = Some 0"
  using mount_lifecycle [OF sample_unmounted sample_serving(1) [of False]] sample_serving(2) [of False]
  by (simp add: sample_mount_def)

section \<open>The end of a mount\<close>

text \<open>How many events are left before \<open>Mount\<close> returns.\<close>

definition left_to_do :: "'s mstate \<Rightarrow> nat" where
  "left_to_do ms = (if ms_phase ms = Idle then 0 else
     (case ms_waiter ms of Waiting \<Rightarrow> 3 | Unmounting \<Rightarrow> 2 | _ \<Rightarrow> 1))"

lemma cleanup_step:
  assumes "ms_phase ms = Cleanup" "\<not> ms_open ms" "mount_step M ms ms'"
  shows "left_to_do ms' < left_to_do ms \<and> (ms_phase ms' = Idle \<or> ms_phase ms' = Cleanup)"
  using assms(3)
proof cases
  case finish
  then show ?thesis using assms by (cases "ms_waiter ms") (auto simp: left_to_do_def mount_finish_def)
qed (use assms in \<open>auto simp: left_to_do_def\<close>)

lemma cleanup_progress:
  assumes "ms_phase ms = Cleanup" "ms_waiter ms = NoWaiter \<longleftrightarrow> me_win M" "\<not> ms_open ms"
  shows "\<exists>ms'. mount_step M ms ms'"
proof (cases "ms_waiter ms")
  case Waiting
  then show ?thesis using assms mount_step.receive mount_step.closed by blast
qed (use assms in \<open>auto intro: mount_step.finish mount_step.unmount\<close>)

text \<open>
  \<open>Mount\<close> returns: once the library has returned, in every reachable state some event is
  possible, and every possible event brings the end nearer, which is at most three events
  away; no signal and no callback can put it off.
\<close>

theorem mount_returns:
  assumes "unmounted M ms0" "reaches (mount_step M) ms0 ms" "ms_phase ms = Cleanup"
  shows "(\<exists>ms'. mount_step M ms ms') \<and> left_to_do ms \<le> 3 \<and>
    (\<forall>ms'. mount_step M ms ms' \<longrightarrow>
       left_to_do ms' < left_to_do ms \<and> (ms_phase ms' = Cleanup \<or> ms_phase ms' = Idle \<and> left_to_do ms' = 0))"
proof -
  have "mount_inv M (cb_hosts (ms_cb ms0)) ms"
    by (rule mount_machine.reaches_inv [OF assms(2) unmounted_inv [OF assms(1)]])
  then have inv: "\<not> ms_open ms" "ms_waiter ms = NoWaiter \<longleftrightarrow> me_win M"
    using assms(3) by (auto simp: mount_inv_def Let_def)
  have "\<exists>ms'. mount_step M ms ms'" by (rule cleanup_progress [OF assms(3) inv(2,1)])
  moreover have "left_to_do ms \<le> 3" by (simp add: left_to_do_def split: waiter.split)
  moreover have "left_to_do ms' < left_to_do ms \<and> (ms_phase ms' = Cleanup \<or> ms_phase ms' = Idle \<and> left_to_do ms' = 0)"
    if "mount_step M ms ms'" for ms'
    using cleanup_step [OF assms(3) inv(1) that] by (auto simp: left_to_do_def)
  ultimately show ?thesis by blast
qed

theorem mount_returns_witness:
  "\<exists>ms'. mount_step (sample_mount False) (mount_end 1 (mount_begin (sample_mount False) sample_start)) ms'"
proof -
  have "reaches (mount_step (sample_mount False)) sample_start
      (mount_end 1 (mount_begin (sample_mount False) sample_start))"
    by (rule there [OF sample_serving(1)]) (rule mount_step.returned [OF sample_serving(2)])
  moreover have "ms_phase (mount_end 1 (mount_begin (sample_mount False) sample_start)) = Cleanup"
    by (simp add: mount_end_def)
  ultimately show ?thesis using mount_returns [OF sample_unmounted] by blast
qed

section \<open>Capabilities\<close>

lemma bit_shifted_one: "m < 32 \<Longrightarrow> bit (push_bit m (1 :: 32 word)) n \<longleftrightarrow> n = m"
  by (auto simp: bit_exp_iff)

lemma bit_caps:
  "bit FSP_FUSE_CAP_CASE_INSENSITIVE n \<longleftrightarrow> n = 29" "bit FSP_FUSE_CAP_READDIR_PLUS n \<longleftrightarrow> n = 21"
  "bit FSP_FUSE_CAP_STAT_EX n \<longleftrightarrow> n = 23" "bit FSP_FUSE_CAP_DELETE_ACCESS n \<longleftrightarrow> n = 24"
  unfolding FSP_FUSE_CAP_CASE_INSENSITIVE_def FSP_FUSE_CAP_READDIR_PLUS_def FSP_FUSE_CAP_STAT_EX_def
    FSP_FUSE_CAP_DELETE_ACCESS_def
  by (rule bit_shifted_one; simp)+

lemma and_bit_nonzero:
  fixes w :: "'a::len word"
  assumes "\<And>n. bit c n \<longleftrightarrow> n = k"
  shows "w AND c \<noteq> 0 \<longleftrightarrow> bit w k"
proof -
  have "w AND c = 0 \<longleftrightarrow> (\<forall>n. \<not> bit (w AND c) n)" by (auto simp: bit_eq_iff [where 'a = "'a word"] dest: bit_imp_le_length)
  then show ?thesis using assms by (auto simp: bit_and_iff)
qed

text \<open>
  The capabilities of a connection: it ends up wanting what it wanted before, and of what it
  is capable of, the extended attributes always and the three others when the host has them;
  attributes are extended exactly when that was granted or wanted already.
\<close>

theorem negotiated_capabilities:
  "(bit (cc_want (fst (c_hostAsgnCconninfo ci rp da conn))) n \<longleftrightarrow>
     bit (cc_want conn) n \<or>
     bit (cc_capable conn) n \<and> (n = 23 \<or> n = 29 \<and> ci \<or> n = 21 \<and> rp \<or> n = 24 \<and> da)) \<and>
   (snd (c_hostAsgnCconninfo ci rp da conn) \<longleftrightarrow> bit (cc_want conn) 23 \<or> bit (cc_capable conn) 23)"
  by (auto simp: c_hostAsgnCconninfo_def want_cap_def Let_def bit_caps bit_or_iff bit_and_iff
      and_bit_nonzero [OF bit_caps(3)])

end
