(* ===== verification/FuseCgo.thy ===== *)
theory FuseCgo
  imports FuseMount
begin

text \<open>
  The C code in \<open>fuse/host_cgo.go\<close>: how the FUSE library is found and loaded, by any number of
  threads at once (\<open>cgofuse_init_fast\<close>, \<open>cgofuse_init_slow\<close>), how a file system is unmounted on
  each platform (\<open>hostUnmount\<close>), and what an open file tells the kernel (\<open>hostAsgnCfileinfo\<close>).

  The operating system is a parameter: whether a library opens and has a symbol, and the
  answers to system calls (\<open>os\<close>). Reads and writes of \<open>cgofuse_module\<close> are atomic, as the
  barriers and the alignment of a pointer make them.
\<close>

datatype platform = Darwin | FreeBSD | NetBSD | OpenBSD | Linux | Windows

section \<open>Finding the library\<close>

text \<open>The names tried with \<open>dlopen\<close>, in order.\<close>

definition fuse_libs :: "platform \<Rightarrow> string list" where
  "fuse_libs pl = (case pl of
     Darwin \<Rightarrow> [''/usr/local/lib/libfuse.2.dylib'', ''/usr/local/lib/libosxfuse.2.dylib'',
                ''/usr/local/lib/libfuse-t.dylib'']
   | FreeBSD \<Rightarrow> [''libfuse.so.2'']
   | NetBSD \<Rightarrow> [''librefuse.so.2'']
   | OpenBSD \<Rightarrow> [''libfuse.so.2.0'']
   | Linux \<Rightarrow> [''libfuse.so.2'']
   | Windows \<Rightarrow> [])"

definition fuse_api :: "platform \<Rightarrow> string list" where
  "fuse_api pl = (case pl of
     OpenBSD \<Rightarrow> [''fuse_main'', ''fuse_get_context'', ''fuse_opt_parse'', ''fuse_opt_free_args'']
   | Windows \<Rightarrow> [''fsp_fuse_main_real'', ''fsp_fuse_exit'', ''fsp_fuse_get_context'', ''fsp_fuse_opt_parse'',
                 ''fsp_fuse_opt_free_args'']
   | _ \<Rightarrow> [''fuse_main_real'', ''fuse_get_context'', ''fuse_opt_parse'', ''fuse_opt_free_args''])"

fun first_lib :: "(string \<Rightarrow> nat option) \<Rightarrow> string list \<Rightarrow> nat option" where
  "first_lib dlopen [] = None"
| "first_lib dlopen (name # names) = (case dlopen name of Some h \<Rightarrow> Some h | None \<Rightarrow> first_lib dlopen names)"

text \<open>\<open>fspload\<close> is the module that \<open>FspLoad\<close> finds on Windows.\<close>

definition cgofuse_init_fuse ::
    "platform \<Rightarrow> (string \<Rightarrow> nat option) \<Rightarrow> nat option \<Rightarrow> (nat \<Rightarrow> string \<Rightarrow> bool) \<Rightarrow> nat option" where
  "cgofuse_init_fuse pl dlopen fspload dlsym =
     (case (if pl = Windows then fspload else first_lib dlopen (fuse_libs pl)) of
        None \<Rightarrow> None
      | Some h \<Rightarrow> if list_all (dlsym h) (fuse_api pl) then Some h else None)"

section \<open>Loading it once\<close>

text \<open>
  A thread in \<open>cgofuse_init_fast\<close>: it has read \<open>cgofuse_module\<close> without the lock, waits for the
  lock, looks again, loads, stores and unlocks.
\<close>

datatype pc = Enter | WantLock | Look | Load | Store "nat option" | Unlock "nat option" | Leave "nat option"

record loader =
  ld_module :: "nat option"
  ld_owner :: "nat option"
  ld_pc :: "nat \<Rightarrow> pc"
  ld_loads :: nat

definition move_to :: "nat \<Rightarrow> pc \<Rightarrow> loader \<Rightarrow> loader" where
  "move_to t p l = l\<lparr>ld_pc := (ld_pc l)(t := p)\<rparr>"

definition cgofuse_start :: loader where
  "cgofuse_start = \<lparr>ld_module = None, ld_owner = None, ld_pc = (\<lambda>t. Enter), ld_loads = 0\<rparr>"

text \<open>
  One step of thread \<open>t\<close>, when it can make one; \<open>found\<close> is what \<open>cgofuse_init_fuse\<close> returns if
  it is called. A thread that has left may call again.
\<close>

definition cgofuse_init :: "nat option \<Rightarrow> nat \<Rightarrow> loader \<Rightarrow> loader option" where
  "cgofuse_init found t l = (case ld_pc l t of
     Enter \<Rightarrow> Some (move_to t (case ld_module l of None \<Rightarrow> WantLock | Some m \<Rightarrow> Leave (Some m)) l)
   | WantLock \<Rightarrow> (if ld_owner l = None then Some (move_to t Look (l\<lparr>ld_owner := Some t\<rparr>)) else None)
   | Look \<Rightarrow> Some (move_to t (case ld_module l of None \<Rightarrow> Load | Some m \<Rightarrow> Unlock (Some m)) l)
   | Load \<Rightarrow> Some (move_to t (Store found) (l\<lparr>ld_loads := ld_loads l + (if found = None then 0 else 1)\<rparr>))
   | Store m \<Rightarrow> Some (move_to t (Unlock m) (l\<lparr>ld_module := m\<rparr>))
   | Unlock m \<Rightarrow> Some (move_to t (Leave m) (l\<lparr>ld_owner := None\<rparr>))
   | Leave m \<Rightarrow> Some (move_to t Enter l))"

inductive load_step :: "loader \<Rightarrow> loader \<Rightarrow> bool" where
  step: "cgofuse_init found t l = Some l' \<Longrightarrow> load_step l l'"

text \<open>The result of a call: with \<open>hardfail\<close> the process exits when there is no library.\<close>

datatype init_result = Module nat | NotFound | Exits

definition init_result :: "bool \<Rightarrow> nat option \<Rightarrow> init_result" where
  "init_result hardfail m = (case m of Some h \<Rightarrow> Module h | None \<Rightarrow> if hardfail then Exits else NotFound)"

definition hostFuseInit :: "nat option \<Rightarrow> int" where
  "hostFuseInit m = (case init_result False m of Module h \<Rightarrow> 1 | _ \<Rightarrow> 0)"

definition in_crit :: "pc \<Rightarrow> bool" where
  "in_crit p = (case p of Look \<Rightarrow> True | Load \<Rightarrow> True | Store m \<Rightarrow> True | Unlock m \<Rightarrow> True | _ \<Rightarrow> False)"

text \<open>
  The owner of the lock, and nobody else, is between lock and unlock; while it loads or stores
  nothing is loaded; what a thread takes along is the module. The library has been loaded once
  if there is a module, or the owner is about to store one, and never otherwise.
\<close>

definition thread_ok :: "loader \<Rightarrow> nat \<Rightarrow> bool" where
  "thread_ok l t \<longleftrightarrow> (in_crit (ld_pc l t) \<longleftrightarrow> ld_owner l = Some t) \<and>
     (case ld_pc l t of
        Load \<Rightarrow> ld_module l = None
      | Store m \<Rightarrow> ld_module l = None
      | Unlock m \<Rightarrow> ld_module l = m
      | Leave m \<Rightarrow> m \<noteq> None \<longrightarrow> ld_module l = m
      | _ \<Rightarrow> True)"

definition storing :: "pc \<Rightarrow> bool" where
  "storing p = (case p of Store (Some m) \<Rightarrow> True | _ \<Rightarrow> False)"

definition loads_ok :: "loader \<Rightarrow> bool" where
  "loads_ok l \<longleftrightarrow> ld_loads l =
     (if ld_module l \<noteq> None \<or> (\<exists>t. ld_owner l = Some t \<and> storing (ld_pc l t)) then 1 else 0)"

definition load_inv :: "loader \<Rightarrow> bool" where
  "load_inv l \<longleftrightarrow> (\<forall>t. thread_ok l t) \<and> loads_ok l"

lemma in_crit_simps [simp]:
  "\<not> in_crit Enter" "\<not> in_crit WantLock" "in_crit Look" "in_crit Load" "in_crit (Store m)" "in_crit (Unlock m)"
  "\<not> in_crit (Leave m)"
  by (simp_all add: in_crit_def)

lemma storing_simps [simp]:
  "\<not> storing Enter" "\<not> storing WantLock" "\<not> storing Look" "\<not> storing Load" "\<not> storing (Unlock m)"
  "\<not> storing (Leave m)" "storing (Store m) \<longleftrightarrow> m \<noteq> None"
  by (auto simp: storing_def split: option.split)

lemma load_inv_start: "load_inv cgofuse_start"
  by (simp add: load_inv_def thread_ok_def loads_ok_def cgofuse_start_def)

lemma thread_ok_step:
  assumes "thread_ok l t" "thread_ok l u" "cgofuse_init found t l = Some l'"
  shows "thread_ok l' u"
proof (cases "u = t")
  case True
  with assms show ?thesis
    by (cases "ld_pc l t") (auto simp: thread_ok_def cgofuse_init_def move_to_def split: option.splits if_splits)
next
  case False
  with assms show ?thesis
    by (cases "ld_pc l t"; cases "ld_pc l u")
      (auto simp: thread_ok_def cgofuse_init_def move_to_def split: option.splits if_splits)
qed

lemma loads_ok_step:
  assumes "thread_ok l t" "loads_ok l" "cgofuse_init found t l = Some l'"
  shows "loads_ok l'"
proof (cases "ld_pc l t")
  case Enter
  then have "ld_owner l \<noteq> Some t" using assms(1) by (simp add: thread_ok_def)
  then show ?thesis using assms Enter
    by (cases "ld_owner l"; cases "ld_module l") (auto simp: loads_ok_def cgofuse_init_def move_to_def)
next
  case WantLock
  then show ?thesis using assms
    by (cases "ld_owner l") (auto simp: loads_ok_def cgofuse_init_def move_to_def)
next
  case (Leave m)
  then have "ld_owner l \<noteq> Some t" using assms(1) by (simp add: thread_ok_def)
  then show ?thesis using assms Leave
    by (cases "ld_owner l") (auto simp: loads_ok_def cgofuse_init_def move_to_def)
next
  case Look
  then show ?thesis using assms
    by (cases "ld_module l") (auto simp: thread_ok_def loads_ok_def cgofuse_init_def move_to_def)
next
  case Load
  then show ?thesis using assms
    by (cases found) (auto simp: thread_ok_def loads_ok_def cgofuse_init_def move_to_def)
next
  case (Store m)
  then show ?thesis using assms
    by (cases m) (auto simp: thread_ok_def loads_ok_def cgofuse_init_def move_to_def)
next
  case (Unlock m)
  then show ?thesis using assms
    by (cases m) (auto simp: thread_ok_def loads_ok_def cgofuse_init_def move_to_def)
qed

lemma load_inv_step: "load_inv l \<Longrightarrow> load_step l l' \<Longrightarrow> load_inv l'"
  by (auto simp: load_inv_def elim!: load_step.cases intro: thread_ok_step loads_ok_step)

interpretation load_machine: machine load_step load_inv
  by unfold_locales (rule load_inv_step)

lemma module_stays_step:
  assumes "load_inv l" "load_step l l'" "ld_module l = Some m"
  shows "ld_module l' = Some m"
proof -
  obtain found t where step: "cgofuse_init found t l = Some l'" using assms(2) by cases
  have "thread_ok l t" using assms(1) by (simp add: load_inv_def)
  then show ?thesis using step assms(3)
    by (cases "ld_pc l t") (auto simp: thread_ok_def cgofuse_init_def move_to_def split: if_splits)
qed

lemma module_stays:
  assumes "reaches load_step l l'" "load_inv l" "ld_module l = Some m"
  shows "ld_module l' = Some m"
  using assms
proof (induction rule: reaches.induct)
  case (there l l' l'')
  then show ?case using load_machine.reaches_inv module_stays_step by metis
qed

section \<open>Unmounting\<close>

text \<open>The requests made to the system, in order, and its answers.\<close>

datatype os_request = ReqUnmount string | ReqUmount2 string | ReqSpawn "string list" | ReqFuseExit nat

record os =
  os_unmount :: "string \<Rightarrow> bool"
  os_umount2 :: "string \<Rightarrow> bool"
  os_executable :: "string \<Rightarrow> bool"
  os_spawn :: "string list \<Rightarrow> int option"

definition fusermount_paths :: "string list" where
  "fusermount_paths = [''/bin/fusermount'', ''/usr/bin/fusermount'']"

definition fusermount_path :: "os \<Rightarrow> string" where
  "fusermount_path os = (case List.find (os_executable os) fusermount_paths of
     Some path \<Rightarrow> path | None \<Rightarrow> fusermount_paths ! 0)"

text \<open>
  \<open>os_spawn\<close> is the exit status of a process that could be started, waited for, and ended by
  itself.
\<close>

definition hostUnmount :: "platform \<Rightarrow> os \<Rightarrow> nat \<Rightarrow> c_string \<Rightarrow> int \<times> os_request list" where
  "hostUnmount pl os fuse mountpoint =
     (if pl = Windows then (1, [ReqFuseExit fuse])
      else if mountpoint = None then (0, [])
      else
        let m = c_GoString mountpoint in
        if pl = Linux then
          (if os_umount2 os m then (1, [ReqUmount2 m])
           else
             let argv = [fusermount_path os, ''-z'', ''-u'', m]
             in (if os_spawn os argv = Some 0 then 1 else 0, [ReqUmount2 m, ReqSpawn argv]))
        else (if os_unmount os m then 1 else 0, [ReqUnmount m]))"

section \<open>Open files\<close>

text \<open>The fields of C's \<open>struct fuse_file_info\<close> that \<open>hostAsgnCfileinfo\<close> assigns.\<close>

record c_file_info =
  g_direct_io :: bool
  g_keep_cache :: bool
  g_nonseekable :: bool
  g_fh :: "64 word"

definition hostAsgnCfileinfo :: "platform \<Rightarrow> c_file_info \<Rightarrow> bool \<Rightarrow> bool \<Rightarrow> bool \<Rightarrow> 64 word \<Rightarrow> c_file_info" where
  "hostAsgnCfileinfo pl fi direct_io keep_cache nonseekable fh =
     (let f1 = fi\<lparr>g_direct_io := direct_io, g_keep_cache := keep_cache\<rparr>;
          f2 = (if pl = NetBSD then f1 else f1\<lparr>g_nonseekable := nonseekable\<rparr>)
      in f2\<lparr>g_fh := fh\<rparr>)"

section \<open>Capabilities and options\<close>

text \<open>On Windows as in \<open>c_hostAsgnCconninfo\<close>; macOS has one capability, \<open>enable\<close>; the rest have none.\<close>

definition hostAsgnCconninfo ::
    "platform \<Rightarrow> (fuse_conn_info \<Rightarrow> fuse_conn_info) \<Rightarrow> bool \<Rightarrow> bool \<Rightarrow> bool \<Rightarrow> fuse_conn_info \<Rightarrow> fuse_conn_info" where
  "hostAsgnCconninfo pl enable ci rp da conn = (case pl of
     Darwin \<Rightarrow> if ci then enable conn else conn
   | Windows \<Rightarrow> fst (c_hostAsgnCconninfo ci rp da conn)
   | _ \<Rightarrow> conn)"

text \<open>\<open>FUSE_OPT_KEY_NONOPT\<close>: only arguments that are no options are kept.\<close>

definition hostOptParseOptProc :: "int \<Rightarrow> int" where
  "hostOptParseOptProc key = (if key = - 2 then 1 else 0)"

end
