(* ===== verification/CgoProps.thy ===== *)
theory CgoProps
  imports FuseCgo
begin

text \<open>Properties of the C code of the FUSE layer: loading the library, and unmounting.\<close>

text \<open>
  The library is loaded once: in every interleaving of any number of threads, at most one is
  between lock and unlock, at most one load has succeeded, and every thread that leaves with a
  module leaves with the same one, which no later step replaces.
\<close>

theorem library_loaded_once:
  assumes "reaches load_step cgofuse_start l"
  shows "ld_loads l \<le> 1 \<and>
    (\<forall>t u. in_crit (ld_pc l t) \<and> in_crit (ld_pc l u) \<longrightarrow> t = u) \<and>
    (\<forall>t m. ld_pc l t = Leave (Some m) \<longrightarrow> ld_module l = Some m) \<and>
    (\<forall>l' m. reaches load_step l l' \<and> ld_module l = Some m \<longrightarrow> ld_module l' = Some m)"
proof -
  have inv: "load_inv l" by (rule load_machine.reaches_inv [OF assms load_inv_start])
  then have thread: "thread_ok l t" for t by (simp add: load_inv_def)
  have "ld_loads l \<le> 1" using inv by (simp add: load_inv_def loads_ok_def)
  moreover have "t = u" if "in_crit (ld_pc l t)" "in_crit (ld_pc l u)" for t u
    using thread [of t] thread [of u] that by (simp add: thread_ok_def)
  moreover have "ld_module l = Some m" if "ld_pc l t = Leave (Some m)" for t m
    using thread [of t] that by (simp add: thread_ok_def)
  ultimately show ?thesis using module_stays inv by blast
qed

theorem library_loaded_once_witness:
  "ld_loads (move_to 0 (Store (Some 7)) (move_to 0 Load (move_to 0 Look (move_to 0 WantLock cgofuse_start
     \<lparr>ld_owner := Some 0\<rparr>))\<lparr>ld_loads := 1\<rparr>)) \<le> 1"
proof -
  define l1 where "l1 = move_to 0 WantLock cgofuse_start"
  define l2 where "l2 = move_to 0 Look (l1\<lparr>ld_owner := Some 0\<rparr>)"
  define l3 where "l3 = move_to 0 Load l2"
  define l4 where "l4 = move_to 0 (Store (Some 7)) (l3\<lparr>ld_loads := 1\<rparr>)"
  note defs = l1_def l2_def l3_def l4_def cgofuse_init_def move_to_def cgofuse_start_def
  have s1: "load_step cgofuse_start l1" by (rule load_step.step [of None 0]) (simp add: defs)
  have s2: "load_step l1 l2" by (rule load_step.step [of None 0]) (simp add: defs)
  have s3: "load_step l2 l3" by (rule load_step.step [of None 0]) (simp add: defs)
  have s4: "load_step l3 l4" by (rule load_step.step [of "Some 7" 0]) (simp add: defs)
  note chain = there [where step = load_step]
  have "ld_loads l4 \<le> 1"
    using library_loaded_once [OF chain [OF chain [OF chain [OF chain [OF here s1] s2] s3] s4]] by blast
  then show ?thesis by (simp add: defs)
qed

text \<open>
  Unmounting: \<open>Unmount\<close> reports success only between \<open>Init\<close> and \<open>Destroy\<close>; on Linux it then
  asks the kernel to detach the mount point, only if that fails runs \<open>fusermount\<close> with it, and
  succeeds exactly when one of the two does; without a mount point nothing is asked, except on
  Windows, where the library needs none.
\<close>

theorem unmount_requests:
  "\<not> Unmount (\<lambda>f m. fst (hostUnmount pl os f m)) (h\<lparr>fh_fuse := None\<rparr>) \<and>
   (m \<noteq> [] \<and> zero_byte \<notin> set m \<longrightarrow>
     Unmount (\<lambda>f m. fst (hostUnmount Linux os f m)) (h\<lparr>fh_fuse := Some f, fh_mntp := m\<rparr>) =
       (os_umount2 os m \<or> os_spawn os [fusermount_path os, ''-z'', ''-u'', m] = Some 0) \<and>
     snd (hostUnmount Linux os f (c_CString m)) =
       ReqUmount2 m # (if os_umount2 os m then [] else [ReqSpawn [fusermount_path os, ''-z'', ''-u'', m]])) \<and>
   (Unmount (\<lambda>f m. fst (hostUnmount pl os f m)) (h\<lparr>fh_fuse := Some f, fh_mntp := []\<rparr>) \<longleftrightarrow> pl = Windows) \<and>
   snd (hostUnmount pl os f None) = (if pl = Windows then [ReqFuseExit f] else [])"
proof -
  have "c_GoString (Some (m @ [zero_byte])) = m" if "zero_byte \<notin> set m"
    using that by (auto simp: c_GoString_def takeWhile_append)
  then show ?thesis by (simp add: Unmount_def hostUnmount_def c_CString_def Let_def)
qed

text \<open>A system that refuses \<open>umount2\<close> and has \<open>fusermount\<close> in the second place.\<close>

definition sample_os :: os where
  "sample_os = \<lparr>os_unmount = (\<lambda>m. False), os_umount2 = (\<lambda>m. False),
     os_executable = (\<lambda>p. p = ''/usr/bin/fusermount''), os_spawn = (\<lambda>argv. Some 0)\<rparr>"

theorem unmount_requests_witness:
  "snd (hostUnmount Linux sample_os 3 (c_CString ''/m'')) =
     [ReqUmount2 ''/m'', ReqSpawn [''/usr/bin/fusermount'', ''-z'', ''-u'', ''/m'']]"
proof -
  have "\<not> os_umount2 sample_os ''/m''" "fusermount_path sample_os = ''/usr/bin/fusermount''"
    by (simp_all add: sample_os_def fusermount_path_def fusermount_paths_def)
  then show ?thesis
    using unmount_requests [of Linux sample_os NewFileSystemHost "''/m''" 3] by (simp add: zero_byte_def)
qed

end
