(* ===== verification/FuseCallbacks.thy ===== *)
theory FuseCallbacks
  imports FuseHost
begin

text \<open>
  The callbacks of \<open>fuse/host_nocgo_windows.go\<close>: what WinFsp calls, with machine words as
  arguments and results (\<open>uintptr\<close>). On a 64-bit platform each argument is one word, narrowed
  to the C type that the handler takes; on a 32-bit platform an offset or a size of a file
  takes two.

  A buffer is given by the bytes at its address; the handlers see as many as its size says.
\<close>

type_synonym uintptr64 = "64 word"
type_synonym uintptr32 = "32 word"

datatype ('s, 'o, 'w) cret = CRet 's 'o 'w | CHangs

text \<open>\<open>uintptr(int(r))\<close>, on the two platforms.\<close>

definition wret64 :: "('s, 'o) hres \<Rightarrow> ('s, 'o, uintptr64) cret" where
  "wret64 r = (case r of Host s out errc \<Rightarrow> CRet s out (ret64 errc) | HostHangs \<Rightarrow> CHangs)"

definition wret32 :: "('s, 'o) hres \<Rightarrow> ('s, 'o, uintptr32) cret" where
  "wret32 r = (case r of Host s out errc \<Rightarrow> CRet s out (word_of_int errc) | HostHangs \<Rightarrow> CHangs)"

section \<open>64-bit callbacks\<close>

definition go_hostGetattr64 where
  "go_hostGetattr64 ops ex path0 stat0 (s :: 's) =
     wret64 (hostGetattr (ops :: 's fsop) ex path0 stat0 s)"

definition go_hostReadlink64 where
  "go_hostReadlink64 ops path0 buff0 (size0 :: uintptr64) (s :: 's) =
     wret64 (hostReadlink (ops :: 's fsop) path0 buff0 (unat size0) s)"

definition go_hostMknod64 where
  "go_hostMknod64 ops path0 (mode0 :: uintptr64) (dev0 :: uintptr64) (s :: 's) =
     wret64 (hostMknod (ops :: 's fsop) path0 (ucast mode0) (ucast dev0) s)"

definition go_hostMkdir64 where
  "go_hostMkdir64 ops path0 (mode0 :: uintptr64) (s :: 's) =
     wret64 (hostMkdir (ops :: 's fsop) path0 (ucast mode0) s)"

definition go_hostUnlink64 where
  "go_hostUnlink64 ops path0 (s :: 's) =
     wret64 (hostUnlink (ops :: 's fsop) path0 s)"

definition go_hostRmdir64 where
  "go_hostRmdir64 ops path0 (s :: 's) =
     wret64 (hostRmdir (ops :: 's fsop) path0 s)"

definition go_hostSymlink64 where
  "go_hostSymlink64 ops target0 newpath0 (s :: 's) =
     wret64 (hostSymlink (ops :: 's fsop) target0 newpath0 s)"

definition go_hostRename64 where
  "go_hostRename64 ops oldpath0 newpath0 (s :: 's) =
     wret64 (hostRename (ops :: 's fsop) oldpath0 newpath0 s)"

definition go_hostLink64 where
  "go_hostLink64 ops oldpath0 newpath0 (s :: 's) =
     wret64 (hostLink (ops :: 's fsop) oldpath0 newpath0 s)"

definition go_hostChmod64 where
  "go_hostChmod64 ops path0 (mode0 :: uintptr64) (s :: 's) =
     wret64 (hostChmod (ops :: 's fsop) path0 (ucast mode0) s)"

definition go_hostChown64 where
  "go_hostChown64 ops path0 (uid0 :: uintptr64) (gid0 :: uintptr64) (s :: 's) =
     wret64 (hostChown (ops :: 's fsop) path0 (ucast uid0) (ucast gid0) s)"

definition go_hostTruncate64 where
  "go_hostTruncate64 ops path0 (size0 :: uintptr64) (s :: 's) =
     wret64 (hostTruncate (ops :: 's fsop) path0 (sint size0) s)"

definition go_hostOpen64 where
  "go_hostOpen64 ops path0 fi0 (s :: 's) =
     wret64 (hostOpen (ops :: 's fsop) path0 fi0 s)"

definition go_hostRead64 where
  "go_hostRead64 ops path0 buff0 (size0 :: uintptr64) (ofst0 :: uintptr64) fi0 (s :: 's) =
     wret64 (hostRead (ops :: 's fsop) path0 (take (unat size0) buff0) (sint ofst0) fi0 s)"

definition go_hostWrite64 where
  "go_hostWrite64 ops path0 buff0 (size0 :: uintptr64) ofst0 fi0 (s :: 's) =
     wret64 (hostWrite (ops :: 's fsop) path0 (take (unat size0) buff0) ofst0 fi0 s)"

definition go_hostStatfs64 where
  "go_hostStatfs64 ops path0 stat0 (s :: 's) =
     wret64 (hostStatfs (ops :: 's fsop) path0 stat0 s)"

definition go_hostFlush64 where
  "go_hostFlush64 ops path0 fi0 (s :: 's) =
     wret64 (hostFlush (ops :: 's fsop) path0 fi0 s)"

definition go_hostRelease64 where
  "go_hostRelease64 ops path0 fi0 (s :: 's) =
     wret64 (hostRelease (ops :: 's fsop) path0 fi0 s)"

definition go_hostFsync64 where
  "go_hostFsync64 ops path0 datasync fi0 (s :: 's) =
     wret64 (hostFsync (ops :: 's fsop) path0 datasync fi0 s)"

definition go_hostSetxattr64 where
  "go_hostSetxattr64 ops path0 name0 buff0 (size0 :: uintptr64) (flags :: uintptr64) (s :: 's) =
     wret64 (hostSetxattr (ops :: 's fsop) path0 name0 (take (unat size0) buff0) (sint (ucast flags :: 32 word)) s)"

definition go_hostGetxattr64 where
  "go_hostGetxattr64 ops path0 name0 buff0 (size0 :: uintptr64) (s :: 's) =
     wret64 (hostGetxattr (ops :: 's fsop) path0 name0 buff0 (unat size0) s)"

definition go_hostListxattr64 where
  "go_hostListxattr64 ops path0 buff0 (size0 :: uintptr64) (s :: 's) =
     wret64 (hostListxattr (ops :: 's fsop) path0 buff0 (unat size0) s)"

definition go_hostRemovexattr64 where
  "go_hostRemovexattr64 ops path0 name0 (s :: 's) =
     wret64 (hostRemovexattr (ops :: 's fsop) path0 name0 s)"

definition go_hostOpendir64 where
  "go_hostOpendir64 ops path0 fi0 (s :: 's) =
     wret64 (hostOpendir (ops :: 's fsop) path0 fi0 s)"

definition go_hostReaddir64 where
  "go_hostReaddir64 ops ex path0 (ofst0 :: uintptr64) fi0 (s :: 's) =
     wret64 (hostReaddir (ops :: 's fsop) ex path0 (sint ofst0) fi0 s)"

definition go_hostReleasedir64 where
  "go_hostReleasedir64 ops path0 fi0 (s :: 's) =
     wret64 (hostReleasedir (ops :: 's fsop) path0 fi0 s)"

definition go_hostFsyncdir64 where
  "go_hostFsyncdir64 ops path0 (datasync :: uintptr64) fi0 (s :: 's) =
     wret64 (hostFsyncdir (ops :: 's fsop) path0 (sint (ucast datasync :: 32 word)) fi0 s)"

definition go_hostAccess64 where
  "go_hostAccess64 ops path0 (mask0 :: uintptr64) (s :: 's) =
     wret64 (hostAccess (ops :: 's fsop) path0 (ucast mask0) s)"

definition go_hostCreate64 where
  "go_hostCreate64 ops path0 (mode0 :: uintptr64) fi0 (s :: 's) =
     wret64 (hostCreate (ops :: 's fsop) path0 (ucast mode0) fi0 s)"

definition go_hostFtruncate64 where
  "go_hostFtruncate64 ops path0 (size0 :: uintptr64) fi0 (s :: 's) =
     wret64 (hostFtruncate (ops :: 's fsop) path0 (sint size0) fi0 s)"

definition go_hostFgetattr64 where
  "go_hostFgetattr64 ops ex path0 stat0 fi0 (s :: 's) =
     wret64 (hostFgetattr (ops :: 's fsop) ex path0 stat0 fi0 s)"

definition go_hostUtimens64 where
  "go_hostUtimens64 ops path0 tmsp0 (s :: 's) =
     wret64 (hostUtimens (ops :: 's fsop) path0 tmsp0 s)"

definition go_hostGetpath64 where
  "go_hostGetpath64 ops path0 buff0 (size0 :: uintptr64) fi0 (s :: 's) =
     wret64 (hostGetpath (ops :: 's fsop) path0 buff0 (unat size0) fi0 s)"

definition go_hostSetchgtime64 where
  "go_hostSetchgtime64 ops path0 tmsp0 (s :: 's) =
     wret64 (hostSetchgtime (ops :: 's fsop) path0 tmsp0 s)"

definition go_hostSetcrtime64 where
  "go_hostSetcrtime64 ops path0 tmsp0 (s :: 's) =
     wret64 (hostSetcrtime (ops :: 's fsop) path0 tmsp0 s)"

definition go_hostChflags64 where
  "go_hostChflags64 ops path0 flags (s :: 's) =
     wret64 (hostChflags (ops :: 's fsop) path0 flags s)"

section \<open>32-bit callbacks\<close>

text \<open>
  In the structs of C a \<open>uintptr\<close> field then has 32 bits: it is modelled by a 64-bit word whose
  upper half is zero. So what a handler writes is narrowed, and what it reads is unsigned.
\<close>

definition low_word :: "64 word \<Rightarrow> 64 word" where
  "low_word w = ucast (ucast w :: uintptr32)"

definition narrow_timespec :: "fuse_timespec \<Rightarrow> fuse_timespec" where
  "narrow_timespec t = \<lparr>tv_sec = low_word (tv_sec t), tv_nsec = low_word (tv_nsec t)\<rparr>"

definition narrow_stat :: "fuse_stat \<Rightarrow> fuse_stat" where
  "narrow_stat st = st\<lparr>c_atim := narrow_timespec (c_atim st), c_mtim := narrow_timespec (c_mtim st),
     c_ctim := narrow_timespec (c_ctim st), c_birthtim := narrow_timespec (c_birthtim st)\<rparr>"

definition narrow_statvfs :: "fuse_statvfs \<Rightarrow> fuse_statvfs" where
  "narrow_statvfs st =
     \<lparr>f_bsize = low_word (f_bsize st), f_frsize = low_word (f_frsize st), f_blocks = low_word (f_blocks st),
      f_bfree = low_word (f_bfree st), f_bavail = low_word (f_bavail st), f_files = low_word (f_files st),
      f_ffree = low_word (f_ffree st), f_favail = low_word (f_favail st), f_fsid = low_word (f_fsid st),
      f_flag = low_word (f_flag st), f_namemax = low_word (f_namemax st)\<rparr>"

definition narrow_fill :: "c_string \<times> fuse_stat option \<times> int \<Rightarrow> c_string \<times> fuse_stat option \<times> int" where
  "narrow_fill e = (case e of (name1, stat1, off1) \<Rightarrow> (name1, map_option narrow_stat stat1, off1))"

text \<open>
  Two handlers convert a size to a Go \<open>int\<close>, which on this platform is negative from \<open>2 ^ 31\<close> on:
  no result then fits.
\<close>

definition go_hostGetattr32 where
  "go_hostGetattr32 ops ex path0 stat0 (s :: 's) =
     wret32 (map_hres id narrow_stat (hostGetattr (ops :: 's fsop) ex path0 stat0 s))"

definition go_hostReadlink32 where
  "go_hostReadlink32 ops path0 buff0 (size0 :: uintptr32) (s :: 's) =
     wret32 (hostReadlink (ops :: 's fsop) path0 buff0 (unat size0) s)"

definition go_hostMknod32 where
  "go_hostMknod32 ops path0 (mode0 :: uintptr32) (dev0 :: uintptr32) (s :: 's) =
     wret32 (hostMknod (ops :: 's fsop) path0 mode0 dev0 s)"

definition go_hostMkdir32 where
  "go_hostMkdir32 ops path0 (mode0 :: uintptr32) (s :: 's) =
     wret32 (hostMkdir (ops :: 's fsop) path0 mode0 s)"

definition go_hostUnlink32 where
  "go_hostUnlink32 ops path0 (s :: 's) =
     wret32 (hostUnlink (ops :: 's fsop) path0 s)"

definition go_hostRmdir32 where
  "go_hostRmdir32 ops path0 (s :: 's) =
     wret32 (hostRmdir (ops :: 's fsop) path0 s)"

definition go_hostSymlink32 where
  "go_hostSymlink32 ops target0 newpath0 (s :: 's) =
     wret32 (hostSymlink (ops :: 's fsop) target0 newpath0 s)"

definition go_hostRename32 where
  "go_hostRename32 ops oldpath0 newpath0 (s :: 's) =
     wret32 (hostRename (ops :: 's fsop) oldpath0 newpath0 s)"

definition go_hostLink32 where
  "go_hostLink32 ops oldpath0 newpath0 (s :: 's) =
     wret32 (hostLink (ops :: 's fsop) oldpath0 newpath0 s)"

definition go_hostChmod32 where
  "go_hostChmod32 ops path0 (mode0 :: uintptr32) (s :: 's) =
     wret32 (hostChmod (ops :: 's fsop) path0 mode0 s)"

definition go_hostChown32 where
  "go_hostChown32 ops path0 (uid0 :: uintptr32) (gid0 :: uintptr32) (s :: 's) =
     wret32 (hostChown (ops :: 's fsop) path0 uid0 gid0 s)"

definition go_hostTruncate32 where
  "go_hostTruncate32 ops path0 (lsize0 :: uintptr32) (hsize0 :: uintptr32) (s :: 's) =
     wret32 (hostTruncate (ops :: 's fsop) path0 (off32 lsize0 hsize0) s)"

definition go_hostOpen32 where
  "go_hostOpen32 ops path0 fi0 (s :: 's) =
     wret32 (hostOpen (ops :: 's fsop) path0 fi0 s)"

definition go_hostRead32 where
  "go_hostRead32 ops path0 buff0 (size0 :: uintptr32) (lofst0 :: uintptr32) (hofst0 :: uintptr32) fi0 (s :: 's) =
     wret32 (hostRead (ops :: 's fsop) path0 (take (unat size0) buff0) (off32 lofst0 hofst0) fi0 s)"

definition go_hostWrite32 where
  "go_hostWrite32 ops path0 buff0 (size0 :: uintptr32) (lofst0 :: uintptr32) (hofst0 :: uintptr32) fi0 (s :: 's) =
     wret32 (hostWrite (ops :: 's fsop) path0 (take (unat size0) buff0) (off32 lofst0 hofst0) fi0 s)"

definition go_hostStatfs32 where
  "go_hostStatfs32 ops path0 stat0 (s :: 's) =
     wret32 (map_hres id narrow_statvfs (hostStatfs (ops :: 's fsop) path0 stat0 s))"

definition go_hostFlush32 where
  "go_hostFlush32 ops path0 fi0 (s :: 's) =
     wret32 (hostFlush (ops :: 's fsop) path0 fi0 s)"

definition go_hostRelease32 where
  "go_hostRelease32 ops path0 fi0 (s :: 's) =
     wret32 (hostRelease (ops :: 's fsop) path0 fi0 s)"

definition go_hostFsync32 where
  "go_hostFsync32 ops path0 datasync fi0 (s :: 's) =
     wret32 (hostFsync (ops :: 's fsop) path0 datasync fi0 s)"

definition go_hostSetxattr32 where
  "go_hostSetxattr32 ops path0 name0 buff0 (size0 :: uintptr32) (flags :: uintptr32) (s :: 's) =
     wret32 (hostSetxattr (ops :: 's fsop) path0 name0 (take (unat size0) buff0) (sint flags) s)"

definition go_hostGetxattr32 where
  "go_hostGetxattr32 ops path0 name0 buff0 (size0 :: uintptr32) (s :: 's) =
     wret32 (if 2 ^ 31 \<le> unat size0
       then host_call (op_Getxattr (ops :: 's fsop) (c_GoString path0) (c_GoString name0) s) buff0
              (\<lambda>(errc, rslt). Some (buff0, if errc \<noteq> 0 then errc else - ERANGE))
       else hostGetxattr ops path0 name0 buff0 (unat size0) s)"

definition go_hostListxattr32 where
  "go_hostListxattr32 ops path0 buff0 (size0 :: uintptr32) (s :: 's) =
     wret32 (if 2 ^ 31 \<le> unat size0
       then host_call (op_Listxattr (ops :: 's fsop) (c_GoString path0) s) buff0
              (\<lambda>(errc, names). Some (buff0, if errc \<noteq> 0 then errc else 0))
       else hostListxattr ops path0 buff0 (unat size0) s)"

definition go_hostRemovexattr32 where
  "go_hostRemovexattr32 ops path0 name0 (s :: 's) =
     wret32 (hostRemovexattr (ops :: 's fsop) path0 name0 s)"

definition go_hostOpendir32 where
  "go_hostOpendir32 ops path0 fi0 (s :: 's) =
     wret32 (hostOpendir (ops :: 's fsop) path0 fi0 s)"

definition go_hostReaddir32 where
  "go_hostReaddir32 ops ex path0 (lofst0 :: uintptr32) (hofst0 :: uintptr32) fi0 (s :: 's) =
     wret32 (map_hres id (map narrow_fill) (hostReaddir (ops :: 's fsop) ex path0 (off32 lofst0 hofst0) fi0 s))"

definition go_hostReleasedir32 where
  "go_hostReleasedir32 ops path0 fi0 (s :: 's) =
     wret32 (hostReleasedir (ops :: 's fsop) path0 fi0 s)"

definition go_hostFsyncdir32 where
  "go_hostFsyncdir32 ops path0 (datasync :: uintptr32) fi0 (s :: 's) =
     wret32 (hostFsyncdir (ops :: 's fsop) path0 (sint datasync) fi0 s)"

definition go_hostAccess32 where
  "go_hostAccess32 ops path0 (mask0 :: uintptr32) (s :: 's) =
     wret32 (hostAccess (ops :: 's fsop) path0 mask0 s)"

definition go_hostCreate32 where
  "go_hostCreate32 ops path0 (mode0 :: uintptr32) fi0 (s :: 's) =
     wret32 (hostCreate (ops :: 's fsop) path0 mode0 fi0 s)"

definition go_hostFtruncate32 where
  "go_hostFtruncate32 ops path0 (lsize0 :: uintptr32) (hsize0 :: uintptr32) fi0 (s :: 's) =
     wret32 (hostFtruncate (ops :: 's fsop) path0 (off32 lsize0 hsize0) fi0 s)"

definition go_hostFgetattr32 where
  "go_hostFgetattr32 ops ex path0 stat0 fi0 (s :: 's) =
     wret32 (map_hres id narrow_stat (hostFgetattr (ops :: 's fsop) ex path0 stat0 fi0 s))"

definition go_hostUtimens32 where
  "go_hostUtimens32 ops path0 tmsp0 (s :: 's) =
     wret32 (hostUtimens (ops :: 's fsop) path0 (map_option (map_prod narrow_timespec narrow_timespec) tmsp0) s)"

definition go_hostGetpath32 where
  "go_hostGetpath32 ops path0 buff0 (size0 :: uintptr32) fi0 (s :: 's) =
     wret32 (hostGetpath (ops :: 's fsop) path0 buff0 (unat size0) fi0 s)"

definition go_hostSetchgtime32 where
  "go_hostSetchgtime32 ops path0 tmsp0 (s :: 's) =
     wret32 (hostSetchgtime (ops :: 's fsop) path0 (narrow_timespec tmsp0) s)"

definition go_hostSetcrtime32 where
  "go_hostSetcrtime32 ops path0 tmsp0 (s :: 's) =
     wret32 (hostSetcrtime (ops :: 's fsop) path0 (narrow_timespec tmsp0) s)"

definition go_hostChflags32 where
  "go_hostChflags32 ops path0 flags (s :: 's) =
     wret32 (hostChflags (ops :: 's fsop) path0 flags s)"

section \<open>The directory filler\<close>

text \<open>
  The words \<open>c_hostFilldir\<close> passes to the filler, a C function, on the two platforms, and its
  result as a C \<open>int\<close>.
\<close>

definition c_hostFilldir64 :: "(uintptr64 list \<Rightarrow> uintptr64) \<Rightarrow> uintptr64 \<Rightarrow> uintptr64 \<Rightarrow> uintptr64 \<Rightarrow> int \<Rightarrow> int" where
  "c_hostFilldir64 filler buf name stbuf off =
     sint (ucast (filler [buf, name, stbuf, word_of_int off]) :: 32 word)"

definition c_hostFilldir32 :: "(uintptr32 list \<Rightarrow> uintptr32) \<Rightarrow> uintptr32 \<Rightarrow> uintptr32 \<Rightarrow> uintptr32 \<Rightarrow> int \<Rightarrow> int" where
  "c_hostFilldir32 filler buf name stbuf off =
     sint (filler [buf, name, stbuf, word_of_int off, word_of_int (off div 2 ^ 32)])"

end
