(* ===== verification/FuseTables.thy ===== *)
theory FuseTables
  imports FuseCallbacks FuseLaws FuseCgo
begin

text \<open>
  The tables \<open>struct fuse_operations\<close> through which the C library calls the program: the two
  that \<open>fuse/host_nocgo_windows.go\<close> fills, and the one of \<open>hostMount\<close> in \<open>fuse/host_cgo.go\<close>,
  whose entries are the functions exported to C there. A table is a function on requests
  (\<open>fuse_request\<close>, an operation with its arguments at their C width): the call of its entry,
  with the arguments passed as the platform passes them.

  \<open>init\<close> and \<open>destroy\<close>, which work on the mount, stand at the end.
\<close>

section \<open>Functions exported to C\<close>

text \<open>
  Without a change of type the exported functions are the handlers; C types are those of
  Windows, as in the handlers.
\<close>

definition go_hostGetattr where
  "go_hostGetattr ops ex path0 stat0 (s :: 's) = hostGetattr (ops :: 's fsop) ex path0 stat0 s"

definition go_hostReadlink where
  "go_hostReadlink ops path0 buff0 size0 (s :: 's) = hostReadlink (ops :: 's fsop) path0 buff0 size0 s"

definition go_hostMknod where
  "go_hostMknod ops path0 mode0 dev0 (s :: 's) = hostMknod (ops :: 's fsop) path0 mode0 dev0 s"

definition go_hostMkdir where
  "go_hostMkdir ops path0 mode0 (s :: 's) = hostMkdir (ops :: 's fsop) path0 mode0 s"

definition go_hostUnlink where
  "go_hostUnlink ops path0 (s :: 's) = hostUnlink (ops :: 's fsop) path0 s"

definition go_hostRmdir where
  "go_hostRmdir ops path0 (s :: 's) = hostRmdir (ops :: 's fsop) path0 s"

definition go_hostSymlink where
  "go_hostSymlink ops target0 newpath0 (s :: 's) = hostSymlink (ops :: 's fsop) target0 newpath0 s"

definition go_hostRename where
  "go_hostRename ops oldpath0 newpath0 (s :: 's) = hostRename (ops :: 's fsop) oldpath0 newpath0 s"

definition go_hostLink where
  "go_hostLink ops oldpath0 newpath0 (s :: 's) = hostLink (ops :: 's fsop) oldpath0 newpath0 s"

definition go_hostChmod where
  "go_hostChmod ops path0 mode0 (s :: 's) = hostChmod (ops :: 's fsop) path0 mode0 s"

definition go_hostChown where
  "go_hostChown ops path0 uid0 gid0 (s :: 's) = hostChown (ops :: 's fsop) path0 uid0 gid0 s"

definition go_hostTruncate where
  "go_hostTruncate ops path0 size0 (s :: 's) = hostTruncate (ops :: 's fsop) path0 size0 s"

definition go_hostOpen where
  "go_hostOpen ops path0 fi0 (s :: 's) = hostOpen (ops :: 's fsop) path0 fi0 s"

definition go_hostRead where
  "go_hostRead ops path0 buff0 size0 ofst0 fi0 (s :: 's) = hostRead (ops :: 's fsop) path0 (take size0 buff0) ofst0 fi0 s"

definition go_hostWrite where
  "go_hostWrite ops path0 buff0 size0 ofst0 fi0 (s :: 's) = hostWrite (ops :: 's fsop) path0 (take size0 buff0) ofst0 fi0 s"

definition go_hostStatfs where
  "go_hostStatfs ops path0 stat0 (s :: 's) = hostStatfs (ops :: 's fsop) path0 stat0 s"

definition go_hostFlush where
  "go_hostFlush ops path0 fi0 (s :: 's) = hostFlush (ops :: 's fsop) path0 fi0 s"

definition go_hostRelease where
  "go_hostRelease ops path0 fi0 (s :: 's) = hostRelease (ops :: 's fsop) path0 fi0 s"

definition go_hostFsync where
  "go_hostFsync ops path0 (datasync :: 32 word) fi0 (s :: 's) = hostFsync (ops :: 's fsop) path0 (sint datasync) fi0 s"

definition go_hostSetxattr where
  "go_hostSetxattr ops path0 name0 buff0 size0 (flags :: 32 word) (s :: 's) = hostSetxattr (ops :: 's fsop) path0 name0 (take size0 buff0) (sint flags) s"

definition go_hostGetxattr where
  "go_hostGetxattr ops path0 name0 buff0 size0 (s :: 's) = hostGetxattr (ops :: 's fsop) path0 name0 buff0 size0 s"

definition go_hostListxattr where
  "go_hostListxattr ops path0 buff0 size0 (s :: 's) = hostListxattr (ops :: 's fsop) path0 buff0 size0 s"

definition go_hostRemovexattr where
  "go_hostRemovexattr ops path0 name0 (s :: 's) = hostRemovexattr (ops :: 's fsop) path0 name0 s"

definition go_hostOpendir where
  "go_hostOpendir ops path0 fi0 (s :: 's) = hostOpendir (ops :: 's fsop) path0 fi0 s"

definition go_hostReaddir where
  "go_hostReaddir ops ex path0 ofst0 fi0 (s :: 's) = hostReaddir (ops :: 's fsop) ex path0 ofst0 fi0 s"

definition go_hostReleasedir where
  "go_hostReleasedir ops path0 fi0 (s :: 's) = hostReleasedir (ops :: 's fsop) path0 fi0 s"

definition go_hostFsyncdir where
  "go_hostFsyncdir ops path0 (datasync :: 32 word) fi0 (s :: 's) = hostFsyncdir (ops :: 's fsop) path0 (sint datasync) fi0 s"

definition go_hostAccess where
  "go_hostAccess ops path0 mask0 (s :: 's) = hostAccess (ops :: 's fsop) path0 mask0 s"

definition go_hostCreate where
  "go_hostCreate ops path0 mode0 fi0 (s :: 's) = hostCreate (ops :: 's fsop) path0 mode0 fi0 s"

definition go_hostFtruncate where
  "go_hostFtruncate ops path0 size0 fi0 (s :: 's) = hostFtruncate (ops :: 's fsop) path0 size0 fi0 s"

definition go_hostFgetattr where
  "go_hostFgetattr ops ex path0 stat0 fi0 (s :: 's) = hostFgetattr (ops :: 's fsop) ex path0 stat0 fi0 s"

definition go_hostUtimens where
  "go_hostUtimens ops path0 tmsp0 (s :: 's) = hostUtimens (ops :: 's fsop) path0 tmsp0 s"

definition go_hostGetpath where
  "go_hostGetpath ops path0 buff0 size0 fi0 (s :: 's) = hostGetpath (ops :: 's fsop) path0 buff0 size0 fi0 s"

definition go_hostSetchgtime where
  "go_hostSetchgtime ops path0 tmsp0 (s :: 's) = hostSetchgtime (ops :: 's fsop) path0 tmsp0 s"

definition go_hostSetcrtime where
  "go_hostSetcrtime ops path0 tmsp0 (s :: 's) = hostSetcrtime (ops :: 's fsop) path0 tmsp0 s"

definition go_hostChflags where
  "go_hostChflags ops path0 flags (s :: 's) = hostChflags (ops :: 's fsop) path0 flags s"

section \<open>Requests\<close>

datatype (plugins only: code) fuse_request =
    Req_getattr c_string fuse_stat
  | Req_readlink c_string bytes nat
  | Req_mknod c_string "32 word" "32 word"
  | Req_mkdir c_string "32 word"
  | Req_unlink c_string
  | Req_rmdir c_string
  | Req_symlink c_string c_string
  | Req_rename c_string c_string
  | Req_link c_string c_string
  | Req_chmod c_string "32 word"
  | Req_chown c_string "32 word" "32 word"
  | Req_truncate c_string int
  | Req_open c_string fuse_file_info
  | Req_read c_string bytes nat int fuse_file_info
  | Req_write c_string bytes nat int fuse_file_info
  | Req_statfs c_string fuse_statvfs
  | Req_flush c_string fuse_file_info
  | Req_release c_string fuse_file_info
  | Req_fsync c_string "32 word" fuse_file_info
  | Req_setxattr c_string c_string bytes nat "32 word"
  | Req_getxattr c_string c_string bytes nat
  | Req_listxattr c_string bytes nat
  | Req_removexattr c_string c_string
  | Req_opendir c_string fuse_file_info
  | Req_readdir c_string int fuse_file_info
  | Req_releasedir c_string fuse_file_info
  | Req_fsyncdir c_string "32 word" fuse_file_info
  | Req_access c_string "32 word"
  | Req_create c_string "32 word" fuse_file_info
  | Req_ftruncate c_string int fuse_file_info
  | Req_fgetattr c_string fuse_stat fuse_file_info
  | Req_utimens c_string "(fuse_timespec \<times> fuse_timespec) option"
  | Req_getpath c_string bytes nat "fuse_file_info option"
  | Req_setchgtime c_string fuse_timespec
  | Req_setcrtime c_string fuse_timespec
  | Req_chflags c_string "32 word"

text \<open>What a request writes through the pointers it was given.\<close>

datatype c_out = NoOut | OutStat fuse_stat | OutBytes bytes | OutInfo fuse_file_info | OutStatvfs fuse_statvfs
  | OutFill "(c_string \<times> fuse_stat option \<times> int) list"

definition no_out :: "unit \<Rightarrow> c_out" where
  "no_out u = NoOut"

section \<open>The tables\<close>

text \<open>
  On a 64-bit platform each argument is in a register of its own; \<open>wide\<close> is the register that
  holds a 32-bit argument, whose upper half is undefined.
\<close>

definition wide_ok :: "(32 word \<Rightarrow> uintptr64) \<Rightarrow> bool" where
  "wide_ok wide \<longleftrightarrow> (\<forall>w. ucast (wide w) = w)"

primrec fsop64 :: "(32 word \<Rightarrow> uintptr64) \<Rightarrow> 's fsop \<Rightarrow> bool \<Rightarrow> fuse_request \<Rightarrow> 's \<Rightarrow> ('s, c_out, uintptr64) cret" where
  "fsop64 wide ops ex (Req_getattr path0 stat0) s =
     map_cret id OutStat id (go_hostGetattr64 ops ex path0 stat0 s)"
| "fsop64 wide ops ex (Req_readlink path0 buff0 size0) s =
     map_cret id OutBytes id (go_hostReadlink64 ops path0 buff0 (word_of_nat size0) s)"
| "fsop64 wide ops ex (Req_mknod path0 mode0 dev0) s =
     map_cret id no_out id (go_hostMknod64 ops path0 (wide mode0) (wide dev0) s)"
| "fsop64 wide ops ex (Req_mkdir path0 mode0) s =
     map_cret id no_out id (go_hostMkdir64 ops path0 (wide mode0) s)"
| "fsop64 wide ops ex (Req_unlink path0) s =
     map_cret id no_out id (go_hostUnlink64 ops path0 s)"
| "fsop64 wide ops ex (Req_rmdir path0) s =
     map_cret id no_out id (go_hostRmdir64 ops path0 s)"
| "fsop64 wide ops ex (Req_symlink target0 newpath0) s =
     map_cret id no_out id (go_hostSymlink64 ops target0 newpath0 s)"
| "fsop64 wide ops ex (Req_rename oldpath0 newpath0) s =
     map_cret id no_out id (go_hostRename64 ops oldpath0 newpath0 s)"
| "fsop64 wide ops ex (Req_link oldpath0 newpath0) s =
     map_cret id no_out id (go_hostLink64 ops oldpath0 newpath0 s)"
| "fsop64 wide ops ex (Req_chmod path0 mode0) s =
     map_cret id no_out id (go_hostChmod64 ops path0 (wide mode0) s)"
| "fsop64 wide ops ex (Req_chown path0 uid0 gid0) s =
     map_cret id no_out id (go_hostChown64 ops path0 (wide uid0) (wide gid0) s)"
| "fsop64 wide ops ex (Req_truncate path0 size0) s =
     map_cret id no_out id (go_hostTruncate64 ops path0 (word_of_int size0) s)"
| "fsop64 wide ops ex (Req_open path0 fi0) s =
     map_cret id OutInfo id (go_hostOpen64 ops path0 fi0 s)"
| "fsop64 wide ops ex (Req_read path0 buff0 size0 ofst0 fi0) s =
     map_cret id OutBytes id (go_hostRead64 ops path0 buff0 (word_of_nat size0) (word_of_int ofst0) fi0 s)"
| "fsop64 wide ops ex (Req_write path0 buff0 size0 ofst0 fi0) s =
     map_cret id no_out id (go_hostWrite64 ops path0 buff0 (word_of_nat size0) ofst0 fi0 s)"
| "fsop64 wide ops ex (Req_statfs path0 stat0) s =
     map_cret id OutStatvfs id (go_hostStatfs64 ops path0 stat0 s)"
| "fsop64 wide ops ex (Req_flush path0 fi0) s =
     map_cret id no_out id (go_hostFlush64 ops path0 fi0 s)"
| "fsop64 wide ops ex (Req_release path0 fi0) s =
     map_cret id no_out id (go_hostRelease64 ops path0 fi0 s)"
| "fsop64 wide ops ex (Req_fsync path0 datasync fi0) s =
     map_cret id no_out id (go_hostFsync64 ops path0 (sint datasync) fi0 s)"
| "fsop64 wide ops ex (Req_setxattr path0 name0 buff0 size0 flags) s =
     map_cret id no_out id (go_hostSetxattr64 ops path0 name0 buff0 (word_of_nat size0) (wide flags) s)"
| "fsop64 wide ops ex (Req_getxattr path0 name0 buff0 size0) s =
     map_cret id OutBytes id (go_hostGetxattr64 ops path0 name0 buff0 (word_of_nat size0) s)"
| "fsop64 wide ops ex (Req_listxattr path0 buff0 size0) s =
     map_cret id OutBytes id (go_hostListxattr64 ops path0 buff0 (word_of_nat size0) s)"
| "fsop64 wide ops ex (Req_removexattr path0 name0) s =
     map_cret id no_out id (go_hostRemovexattr64 ops path0 name0 s)"
| "fsop64 wide ops ex (Req_opendir path0 fi0) s =
     map_cret id OutInfo id (go_hostOpendir64 ops path0 fi0 s)"
| "fsop64 wide ops ex (Req_readdir path0 ofst0 fi0) s =
     map_cret id OutFill id (go_hostReaddir64 ops ex path0 (word_of_int ofst0) fi0 s)"
| "fsop64 wide ops ex (Req_releasedir path0 fi0) s =
     map_cret id no_out id (go_hostReleasedir64 ops path0 fi0 s)"
| "fsop64 wide ops ex (Req_fsyncdir path0 datasync fi0) s =
     map_cret id no_out id (go_hostFsyncdir64 ops path0 (wide datasync) fi0 s)"
| "fsop64 wide ops ex (Req_access path0 mask0) s =
     map_cret id no_out id (go_hostAccess64 ops path0 (wide mask0) s)"
| "fsop64 wide ops ex (Req_create path0 mode0 fi0) s =
     map_cret id OutInfo id (go_hostCreate64 ops path0 (wide mode0) fi0 s)"
| "fsop64 wide ops ex (Req_ftruncate path0 size0 fi0) s =
     map_cret id no_out id (go_hostFtruncate64 ops path0 (word_of_int size0) fi0 s)"
| "fsop64 wide ops ex (Req_fgetattr path0 stat0 fi0) s =
     map_cret id OutStat id (go_hostFgetattr64 ops ex path0 stat0 fi0 s)"
| "fsop64 wide ops ex (Req_utimens path0 tmsp0) s =
     map_cret id no_out id (go_hostUtimens64 ops path0 tmsp0 s)"
| "fsop64 wide ops ex (Req_getpath path0 buff0 size0 fi0) s =
     map_cret id OutBytes id (go_hostGetpath64 ops path0 buff0 (word_of_nat size0) fi0 s)"
| "fsop64 wide ops ex (Req_setchgtime path0 tmsp0) s =
     map_cret id no_out id (go_hostSetchgtime64 ops path0 tmsp0 s)"
| "fsop64 wide ops ex (Req_setcrtime path0 tmsp0) s =
     map_cret id no_out id (go_hostSetcrtime64 ops path0 tmsp0 s)"
| "fsop64 wide ops ex (Req_chflags path0 flags) s =
     map_cret id no_out id (go_hostChflags64 ops path0 flags s)"

primrec fsop32 :: "'s fsop \<Rightarrow> bool \<Rightarrow> fuse_request \<Rightarrow> 's \<Rightarrow> ('s, c_out, uintptr32) cret" where
  "fsop32 ops ex (Req_getattr path0 stat0) s =
     map_cret id OutStat id (go_hostGetattr32 ops ex path0 stat0 s)"
| "fsop32 ops ex (Req_readlink path0 buff0 size0) s =
     map_cret id OutBytes id (go_hostReadlink32 ops path0 buff0 (word_of_nat size0) s)"
| "fsop32 ops ex (Req_mknod path0 mode0 dev0) s =
     map_cret id no_out id (go_hostMknod32 ops path0 mode0 dev0 s)"
| "fsop32 ops ex (Req_mkdir path0 mode0) s =
     map_cret id no_out id (go_hostMkdir32 ops path0 mode0 s)"
| "fsop32 ops ex (Req_unlink path0) s =
     map_cret id no_out id (go_hostUnlink32 ops path0 s)"
| "fsop32 ops ex (Req_rmdir path0) s =
     map_cret id no_out id (go_hostRmdir32 ops path0 s)"
| "fsop32 ops ex (Req_symlink target0 newpath0) s =
     map_cret id no_out id (go_hostSymlink32 ops target0 newpath0 s)"
| "fsop32 ops ex (Req_rename oldpath0 newpath0) s =
     map_cret id no_out id (go_hostRename32 ops oldpath0 newpath0 s)"
| "fsop32 ops ex (Req_link oldpath0 newpath0) s =
     map_cret id no_out id (go_hostLink32 ops oldpath0 newpath0 s)"
| "fsop32 ops ex (Req_chmod path0 mode0) s =
     map_cret id no_out id (go_hostChmod32 ops path0 mode0 s)"
| "fsop32 ops ex (Req_chown path0 uid0 gid0) s =
     map_cret id no_out id (go_hostChown32 ops path0 uid0 gid0 s)"
| "fsop32 ops ex (Req_truncate path0 size0) s =
     map_cret id no_out id (go_hostTruncate32 ops path0 (low32 size0) (high32 size0) s)"
| "fsop32 ops ex (Req_open path0 fi0) s =
     map_cret id OutInfo id (go_hostOpen32 ops path0 fi0 s)"
| "fsop32 ops ex (Req_read path0 buff0 size0 ofst0 fi0) s =
     map_cret id OutBytes id (go_hostRead32 ops path0 buff0 (word_of_nat size0) (low32 ofst0) (high32 ofst0) fi0 s)"
| "fsop32 ops ex (Req_write path0 buff0 size0 ofst0 fi0) s =
     map_cret id no_out id (go_hostWrite32 ops path0 buff0 (word_of_nat size0) (low32 ofst0) (high32 ofst0) fi0 s)"
| "fsop32 ops ex (Req_statfs path0 stat0) s =
     map_cret id OutStatvfs id (go_hostStatfs32 ops path0 stat0 s)"
| "fsop32 ops ex (Req_flush path0 fi0) s =
     map_cret id no_out id (go_hostFlush32 ops path0 fi0 s)"
| "fsop32 ops ex (Req_release path0 fi0) s =
     map_cret id no_out id (go_hostRelease32 ops path0 fi0 s)"
| "fsop32 ops ex (Req_fsync path0 datasync fi0) s =
     map_cret id no_out id (go_hostFsync32 ops path0 (sint datasync) fi0 s)"
| "fsop32 ops ex (Req_setxattr path0 name0 buff0 size0 flags) s =
     map_cret id no_out id (go_hostSetxattr32 ops path0 name0 buff0 (word_of_nat size0) flags s)"
| "fsop32 ops ex (Req_getxattr path0 name0 buff0 size0) s =
     map_cret id OutBytes id (go_hostGetxattr32 ops path0 name0 buff0 (word_of_nat size0) s)"
| "fsop32 ops ex (Req_listxattr path0 buff0 size0) s =
     map_cret id OutBytes id (go_hostListxattr32 ops path0 buff0 (word_of_nat size0) s)"
| "fsop32 ops ex (Req_removexattr path0 name0) s =
     map_cret id no_out id (go_hostRemovexattr32 ops path0 name0 s)"
| "fsop32 ops ex (Req_opendir path0 fi0) s =
     map_cret id OutInfo id (go_hostOpendir32 ops path0 fi0 s)"
| "fsop32 ops ex (Req_readdir path0 ofst0 fi0) s =
     map_cret id OutFill id (go_hostReaddir32 ops ex path0 (low32 ofst0) (high32 ofst0) fi0 s)"
| "fsop32 ops ex (Req_releasedir path0 fi0) s =
     map_cret id no_out id (go_hostReleasedir32 ops path0 fi0 s)"
| "fsop32 ops ex (Req_fsyncdir path0 datasync fi0) s =
     map_cret id no_out id (go_hostFsyncdir32 ops path0 datasync fi0 s)"
| "fsop32 ops ex (Req_access path0 mask0) s =
     map_cret id no_out id (go_hostAccess32 ops path0 mask0 s)"
| "fsop32 ops ex (Req_create path0 mode0 fi0) s =
     map_cret id OutInfo id (go_hostCreate32 ops path0 mode0 fi0 s)"
| "fsop32 ops ex (Req_ftruncate path0 size0 fi0) s =
     map_cret id no_out id (go_hostFtruncate32 ops path0 (low32 size0) (high32 size0) fi0 s)"
| "fsop32 ops ex (Req_fgetattr path0 stat0 fi0) s =
     map_cret id OutStat id (go_hostFgetattr32 ops ex path0 stat0 fi0 s)"
| "fsop32 ops ex (Req_utimens path0 tmsp0) s =
     map_cret id no_out id (go_hostUtimens32 ops path0 tmsp0 s)"
| "fsop32 ops ex (Req_getpath path0 buff0 size0 fi0) s =
     map_cret id OutBytes id (go_hostGetpath32 ops path0 buff0 (word_of_nat size0) fi0 s)"
| "fsop32 ops ex (Req_setchgtime path0 tmsp0) s =
     map_cret id no_out id (go_hostSetchgtime32 ops path0 tmsp0 s)"
| "fsop32 ops ex (Req_setcrtime path0 tmsp0) s =
     map_cret id no_out id (go_hostSetcrtime32 ops path0 tmsp0 s)"
| "fsop32 ops ex (Req_chflags path0 flags) s =
     map_cret id no_out id (go_hostChflags32 ops path0 flags s)"

text \<open>
  With cgo: \<open>None\<close> for an entry that the platform's table does not have. \<open>winex\<close> says whether
  the headers of WinFsp define \<open>FSP_FUSE_CAP_STAT_EX\<close>.
\<close>

primrec fsop_cgo :: "platform \<Rightarrow> bool \<Rightarrow> 's fsop \<Rightarrow> bool \<Rightarrow> fuse_request \<Rightarrow> 's \<Rightarrow> ('s, c_out) hres option" where
  "fsop_cgo pl winex ops ex (Req_getattr path0 stat0) s =
     Some (map_hres id OutStat (go_hostGetattr ops ex path0 stat0 s))"
| "fsop_cgo pl winex ops ex (Req_readlink path0 buff0 size0) s =
     Some (map_hres id OutBytes (go_hostReadlink ops path0 buff0 size0 s))"
| "fsop_cgo pl winex ops ex (Req_mknod path0 mode0 dev0) s =
     Some (map_hres id no_out (go_hostMknod ops path0 mode0 dev0 s))"
| "fsop_cgo pl winex ops ex (Req_mkdir path0 mode0) s =
     Some (map_hres id no_out (go_hostMkdir ops path0 mode0 s))"
| "fsop_cgo pl winex ops ex (Req_unlink path0) s =
     Some (map_hres id no_out (go_hostUnlink ops path0 s))"
| "fsop_cgo pl winex ops ex (Req_rmdir path0) s =
     Some (map_hres id no_out (go_hostRmdir ops path0 s))"
| "fsop_cgo pl winex ops ex (Req_symlink target0 newpath0) s =
     Some (map_hres id no_out (go_hostSymlink ops target0 newpath0 s))"
| "fsop_cgo pl winex ops ex (Req_rename oldpath0 newpath0) s =
     Some (map_hres id no_out (go_hostRename ops oldpath0 newpath0 s))"
| "fsop_cgo pl winex ops ex (Req_link oldpath0 newpath0) s =
     Some (map_hres id no_out (go_hostLink ops oldpath0 newpath0 s))"
| "fsop_cgo pl winex ops ex (Req_chmod path0 mode0) s =
     Some (map_hres id no_out (go_hostChmod ops path0 mode0 s))"
| "fsop_cgo pl winex ops ex (Req_chown path0 uid0 gid0) s =
     Some (map_hres id no_out (go_hostChown ops path0 uid0 gid0 s))"
| "fsop_cgo pl winex ops ex (Req_truncate path0 size0) s =
     Some (map_hres id no_out (go_hostTruncate ops path0 size0 s))"
| "fsop_cgo pl winex ops ex (Req_open path0 fi0) s =
     Some (map_hres id OutInfo (go_hostOpen ops path0 fi0 s))"
| "fsop_cgo pl winex ops ex (Req_read path0 buff0 size0 ofst0 fi0) s =
     Some (map_hres id OutBytes (go_hostRead ops path0 buff0 size0 ofst0 fi0 s))"
| "fsop_cgo pl winex ops ex (Req_write path0 buff0 size0 ofst0 fi0) s =
     Some (map_hres id no_out (go_hostWrite ops path0 buff0 size0 ofst0 fi0 s))"
| "fsop_cgo pl winex ops ex (Req_statfs path0 stat0) s =
     Some (map_hres id OutStatvfs (go_hostStatfs ops path0 stat0 s))"
| "fsop_cgo pl winex ops ex (Req_flush path0 fi0) s =
     Some (map_hres id no_out (go_hostFlush ops path0 fi0 s))"
| "fsop_cgo pl winex ops ex (Req_release path0 fi0) s =
     Some (map_hres id no_out (go_hostRelease ops path0 fi0 s))"
| "fsop_cgo pl winex ops ex (Req_fsync path0 datasync fi0) s =
     Some (map_hres id no_out (go_hostFsync ops path0 datasync fi0 s))"
| "fsop_cgo pl winex ops ex (Req_setxattr path0 name0 buff0 size0 flags) s =
     Some (map_hres id no_out (go_hostSetxattr ops path0 name0 buff0 size0 flags s))"
| "fsop_cgo pl winex ops ex (Req_getxattr path0 name0 buff0 size0) s =
     Some (map_hres id OutBytes (go_hostGetxattr ops path0 name0 buff0 size0 s))"
| "fsop_cgo pl winex ops ex (Req_listxattr path0 buff0 size0) s =
     Some (map_hres id OutBytes (go_hostListxattr ops path0 buff0 size0 s))"
| "fsop_cgo pl winex ops ex (Req_removexattr path0 name0) s =
     Some (map_hres id no_out (go_hostRemovexattr ops path0 name0 s))"
| "fsop_cgo pl winex ops ex (Req_opendir path0 fi0) s =
     Some (map_hres id OutInfo (go_hostOpendir ops path0 fi0 s))"
| "fsop_cgo pl winex ops ex (Req_readdir path0 ofst0 fi0) s =
     Some (map_hres id OutFill (go_hostReaddir ops ex path0 ofst0 fi0 s))"
| "fsop_cgo pl winex ops ex (Req_releasedir path0 fi0) s =
     Some (map_hres id no_out (go_hostReleasedir ops path0 fi0 s))"
| "fsop_cgo pl winex ops ex (Req_fsyncdir path0 datasync fi0) s =
     Some (map_hres id no_out (go_hostFsyncdir ops path0 datasync fi0 s))"
| "fsop_cgo pl winex ops ex (Req_access path0 mask0) s =
     Some (map_hres id no_out (go_hostAccess ops path0 mask0 s))"
| "fsop_cgo pl winex ops ex (Req_create path0 mode0 fi0) s =
     Some (map_hres id OutInfo (go_hostCreate ops path0 mode0 fi0 s))"
| "fsop_cgo pl winex ops ex (Req_ftruncate path0 size0 fi0) s =
     Some (map_hres id no_out (go_hostFtruncate ops path0 size0 fi0 s))"
| "fsop_cgo pl winex ops ex (Req_fgetattr path0 stat0 fi0) s =
     Some (map_hres id OutStat (go_hostFgetattr ops ex path0 stat0 fi0 s))"
| "fsop_cgo pl winex ops ex (Req_utimens path0 tmsp0) s =
     Some (map_hres id no_out (go_hostUtimens ops path0 tmsp0 s))"
| "fsop_cgo pl winex ops ex (Req_getpath path0 buff0 size0 fi0) s =
     (if pl = Windows then Some (map_hres id OutBytes (go_hostGetpath ops path0 buff0 size0 fi0 s)) else None)"
| "fsop_cgo pl winex ops ex (Req_setchgtime path0 tmsp0) s =
     (if pl = Darwin \<or> pl = Windows \<and> winex then Some (map_hres id no_out (go_hostSetchgtime ops path0 tmsp0 s)) else None)"
| "fsop_cgo pl winex ops ex (Req_setcrtime path0 tmsp0) s =
     (if pl = Darwin \<or> pl = Windows \<and> winex then Some (map_hres id no_out (go_hostSetcrtime ops path0 tmsp0 s)) else None)"
| "fsop_cgo pl winex ops ex (Req_chflags path0 flags) s =
     (if pl = Darwin \<or> pl = Windows \<and> winex then Some (map_hres id no_out (go_hostChflags ops path0 flags s)) else None)"

section \<open>The struct\<close>

text \<open>
  The fields of \<open>struct fuse_operations\<close> in order. With cgo on Windows \<open>getpath\<close>, which older
  headers do not name, is set by its place among the pointers.
\<close>

definition fuse_operations :: "string list" where
  "fuse_operations =
    [''getattr'', ''getdir'', ''readlink'', ''mknod'', ''mkdir'', ''unlink'', ''rmdir'', ''symlink'',
     ''rename'', ''link'', ''chmod'', ''chown'', ''truncate'', ''utime'', ''open'', ''read'', ''write'',
     ''statfs'', ''flush'', ''release'', ''fsync'', ''setxattr'', ''getxattr'', ''listxattr'',
     ''removexattr'', ''opendir'', ''readdir'', ''releasedir'', ''fsyncdir'', ''init'', ''destroy'',
     ''access'', ''create'', ''ftruncate'', ''fgetattr'', ''lock'', ''utimens'', ''bmap'', ''flags'',
     ''ioctl'', ''poll'', ''write_buf'', ''read_buf'', ''flock'', ''fallocate'', ''getpath'',
     ''reserved01'', ''reserved02'', ''statfs_x'', ''setvolname'', ''exchange'', ''getxtimes'',
     ''setbkuptime'', ''setchgtime'', ''setcrtime'', ''chflags'', ''setattr_x'', ''fsetattr_x'']"

definition getpath_slot :: nat where
  "getpath_slot = 45"

lemma getpath_in_its_slot: "fuse_operations ! getpath_slot = ''getpath''"
  by (simp add: fuse_operations_def getpath_slot_def)

section \<open>Init and destroy\<close>

text \<open>The context that the C library keeps, with the handle of the mount.\<close>

record fuse_context =
  fx_fuse :: nat
  fx_uid :: "32 word"
  fx_gid :: "32 word"
  fx_pid :: "32 word"
  fx_private_data :: nat

definition Getcontext :: "fuse_context \<Rightarrow> 32 word \<times> 32 word \<times> int" where
  "Getcontext context = (fx_uid context, fx_gid context, sint (fx_pid context))"

definition go_hostInit64 where
  "go_hostInit64 init context conn0 c = hostInit init (fx_private_data context) (fx_fuse context) conn0 c"

definition go_hostDestroy64 where
  "go_hostDestroy64 destroy user_data c = map_option (\<lambda>c'. (c', 0 :: uintptr64)) (hostDestroy destroy user_data c)"

definition go_hostInit32 where
  "go_hostInit32 init context conn0 c = hostInit init (fx_private_data context) (fx_fuse context) conn0 c"

definition go_hostDestroy32 where
  "go_hostDestroy32 destroy user_data c = map_option (\<lambda>c'. (c', 0 :: uintptr32)) (hostDestroy destroy user_data c)"

definition go_hostDestroy where
  "go_hostDestroy destroy user_data c = hostDestroy destroy user_data c"

end
