(* ===== verification/CallbackProps.thy ===== *)
theory CallbackProps
  imports FuseTables
begin

text \<open>
  Properties of the callbacks: the results that C sees are those of the handlers, and the
  32-bit and the 64-bit callbacks do the same.
\<close>














section \<open>The tables of callbacks\<close>


text \<open>What the struct of a 32-bit platform keeps of the output.\<close>

definition narrow_out :: "c_out \<Rightarrow> c_out" where
  "narrow_out x = (case x of
     OutStat st \<Rightarrow> OutStat (narrow_stat st)
   | OutStatvfs st \<Rightarrow> OutStatvfs (narrow_statvfs st)
   | OutFill es \<Rightarrow> OutFill (map narrow_fill es)
   | _ \<Rightarrow> x)"

lemma narrow_out_simps [simp]:
  "narrow_out (no_out u) = no_out u" "narrow_out (OutBytes b) = OutBytes b" "narrow_out (OutInfo fi) = OutInfo fi"
  "narrow_out (OutStat st) = OutStat (narrow_stat st)" "narrow_out (OutStatvfs sv) = OutStatvfs (narrow_statvfs sv)"
  "narrow_out (OutFill es) = OutFill (map narrow_fill es)"
  by (simp_all add: narrow_out_def no_out_def)












text \<open>On every platform an entry of the table is that of Windows; these are the entries that are missing.\<close>

definition in_table :: "platform \<Rightarrow> bool \<Rightarrow> fuse_request \<Rightarrow> bool" where
  "in_table pl winex r \<longleftrightarrow> (case r of
     Req_getpath p b n fi \<Rightarrow> pl = Windows
   | Req_setchgtime p tm \<Rightarrow> pl = Darwin \<or> pl = Windows \<and> winex
   | Req_setcrtime p tm \<Rightarrow> pl = Darwin \<or> pl = Windows \<and> winex
   | Req_chflags p fl \<Rightarrow> pl = Darwin \<or> pl = Windows \<and> winex
   | _ \<Rightarrow> True)"

lemma table_entries:
  "fsop_cgo pl winex ops ex r s = (if in_table pl winex r then fsop_cgo Windows True ops ex r s else None)"
  by (cases r) (simp_all add: in_table_def)

section \<open>Times on 32-bit platforms\<close>

text \<open>The words of a time are unsigned there: seconds before 1970 become seconds after 2038.\<close>

lemma times_wrap:
  "ts_Sec (copyFusetimespecFromCtimespec (narrow_timespec \<lparr>tv_sec = word_of_int x, tv_nsec = n\<rparr>)) = x mod 2 ^ 32"
proof -
  have "i64 (x mod 4294967296)"
    using pos_mod_sign [of 4294967296 x] pos_mod_bound [of 4294967296 x] unfolding i64_def by linarith
  then have "sint (word_of_int (x mod 4294967296) :: 64 word) = x mod 4294967296" by (rule sint_of_int64)
  moreover have "low_word (word_of_int x) = word_of_int (x mod 2 ^ 32)"
    unfolding take_bit_eq_mod [symmetric] by (rule bit_word_eqI) (auto simp: low_word_def bit_simps)
  ultimately show ?thesis
    by (simp add: copyFusetimespecFromCtimespec_def narrow_timespec_def)
qed

section \<open>Open files, with and without cgo\<close>

text \<open>The word \<open>bits\<close> of the one variant as the bit fields of the other.\<close>

definition c_fields :: "fuse_file_info \<Rightarrow> c_file_info" where
  "c_fields fi = \<lparr>g_direct_io = bit (c_fi_bits fi) 0, g_keep_cache = bit (c_fi_bits fi) 1,
     g_nonseekable = bit (c_fi_bits fi) 3, g_fh = c_fi_fh fi\<rparr>"

lemma bit_flag_words:
  "bit (1 :: 32 word) 3 = False" "bit (2 :: 32 word) 0 = False" "bit (2 :: 32 word) 1 = True" "bit (2 :: 32 word) 3 = False"
  "bit (8 :: 32 word) 0 = False" "bit (8 :: 32 word) 1 = False" "bit (8 :: 32 word) 3 = True" "bit (1 :: 32 word) 1 = False"
  by simp_all

text \<open>
  The two variants of the host: without cgo an open file's flags are only set and never
  cleared, with cgo they are assigned; the two agree exactly when no flag was set before that
  the file system does not ask for.
\<close>

theorem fileinfo_variants:
  "c_fields (c_hostAsgnCfileinfo fi0 fi) =
     hostAsgnCfileinfo Linux (c_fields fi0) (fi_DirectIo fi) (fi_KeepCache fi) (fi_NonSeekable fi) (fi_Fh fi) \<longleftrightarrow>
   \<not> (bit (c_fi_bits fi0) 0 \<and> \<not> fi_DirectIo fi) \<and> \<not> (bit (c_fi_bits fi0) 1 \<and> \<not> fi_KeepCache fi) \<and>
   \<not> (bit (c_fi_bits fi0) 3 \<and> \<not> fi_NonSeekable fi)"
  by (auto simp: c_fields_def c_hostAsgnCfileinfo_def hostAsgnCfileinfo_def Let_def bit_or_iff bit_flag_words)

end
