(* ===== verification/Start.thy ===== *)
theory Start
  imports TxReplay WriterQueue FuseMount
begin

text \<open>
  The function \<open>main\<close> of \<open>main.go\<close>: how the flags, the chat service, the database, the writer, the
  file system and the FUSE host are put together. The flags are given after the package
  \<open>kingpin\<close> has parsed them; logging and the debug server are left out.

  Parameters: \<open>getenv\<close>, and the chat service (\<open>chat\<close>), as in the theory \<open>TxLog\<close>: \<open>ct_login\<close> is
  whether a session can be created and opened with a token.
\<close>

record flags =
  fl_token :: string
  fl_userToken :: bool
  fl_guildID :: string
  fl_mount :: string
  fl_compact :: bool
  fl_cacheType :: string
  fl_dbType :: string
  fl_options :: "string list"

record chat =
  ct_login :: "string \<Rightarrow> bool"
  ct_channels :: "string \<Rightarrow> Channel list option"
  ct_create :: "string \<Rightarrow> string \<Rightarrow> Channel option"
  ct_pinTime :: "string \<Rightarrow> bool"
  ct_pins :: "string \<Rightarrow> Message list option"
  ct_fetch :: "string \<Rightarrow> Message list option"
  ct_http :: "string \<Rightarrow> bytes option"
  ct_send :: "nat \<Rightarrow> bytes \<Rightarrow> string option"
  ct_pin :: "string \<Rightarrow> bool"
  ct_unpin :: "string \<Rightarrow> bool"

definition credentials :: "(string \<Rightarrow> string) \<Rightarrow> flags \<Rightarrow> (string \<times> string) option" where
  "credentials getenv fl =
     (let token = (if fl_token fl = [] then getenv ''DSFS_TOKEN'' else fl_token fl);
          guildID = (if fl_guildID fl = [] then getenv ''DSFS_SERVER'' else fl_guildID fl);
          tokenPrefix = (if fl_userToken fl then '''' else ''Bot '')
      in if token = [] \<or> guildID = [] then None else Some (tokenPrefix @ token, guildID))"

text \<open>
  How \<open>main\<close> ends or goes on: it returns after an error, panics, still reads the history, or
  mounts: the file system, its writer's two queues, the host and the command line for FUSE.
\<close>

datatype 't run =
    NotStarted
  | StartPanics
  | StillReading
  | Mounting "'t Dsfs" "WriterState \<times> WriterState" FileSystemHost "c_string list"

definition main_run ::
    "'t env \<Rightarrow> (string \<Rightarrow> Tx option) \<Rightarrow> chat \<Rightarrow> nat \<Rightarrow> (string \<Rightarrow> string) \<Rightarrow> string list \<Rightarrow> flags \<Rightarrow> 't run" where
  "main_run E um ct fuel getenv os_Args fl =
     (case credentials getenv fl of
        None \<Rightarrow> NotStarted
      | Some (token, guildID) \<Rightarrow>
          if \<not> ct_login ct token then NotStarted
          else (case prepareChannels (ct_channels ct guildID) (ct_create ct guildID) of
            None \<Rightarrow> NotStarted
          | Some (txChannel, dataChannel) \<Rightarrow>
              (case GetNewDB (env_db E) (fl_dbType fl) of
                 None \<Rightarrow> StartPanics
               | Some d \<Rightarrow>
                   (case setupDB E um (ct_http ct) (ct_fetch ct) (ct_send ct) (ct_pin ct) (ct_unpin ct) fuel
                           (ct_pinTime ct (ch_ID txChannel)) (ct_pins ct (ch_ID txChannel)) (fl_compact fl) d of
                      None \<Rightarrow> StillReading
                    | Some (Inl e) \<Rightarrow> NotStarted
                    | Some (Inr st) \<Rightarrow>
                        Mounting (NewDsfs (su_db st) (ch_ID txChannel) (ch_ID dataChannel) (fl_cacheType fl))
                          (setupWriter, setupWriter)
                          (SetCapReaddirPlus True NewFileSystemHost)
                          (mount_argv os_Args (fl_mount fl) (FuseArgs (fl_options fl)))))))"

section \<open>What start-up leaves in the database\<close>

lemma iradix_empty: "iradix_laws R \<Longrightarrow> ir_Get R (ir_New R) k = None"
  by (simp add: iradix_laws_def)

lemma GetNewDB_ok:
  assumes "env_ok E" "GetNewDB (env_db E) dbType = Some d"
  shows "db_ok (env_db E) d \<and> db_Get (env_db E) d p = None"
  using assms(2) iradix_empty [OF env_okD(3) [OF assms(1)]] env_okD(3,4) [OF assms(1)]
  by (auto simp: GetNewDB_def db_ok_def db_Get_def radix_Get_def map_Get_def split: if_splits)

lemma log_txs_ok:
  assumes "\<And>line tx. um line = Some tx \<Longrightarrow> tx_ok tx" "tx \<in> set (log_txs um ls)"
  shows "tx_ok tx"
  using assms by (auto simp: log_txs_def valid_line_def split: option.splits)

lemma outcome_for_ok:
  assumes "\<And>tx. tx \<in> set txs \<Longrightarrow> tx_ok tx" "outcome_for p txs None = Some tx"
  shows "tx_ok tx"
proof -
  have "find (\<lambda>tx. tx_Path tx = p) (rev txs) = Some tx"
    using assms(2) by (auto simp: outcome_for_def split: option.splits if_splits)
  then have "tx \<in> set (rev txs)" by (metis find_Some_iff nth_mem)
  then show ?thesis using assms(1) by simp
qed

lemma su_db_setup_compact [simp]: "su_db (setup_compact send pin unpin compact oldPin b d) = d"
  by (simp add: setup_compact_def Let_def)

text \<open>A start-up that succeeds has read the log, or has begun a new one.\<close>

lemma setupDB_started:
  assumes "setupDB E um http fetch send pin unpin fuel hasPinTime pins compact d = Some (Inr st)"
  shows "(hasPinTime \<and> (\<exists>pinned ms. pins = Some pinned \<and> pinned \<noteq> [] \<and>
             fetch_all fuel fetch [last pinned] = Some (Inr ms) \<and>
             su_db st = fst (applyMessageTxs E um http ms (d, [])))) \<or>
         (\<not> hasPinTime \<and> su_db st = db_Insert (env_db E) d [slash] rootTx)"
  using assms
  by (auto simp: setupDB_def Let_def split: if_splits option.splits sum.splits prod.splits)

lemma applyMessageTxs_ok:
  "db_ok (env_db E) d \<Longrightarrow> db_ok (env_db E) (fst (applyMessageTxs E um http ms (d, b)))"
  by (simp add: applyMessageTxs_lines apply_lines tx_effects_ok)

lemma applyMessageTxs_get:
  "db_ok (env_db E) d \<Longrightarrow>
   db_Get (env_db E) (fst (applyMessageTxs E um http ms (d, b))) p =
     outcome_for p (log_txs um (all_lines http ms)) (db_Get (env_db E) d p)"
  by (simp add: applyMessageTxs_lines apply_lines tx_effects_get)

end
