(* ===== verification/StartProps.thy ===== *)
theory StartProps
  imports Start Sample LogProps
begin









section \<open>A log that is not well-formed\<close>

lemma locked_blocks:
  assumes "fs_locked s"
  shows "Mknod E t1 t2 p s = Blocks" "Mkdir E p s = Blocks" "Open E p s = Blocks" "Unlink E p s = Blocks"
    "Rmdir E p s = Blocks" "Rename E p q s = Blocks" "Getattr E p st s = Blocks" "Readdir E p s = Blocks"
    "fs_Truncate E t p sz s = Blocks" "Read E bg p b ofst s = Blocks" "Write E t p b ofst s = Blocks"
    "Release E p s = Blocks" "ApplyLiveTx_start E p tx s = Blocks"
  using assms
  by (simp_all add: Mknod_def Mkdir_def Open_def Unlink_def Rmdir_def Rename_def Getattr_def Readdir_def
      fs_Truncate_def Read_def Write_def Release_def ApplyLiveTx_start_def)

text \<open>
  Sizes in the log are not checked: with caches in memory, opening a file whose stored size is
  negative panics with \<open>fs.lock\<close> taken, and from then on every method of the file system blocks,
  on every path.
\<close>

theorem negative_size_locks_all:
  assumes "\<not> fs_locked s" "fs_cacheType s = ''memory''" "go_get (fs_open s) path = None"
    and "get E s path = Some tx" "tx_Type tx \<noteq> FolderType" "tx_Size tx < 0"
  shows "\<exists>s'. Open E path s = Panics s' \<and>
    (\<forall>p q t1 t2 st sz b ofst bg tx'.
      Mknod E t1 t2 p s' = Blocks \<and> Mkdir E p s' = Blocks \<and> Open E p s' = Blocks \<and> Unlink E p s' = Blocks \<and>
      Rmdir E p s' = Blocks \<and> Rename E p q s' = Blocks \<and> Getattr E p st s' = Blocks \<and> Readdir E p s' = Blocks \<and>
      fs_Truncate E t1 p sz s' = Blocks \<and> Read E bg p b ofst s' = Blocks \<and> Write E t1 p b ofst s' = Blocks \<and>
      Release E p s' = Blocks \<and> ApplyLiveTx_start E p tx' s' = Blocks)"
proof -
  have "Truncate (env_cache E) (Mem NewMemoryCache) (tx_Size tx) = None"
    using assms(6) by (simp add: Truncate_def mem_Truncate_def mem_Size_def NewMemoryCache_def slice_ok_def)
  then have "Open E path s = Panics (s\<lparr>fs_locked := True\<rparr>)"
    using assms by (simp add: Open_def GetNewCache_def)
  then show ?thesis by (simp add: locked_blocks)
qed

theorem negative_size_locks_all_witness:
  "\<exists>s'. Open sample_env ''/n'' (NewDsfs (MapDB [(''/n'', sample_tx\<lparr>tx_Size := - 1\<rparr>)]) ''t'' ''d'' ''memory'') = Panics s' \<and>
    Getattr sample_env ''/'' zero_Stat s' = Blocks"
proof -
  let ?s = "NewDsfs (MapDB [(''/n'', sample_tx\<lparr>tx_Size := - 1\<rparr>)]) ''t'' ''d'' ''memory'' :: Tx gomap Dsfs"
  have "\<not> fs_locked ?s" "fs_cacheType ?s = ''memory''" "go_get (fs_open ?s) ''/n'' = None"
    "get sample_env ?s ''/n'' = Some (sample_tx\<lparr>tx_Size := - 1\<rparr>)" "tx_Type (sample_tx\<lparr>tx_Size := - 1\<rparr>) \<noteq> FolderType"
    by (simp_all add: NewDsfs_def get_def db_Get_def map_Get_def go_get_def)
  from negative_size_locks_all [OF this] show ?thesis by auto
qed

end
