(* ===== verification/SessionSpec.thy ===== *)
theory SessionSpec
  imports BlockTransfer Listing Machine
begin

text \<open>
  What a file system promises to one client, as a function on a tree of folders and regular
  files (\<open>spec\<close>), and what this program does for one (\<open>serve\<close>): a call, followed by the
  goroutines it starts, run to their end. \<open>tree_of\<close> is the tree that a state of the program
  stands for. That the two agree is shown in the theory \<open>Session\<close>.
\<close>

section \<open>Calls and answers\<close>

datatype fs_call =
    CMknod string Time Time
  | CMkdir string
  | COpen string
  | CUnlink string
  | CRmdir string
  | CRename string string
  | CGetattr string
  | CReaddir string
  | CTruncate string int Time
  | CRead string nat int
  | CWrite string bytes int Time
  | CRelease string

text \<open>A mode and a size stand for the attributes; a listing is a set of names with them.\<close>

type_synonym attr = "32 word \<times> int"

datatype answer =
    Code int
  | Attr int "attr option"
  | Entries int "(string \<times> attr option) set"
  | Data int bytes

section \<open>The specification\<close>

text \<open>It is what one expects, but for the error of an \<open>Open\<close> without a file, which is the code's.\<close>

datatype node = Folder | Regular bytes

type_synonym tree = "string \<rightharpoonup> node"

fun node_attr :: "node \<Rightarrow> attr" where
  "node_attr Folder = (S_IFDIR OR mode_777, 0)"
| "node_attr (Regular b) = (S_IFREG OR mode_777, int (length b))"

text \<open>The entries of a folder: the two dots, and a last component for each name in it.\<close>

definition spec_entries :: "bool \<Rightarrow> string \<Rightarrow> tree \<Rightarrow> (string \<times> attr option) set" where
  "spec_entries win p t = {(''.'', Some (node_attr Folder)), (''..'', None)} \<union>
     {(filepath_Base win k, Some (node_attr n)) | k n. t k = Some n \<and> k \<noteq> p \<and> getDir win k = p}"

definition has_children :: "bool \<Rightarrow> string \<Rightarrow> tree \<Rightarrow> bool" where
  "has_children win p t \<longleftrightarrow> (\<exists>k. t k \<noteq> None \<and> k \<noteq> p \<and> getDir win k = p)"

text \<open>A write that begins in the file or at its end, and what a read returns.\<close>

definition splice :: "bytes \<Rightarrow> nat \<Rightarrow> bytes \<Rightarrow> bytes" where
  "splice b ofst data = take ofst b @ data @ drop (ofst + length data) b"

definition slice :: "bytes \<Rightarrow> nat \<Rightarrow> nat \<Rightarrow> bytes" where
  "slice b ofst n = take n (drop ofst b)"

fun spec :: "bool \<Rightarrow> fs_call \<Rightarrow> tree \<Rightarrow> answer \<times> tree" where
  "spec win (CMknod p t1 t2) t =
     (if t p \<noteq> None then (Code (- EEXIST), t)
      else if t (getDir win p) = None then (Code (- ENOENT), t)
      else (Code 0, t(p \<mapsto> Regular [])))"
| "spec win (CMkdir p) t =
     (if t p \<noteq> None then (Code (- EEXIST), t)
      else if t (getDir win p) = None then (Code (- ENOENT), t)
      else (Code 0, t(p \<mapsto> Folder)))"
| "spec win (COpen p) t = (if t p = None then (Code (- EEXIST), t) else (Code 0, t))"
| "spec win (CUnlink p) t = (case t p of
     None \<Rightarrow> (Code (- ENOENT), t)
   | Some Folder \<Rightarrow> (Code (- EISDIR), t)
   | Some (Regular b) \<Rightarrow> (Code 0, t(p := None)))"
| "spec win (CRmdir p) t = (case t p of
     None \<Rightarrow> (Code (- ENOENT), t)
   | Some (Regular b) \<Rightarrow> (Code (- ENOTDIR), t)
   | Some Folder \<Rightarrow> if has_children win p t then (Code (- ENOTEMPTY), t) else (Code 0, t(p := None)))"
| "spec win (CRename p q) t = (case t p of
     None \<Rightarrow> (Code (- ENOENT), t)
   | Some n \<Rightarrow> (Code 0, t(q \<mapsto> n, p := None)))"
| "spec win (CGetattr p) t = (case t p of
     None \<Rightarrow> (Attr (- ENOENT) None, t)
   | Some n \<Rightarrow> (Attr 0 (Some (node_attr n)), t))"
| "spec win (CReaddir p) t = (Entries 0 (spec_entries win p t), t)"
| "spec win (CTruncate p sz now) t = (case t p of
     Some (Regular b) \<Rightarrow> (Code 0, t(p \<mapsto> Regular (b @ replicate (nat sz - length b) zero_byte)))
   | _ \<Rightarrow> (Code (- ENOENT), t))"
| "spec win (CRead p n ofst) t = (case t p of
     Some (Regular b) \<Rightarrow> (let d = slice b (nat ofst) n in (Data (int (length d)) d, t))
   | _ \<Rightarrow> (Data (- ENOENT) [], t))"
| "spec win (CWrite p data ofst now) t = (case t p of
     Some (Regular b) \<Rightarrow> (Code (int (length data)), t(p \<mapsto> Regular (splice b (nat ofst) data)))
   | _ \<Rightarrow> (Code (- ENOENT), t))"
| "spec win (CRelease p) t = (case t p of Some (Regular b) \<Rightarrow> (Code 0, t) | _ \<Rightarrow> (Code (- ENOENT), t))"

section \<open>The program\<close>

fun run_jobs :: "'t env \<Rightarrow> net \<Rightarrow> job list \<Rightarrow> 't Dsfs \<Rightarrow> 't Dsfs option" where
  "run_jobs E net [] s = Some s"
| "run_jobs E net (j # js) s = (case run_job E net j s of Ret s' u js' \<Rightarrow> run_jobs E net js s' | _ \<Rightarrow> None)"

definition finish :: "'t env \<Rightarrow> net \<Rightarrow> ('r \<Rightarrow> answer) \<Rightarrow> ('t Dsfs, 'r, job) outcome \<Rightarrow> (answer \<times> 't Dsfs) option" where
  "finish E net f out = (case out of
     Ret s r js \<Rightarrow> map_option (\<lambda>s'. (f r, s')) (run_jobs E net js s)
   | _ \<Rightarrow> None)"

definition attr_answer :: "int \<times> Stat_t \<Rightarrow> answer" where
  "attr_answer r = (case r of (res, st) \<Rightarrow>
     Attr res (if res = 0 then Some (st_Mode st, st_Size st) else None))"

definition entry_of :: "fill_call \<Rightarrow> string \<times> attr option" where
  "entry_of c = (case c of (name, st, ofst) \<Rightarrow> (name, map_option (\<lambda>st. (st_Mode st, st_Size st)) st))"

definition data_answer :: "int \<times> bytes \<Rightarrow> answer" where
  "data_answer r = (case r of (n, buff) \<Rightarrow> Data n (take (nat n) buff))"

text \<open>A read finds the buffer filled with zeros; no other goroutine runs while it waits.\<close>

fun serve :: "'t env \<Rightarrow> net \<Rightarrow> fs_call \<Rightarrow> 't Dsfs \<Rightarrow> (answer \<times> 't Dsfs) option" where
  "serve E net (CMknod p t1 t2) s = finish E net Code (Mknod E t1 t2 p s)"
| "serve E net (CMkdir p) s = finish E net Code (Mkdir E p s)"
| "serve E net (COpen p) s = finish E net (\<lambda>(res, fh). Code res) (Open E p s)"
| "serve E net (CUnlink p) s = finish E net Code (Unlink E p s)"
| "serve E net (CRmdir p) s = finish E net Code (Rmdir E p s)"
| "serve E net (CRename p q) s = finish E net Code (Rename E p q s)"
| "serve E net (CGetattr p) s = finish E net attr_answer (Getattr E p zero_Stat s)"
| "serve E net (CReaddir p) s = finish E net (\<lambda>(res, fills). Entries res (entry_of ` set fills)) (Readdir E p s)"
| "serve E net (CTruncate p sz now) s = finish E net Code (fs_Truncate E now p sz s)"
| "serve E net (CRead p n ofst) s =
     finish E net data_answer (Read E (\<lambda>k f. f) p (replicate n zero_byte) ofst s)"
| "serve E net (CWrite p data ofst now) s = finish E net Code (Write E now p data ofst s)"
| "serve E net (CRelease p) s = finish E net Code (Release E p s)"

section \<open>The tree of a state\<close>

definition tree_of :: "'t env \<Rightarrow> 't Dsfs \<Rightarrow> tree" where
  "tree_of E s p = (case content s p of
     Some b \<Rightarrow> Some (Regular b)
   | None \<Rightarrow> map_option (\<lambda>k. Folder) (stored E s p))"

text \<open>Between two calls of a lone client no lock is taken and no upload runs.\<close>

definition quiet :: "'t Dsfs \<Rightarrow> bool" where
  "quiet s \<longleftrightarrow> \<not> fs_locked s \<and> (\<forall>f \<in> set (fs_heap s). fd_lock f = Free \<and> \<not> fd_syncing f)"

text \<open>
  The states of a session: the names are a tree, every file is open and its bytes are all
  there, as they are when the client has created them.
\<close>

definition session_ok :: "'t env \<Rightarrow> 't Dsfs \<Rightarrow> bool" where
  "session_ok E s \<longleftrightarrow> env_ok E \<and> fs_ok E s \<and> quiet s \<and> types_ok E s \<and> tree_ok E s \<and> GetNewCache s \<noteq> None \<and>
     (\<forall>p. stored E s p = Some AFile \<longrightarrow> is_open s p) \<and>
     (\<forall>p. is_open s p \<longrightarrow> wf_path p \<and> stored E s (getDir (env_win E) p) = Some AFolder \<and>
        stored E s p \<noteq> Some AFolder \<and> ids_ok (get E s p)) \<and>
     (\<forall>p b. content s p = Some b \<longrightarrow> {0..<int (length b)} \<subseteq> ready s p)"

text \<open>
  The calls that are followed. What FUSE checks: paths are clean, parents are no files, a
  folder is not replaced by a file. The transactions of folders, deletions and renamed files
  fit a message. What the program gets wrong, and is shown elsewhere: a write that leaves a
  hole (\<open>read_of_hole\<close>), a truncation that shrinks (\<open>truncate_panic_deadlocks\<close>), a read behind
  the end (\<open>grown_read_panics\<close>), the removal of a folder that is not empty but whose files are
  not stored yet, or that is empty while another name has its path as a prefix
  (\<open>rmdir_result\<close>). Renaming a folder is left out.
\<close>

fun admissible :: "'t env \<Rightarrow> fs_call \<Rightarrow> 't Dsfs \<Rightarrow> bool" where
  "admissible E (CMknod p t1 t2) s \<longleftrightarrow> wf_path p \<and> (\<forall>b. tree_of E s (getDir (env_win E) p) \<noteq> Some (Regular b))"
| "admissible E (CMkdir p) s \<longleftrightarrow> wf_path p \<and> fits E (folderTx p) \<and> content s p = None \<and>
     content s (getDir (env_win E) p) = None"
| "admissible E (COpen p) s \<longleftrightarrow> True"
| "admissible E (CUnlink p) s \<longleftrightarrow> fits E (createDeleteTx p)"
| "admissible E (CRmdir p) s \<longleftrightarrow> p \<noteq> [slash] \<and> fits E (createDeleteTx p) \<and> content s p = None \<and>
     ((\<forall>q. q \<noteq> p \<and> tree_of E s q \<noteq> None \<longrightarrow> \<not> prefix p q) \<or>
      (\<exists>q. stored E s q \<noteq> None \<and> q \<noteq> p \<and> getDir (env_win E) q = p))"
| "admissible E (CRename p q) s \<longleftrightarrow> content s p \<noteq> None \<and> p \<noteq> q \<and> wf_path q \<and>
     tree_of E s (getDir (env_win E) q) = Some Folder \<and> tree_of E s q \<noteq> Some Folder \<and>
     fits E (createDeleteTx p) \<and> (\<forall>tx. get E s p = Some tx \<longrightarrow> fits E (tx\<lparr>tx_Path := q\<rparr>))"
| "admissible E (CGetattr p) s \<longleftrightarrow> True"
| "admissible E (CReaddir p) s \<longleftrightarrow> True"
| "admissible E (CTruncate p sz now) s \<longleftrightarrow> (\<exists>b. content s p = Some b \<and> int (length b) \<le> sz \<and> i64 (int (length b) + sz))"
| "admissible E (CRead p n ofst) s \<longleftrightarrow> (\<exists>b. content s p = Some b \<and> 0 \<le> ofst \<and> ofst < int (length b))"
| "admissible E (CWrite p data ofst now) s \<longleftrightarrow> (\<exists>b. content s p = Some b \<and> 0 \<le> ofst \<and>
     ofst \<le> int (length b) \<and> i64 (ofst + int (length data)))"
| "admissible E (CRelease p) s \<longleftrightarrow> (\<exists>b. content s p = Some b \<and> uploadable b)"

end
