(* ===== verification/Session.thy ===== *)
theory Session
  imports SessionSpec NameTree FileTruncate
begin

text \<open>
  The program keeps its promise to a lone client: for every call that is followed
  (\<open>admissible\<close>), \<open>serve\<close> answers as \<open>spec\<close> does on the tree of the state, and the new state
  stands for the new tree.
\<close>

section \<open>States of a session\<close>

lemma session_okD:
  assumes "session_ok E s"
  shows "env_ok E" "fs_ok E s" "quiet s" "types_ok E s" "tree_ok E s" "GetNewCache s \<noteq> None"
    and "stored E s p = Some AFile \<Longrightarrow> is_open s p"
    and "is_open s p \<Longrightarrow> wf_path p" "is_open s p \<Longrightarrow> stored E s p \<noteq> Some AFolder"
    and "is_open s p \<Longrightarrow> ids_ok (get E s p)"
    and "content s p = Some b \<Longrightarrow> {0..<int (length b)} \<subseteq> ready s p"
    and "is_open s p \<Longrightarrow> stored E s (getDir (env_win E) p) = Some AFolder"
  using assms by (simp_all add: session_ok_def)

lemma content_open: "content s p \<noteq> None \<longleftrightarrow> is_open s p" "content s p = None \<longleftrightarrow> \<not> is_open s p"
  by (simp_all add: content_def is_open_def)

lemma content_openE:
  assumes "is_open s p"
  obtains b r where "content s p = Some b" "go_get (fs_open s) p = Some r"
  using assms by (auto simp: content_def is_open_def)

lemma stored_kinds:
  assumes "session_ok E s"
  shows "stored E s p = (if is_open s p then (if get E s p = None then None else Some AFile)
    else if get E s p = None then None else Some AFolder)"
proof -
  have "stored E s p \<noteq> Some (if is_open s p then AFolder else AFile)"
    using session_okD(7,9) [OF assms, of p] by auto
  then show ?thesis by (cases "get E s p") (auto simp: stored_def kind_of_def split: if_splits)
qed

lemma tree_of_cases:
  assumes "session_ok E s"
  shows "tree_of E s p = Some (Regular b) \<longleftrightarrow> content s p = Some b"
    and "tree_of E s p = Some Folder \<longleftrightarrow> stored E s p = Some AFolder"
    and "tree_of E s p = None \<longleftrightarrow> visible E s p = None"
  using stored_kinds [OF assms, of p] content_open [of s p]
  by (auto simp: tree_of_def visible_def simp del: stored_iff split: option.splits if_splits)

lemma session_visible:
  assumes "session_ok E s"
  shows "visible E s p = (case tree_of E s p of None \<Rightarrow> None | Some Folder \<Rightarrow> Some AFolder | Some (Regular b) \<Rightarrow> Some AFile)"
  using stored_kinds [OF assms, of p] content_open [of s p]
  by (auto simp: tree_of_def visible_def simp del: stored_iff split: option.splits if_splits)

lemma content_tree:
  assumes "session_ok E s"
  shows "content s p = (case tree_of E s p of Some (Regular b) \<Rightarrow> Some b | _ \<Rightarrow> None)"
  by (simp add: tree_of_def split: option.split)

text \<open>A quiet state: what is open can be used, and no upload runs.\<close>

lemma quiet_file:
  assumes "quiet s" "fs_ok E s" "go_get (fs_open s) p = Some r"
  shows "fd_lock (file_at s r) = Free" "\<not> fd_syncing (file_at s r)"
  using assms fs_okD(4) [OF assms(2,3)] by (simp_all add: quiet_def file_at_def)

lemma quiet_usable:
  assumes "quiet s" "fs_ok E s" "is_open s p"
  shows "usable s p" "\<not> syncing s p"
  using assms quiet_file [OF assms(1,2)] by (auto simp: usable_def syncing_def is_open_def quiet_def)

lemma quiet_set_file:
  "quiet s \<Longrightarrow> fd_lock f = Free \<Longrightarrow> \<not> fd_syncing f \<Longrightarrow> quiet (set_file s r f)"
  using set_update_subset_insert [of "fs_heap s" r f] by (auto simp: quiet_def set_file_def)

lemma quiet_simps [simp]:
  "quiet (s\<lparr>fs_db := d\<rparr>) = quiet s" "quiet (s\<lparr>fs_open := m\<rparr>) = quiet s"
  "quiet (move_open s a b) = quiet s"
  "quiet (open_new s p (fresh_file c t1 t2)) = quiet s"
  by (auto simp: quiet_def move_open_def open_new_def fresh_file_def split: option.splits)

lemma config_simps [simp]:
  "GetNewCache (s\<lparr>fs_db := d\<rparr>) = GetNewCache s" "GetNewCache (s\<lparr>fs_open := m\<rparr>) = GetNewCache s"
  "GetNewCache (move_open s a b) = GetNewCache s" "GetNewCache (open_new s p f) = GetNewCache s"
  "GetNewCache (set_file s r f) = GetNewCache s"
  by (auto simp: GetNewCache_def move_open_def open_new_def set_file_def split: option.splits)

section \<open>Goroutines that only send\<close>

definition sends :: "job \<Rightarrow> bool" where
  "sends j \<longleftrightarrow> (case j of SendTx b \<Rightarrow> True | SendTxs b c \<Rightarrow> True | _ \<Rightarrow> False)"

lemma run_jobs_sends: "list_all sends js \<Longrightarrow> run_jobs E net js s = Some s"
  by (induction js) (auto simp: sends_def run_job_def start_job_def split: job.splits)

lemma finish_sends: "list_all sends js \<Longrightarrow> finish E net f (Ret s r js) = Some (f r, s)"
  by (simp add: finish_def run_jobs_sends)

lemma sends_simps [simp]: "sends (SendTx b)" "sends (SendTxs b c)"
  by (simp_all add: sends_def)

section \<open>Calls that change one file\<close>

lemma session_file:
  assumes "session_ok E s" "fs_ok E s'" "quiet s'" "fs_open s' = fs_open s" "fs_db s' = fs_db s"
    and "GetNewCache s' = GetNewCache s" "is_open s p" "content s' = (content s)(p \<mapsto> b)"
    and "{0..<int (length b)} \<subseteq> ready s' p" "\<And>q. q \<noteq> p \<Longrightarrow> ready s' q = ready s q"
  shows "session_ok E s' \<and> tree_of E s' = (tree_of E s)(p \<mapsto> Regular b)"
proof -
  note d = same_db [OF assms(5), of E]
  have g: "get E s' = get E s" using assms(5) by (simp add: get_def fun_eq_iff)
  have o: "is_open s' = is_open s" using assms(4) by (simp add: is_open_def fun_eq_iff)
  have "{0..<int (length c)} \<subseteq> ready s' q" if "content s' q = Some c" for q c
    using that assms(8-10) session_okD(11) [OF assms(1), of q c] by (cases "q = p") auto
  then have "session_ok E s'"
    using assms(1-3,6) d o unfolding session_ok_def g by simp
  moreover have "tree_of E s' = (tree_of E s)(p \<mapsto> Regular b)"
    using d(1) assms(8) by (simp add: tree_of_def fun_eq_iff cong: option.case_cong)
  ultimately show ?thesis ..
qed

text \<open>A method that leaves its file's locks and flags alone.\<close>

definition calm :: "'t Dsfs \<Rightarrow> 't Dsfs \<Rightarrow> bool" where
  "calm s s' \<longleftrightarrow> quiet s' \<and> fs_open s' = fs_open s \<and> GetNewCache s' = GetNewCache s"

lemma calm_file:
  assumes "quiet s" "fs_ok E s" "go_get (fs_open s) p = Some r"
    and "fd_lock f = fd_lock (file_at s r)" "fd_syncing f = fd_syncing (file_at s r)"
  shows "calm s (set_file s r f)"
  using assms quiet_file [OF assms(1-3)] by (simp add: calm_def quiet_set_file)

lemma read_wait_flags:
  "read_wait sf (\<lambda>k f. f) len ofst k f = Ready g n \<or> read_wait sf (\<lambda>k f. f) len ofst k f = GaveUp g \<Longrightarrow>
   fd_lock g = fd_lock f \<and> fd_syncing g = fd_syncing f"
proof (induction "MaxRetries - k" arbitrary: k f)
  case 0
  then show ?case using read_wait.simps [of sf "\<lambda>k f. f" len ofst k f]
    by (auto simp: Let_def split: if_splits prod.splits)
next
  case (Suc d)
  obtain l m where b: "bytesReady sf (fd_load f) ofst = (l, m)" by fastforce
  have "d = MaxRetries - Suc k" using Suc.hyps(2) by simp
  then show ?case
    using Suc.prems Suc.hyps(1) [of "Suc k" "f\<lparr>fd_load := l\<rparr>"] b
      read_wait.simps [of sf "\<lambda>k f. f" len ofst k f]
    by (auto simp: Let_def split: if_splits)
qed

lemma calm_methods:
  assumes "quiet s" "fs_ok E s" "is_open s p"
  shows "Write E now p buff ofst s = Ret s' n js \<Longrightarrow> calm s s'"
    and "fs_Truncate E now p sz s = Ret s' res js \<Longrightarrow> calm s s'"
    and "Read E (\<lambda>k f. f) p buff ofst s = Ret s' (n, buff') js \<Longrightarrow> calm s s'"
proof -
  obtain r where r: "go_get (fs_open s) p = Some r" using assms(3) by (auto simp: is_open_def)
  note c = calm_file [OF assms(1,2) r]
  have same: "calm s s" using assms(1) by (simp add: calm_def)
  show "Write E now p buff ofst s = Ret s' n js \<Longrightarrow> calm s s'"
    using r by (auto simp: Write_def Let_def intro!: c split: option.splits prod.splits if_splits)
  show "fs_Truncate E now p sz s = Ret s' res js \<Longrightarrow> calm s s'"
    using r same by (auto simp: fs_Truncate_def Let_def intro!: c split: option.splits if_splits)
  show "Read E (\<lambda>k f. f) p buff ofst s = Ret s' (n, buff') js \<Longrightarrow> calm s s'"
    using r read_wait_flags [of "env_sort E" "int (length buff)" ofst 0 "file_at s r"]
    by (auto simp: Read_def intro!: c split: option.splits wait.splits if_splits)
qed

lemma session_calm:
  assumes "session_ok E s" "fs_ok E s'" "calm s s'" "fs_db s' = fs_db s" "is_open s p"
    and "content s' = (content s)(p \<mapsto> b)" "ready s' = (ready s)(p := R)" "{0..<int (length b)} \<subseteq> R"
  shows "session_ok E s' \<and> tree_of E s' = (tree_of E s)(p \<mapsto> Regular b)"
  by (rule session_file [OF assms(1,2)]) (use assms in \<open>auto simp: calm_def\<close>)

section \<open>Each call refines its specification\<close>

definition refined :: "'t env \<Rightarrow> net \<Rightarrow> fs_call \<Rightarrow> 't Dsfs \<Rightarrow> bool" where
  "refined E net c s \<longleftrightarrow> (\<exists>a s'. serve E net c s = Some (a, s') \<and> session_ok E s' \<and>
     spec (env_win E) c (tree_of E s) = (a, tree_of E s'))"

lemma refinedI:
  "serve E net c s = Some (a, s') \<Longrightarrow> session_ok E s' \<Longrightarrow>
   spec (env_win E) c (tree_of E s) = (a, tree_of E s') \<Longrightarrow> refined E net c s"
  by (auto simp: refined_def)

lemma finish_none [simp]: "finish E net f (Ret s r []) = Some (f r, s)"
  by (simp add: finish_def)

lemma write_splice:
  assumes "ofst \<le> length b"
  shows "write_bytes b ofst data = splice b ofst data"
proof (rule nth_equalityI)
  show len: "length (write_bytes b ofst data) = length (splice b ofst data)"
    using assms by (auto simp: splice_def)
  fix i assume "i < length (write_bytes b ofst data)"
  then show "write_bytes b ofst data ! i = splice b ofst data ! i"
    using nth_write_bytes [of i b ofst data] assms by (auto simp: splice_def nth_append)
qed

lemma session_content:
  assumes "session_ok E s" "content s p = Some b"
  shows "usable s p" "\<not> syncing s p" "is_open s p" "tree_of E s p = Some (Regular b)" "{0..<int (length b)} \<subseteq> ready s p"
proof -
  show o: "is_open s p" using assms(2) content_open [of s p] by simp
  show "usable s p" "\<not> syncing s p" using quiet_usable [OF session_okD(3,2) [OF assms(1)] o] .
  show "tree_of E s p = Some (Regular b)" "{0..<int (length b)} \<subseteq> ready s p"
    using tree_of_cases(1) [OF assms(1)] session_okD(11) [OF assms(1)] assms(2) by simp_all
qed

lemma refined_CWrite:
  assumes "session_ok E s" "admissible E (CWrite p data ofst now) s"
  shows "refined E net (CWrite p data ofst now) s"
proof -
  obtain b where b: "content s p = Some b" "0 \<le> ofst" "ofst \<le> int (length b)" "i64 (ofst + int (length data))"
    using assms(2) by auto
  note c = session_content [OF assms(1) b(1)]
  obtain s' where w: "Write E now p data ofst s = Ret s' (int (length data)) []" "fs_ok E s'" "fs_db s' = fs_db s"
    "content s' = (content s)(p := map_option (\<lambda>b. write_bytes b (nat ofst) data) (content s p))"
    "ready s' = (ready s)(p := ready s p \<union> {ofst..<ofst + int (length data)})"
    using Write_view [OF session_okD(1,2) [OF assms(1)] c(1) b(2,4), of now] by blast
  have "write_bytes b (nat ofst) data = splice b (nat ofst) data" using b(2,3) by (intro write_splice) simp
  then have w4: "content s' = (content s)(p \<mapsto> splice b (nat ofst) data)" using w(4) b(1) by simp
  have "{0..<int (length (splice b (nat ofst) data))} \<subseteq> ready s p \<union> {ofst..<ofst + int (length data)}"
    using b(2,3) by (auto simp: splice_def intro!: subsetD [OF c(5)])
  from session_calm [OF assms(1) w(2) calm_methods(1) [OF session_okD(3,2) [OF assms(1)] c(3) w(1)] w(3) c(3) w4 w(5) this]
  show ?thesis using w(1) c(4) by (intro refinedI [of _ _ _ _ "Code (int (length data))" s']) simp_all
qed

lemma refined_CTruncate:
  assumes "session_ok E s" "admissible E (CTruncate p sz now) s"
  shows "refined E net (CTruncate p sz now) s"
proof -
  obtain b where b: "content s p = Some b" "int (length b) \<le> sz" "i64 (int (length b) + sz)"
    using assms(2) by auto
  note c = session_content [OF assms(1) b(1)] and ok = session_okD(1-3) [OF assms(1)]
  show ?thesis
  proof (cases "sz = int (length b)")
    case True
    then have "fs_Truncate E now p sz s = Ret s 0 []" using truncate_same [OF c(1) b(1) ok(2)] by simp
    then show ?thesis
      using True c(4) assms(1) by (intro refinedI [of _ _ _ _ "Code 0" s]) (simp_all add: fun_upd_idem)
  next
    case False
    then have lt: "int (length b) < sz" "i64 sz" using b(2,3) by (auto simp: i64_def)
    obtain s' where t: "fs_Truncate E now p sz s = Ret s' 0 []" "fs_ok E s'"
      "content s' = (content s)(p \<mapsto> b @ replicate (nat sz - length b) zero_byte)"
      "ready s' = (ready s)(p := ready s p \<union> {int (length b)..<add64 (int (length b)) sz})"
      using truncate_grows [OF ok(1,2) c(1) b(1) lt, of now] by blast
    have "{0..<int (length (b @ replicate (nat sz - length b) zero_byte))} \<subseteq>
        ready s p \<union> {int (length b)..<add64 (int (length b)) sz}"
      using c(5) lt(1) b(3) by (auto simp: i64_simps)
    from session_calm [OF assms(1) t(2) calm_methods(2) [OF ok(3,2) c(3) t(1)] _ c(3) t(3,4) this]
    show ?thesis using t(1) c(4) keeps_db(3) [OF t(1)] by (intro refinedI [of _ _ _ _ "Code 0" s']) simp_all
  qed
qed

lemma take_length_take: "take (length (take k xs)) xs = take k xs"
  by (cases "k \<le> length xs") simp_all

lemma refined_CRead:
  assumes "session_ok E s" "admissible E (CRead p k ofst) s"
  shows "refined E net (CRead p k ofst) s"
proof -
  obtain b where b: "content s p = Some b" "0 \<le> ofst" "ofst < int (length b)" using assms(2) by auto
  note c = session_content [OF assms(1) b(1)] and ok = session_okD(1-3) [OF assms(1)]
  have at: "ofst \<in> ready s p" using b(2,3) c(5) by auto
  let ?buff = "replicate k zero_byte" and ?d = "slice b (nat ofst) k"
  obtain s' n buff' where r: "Read E (\<lambda>k f. f) p ?buff ofst s = Ret s' (clip_ready (int (length b)) ofst (int (length ?buff)) n, buff') []"
    "0 < n" "ofst + n \<notin> ready s p" "content s' = content s" "ready s' = ready s" "fs_db s' = fs_db s"
    "buff' = go_copy ?buff (sub_slice b (nat ofst) (nat (ofst + clip_ready (int (length b)) ofst (int (length ?buff)) n)))"
    using Read_ready [OF ok(1,2) c(1) b(1,2,3) at, of "\<lambda>k f. f" ?buff] by blast
  have "int (length b) \<le> ofst + n" using r(2,3) b(2) subsetD [OF c(5), of "ofst + n"] by fastforce
  then have m: "clip_ready (int (length b)) ofst (int (length ?buff)) n = int (length ?d)"
    using b(2,3) by (auto simp: clip_ready_def slice_def)
  have "nat (ofst + int (length ?d)) = nat ofst + length ?d" using b(2) by simp
  then have "sub_slice b (nat ofst) (nat (ofst + int (length ?d))) = ?d"
    using take_length_take [of k "drop (nat ofst) b"] by (simp add: sub_slice_def slice_def)
  then have "take (length ?d) buff' = ?d" using r(7) m by (simp add: take_drop_go_copy(1) slice_def)
  then have ans: "serve E net (CRead p k ofst) s = Some (Data (int (length ?d)) ?d, s')"
    using r(1) m by (simp add: data_answer_def)
  have s': "fs_ok E s'" using Read_ok [OF ok(1,2), of "\<lambda>k f. f" p ?buff ofst] r(1) by (simp add: bg_ok_def)
  have same: "content s' = (content s)(p \<mapsto> b)" "ready s' = (ready s)(p := ready s p)"
    using r(4,5) b(1) by (simp_all add: fun_upd_idem)
  from session_calm [OF assms(1) s' calm_methods(3) [OF ok(3,2) c(3) r(1)] r(6) c(3) same c(5)]
  show ?thesis using c(4) by (intro refinedI [OF ans]) (simp_all add: Let_def fun_upd_idem)
qed

section \<open>Release and its upload\<close>

text \<open>A state whose database alone has changed, or its open names too.\<close>

lemma session_okI:
  assumes "session_ok E s" "fs_ok E s'" "quiet s'" "types_ok E s'" "tree_ok E s'" "GetNewCache s' = GetNewCache s"
    and "\<And>p. stored E s' p = Some AFile \<Longrightarrow> is_open s' p"
    and "\<And>p. is_open s' p \<Longrightarrow> wf_path p \<and> stored E s' (getDir (env_win E) p) = Some AFolder \<and>
        stored E s' p \<noteq> Some AFolder \<and> ids_ok (get E s' p)"
    and "\<And>p b. content s' p = Some b \<Longrightarrow> {0..<int (length b)} \<subseteq> ready s' p"
  shows "session_ok E s'"
  unfolding session_ok_def using session_okD(1,6) [OF assms(1)] assms(2-9) by auto

lemma session_stores:
  assumes "session_ok E s" "is_open s p" "tx_ok tx" "tx_Type tx = FileType" "ids_ok (Some tx)"
  defines "s' \<equiv> s\<lparr>fs_db := db_Insert (env_db E) (fs_db s) p tx\<rparr>"
  shows "session_ok E s' \<and> tree_of E s' = tree_of E s"
proof -
  note ok = session_okD [OF assms(1)]
  note db = fs_okD(1) [OF ok(2)]
  have st: "stored E s' = (stored E s)(p \<mapsto> AFile)" and g: "get E s' q = (if q = p then Some tx else get E s q)" for q
    using db assms(4) by (auto simp: s'_def stored_def kind_of_def fun_eq_iff)
  have nf: "stored E s p \<noteq> Some AFolder" using ok(9) assms(2) .
  have par: "((stored E s)(p \<mapsto> AFile)) (getDir (env_win E) q) = Some AFolder"
    if "stored E s (getDir (env_win E) q) = Some AFolder" for q
    using that nf by auto
  have "tree_ok E s'"
    using ok(5) par ok(8,12) [OF assms(2)] nf unfolding tree_ok_def st by (auto simp del: stored_iff)
  moreover have "is_open s' = is_open s" "content s' = content s" "ready s' = ready s"
    by (simp_all add: s'_def fun_eq_iff)
  moreover have "fs_ok E s'" using fs_ok_insert [OF ok(2) assms(3)] by (simp add: s'_def)
  moreover have "types_ok E s'" using ok(4) g assms(4) by (simp add: types_ok_def)
  moreover have "is_open s q" if "stored E s' q = Some AFile" for q
    using that ok(7) [of q] st assms(2) by (cases "q = p") simp_all
  ultimately have "session_ok E s'"
    using ok st g assms(2,5) par nf
    by (intro session_okI [OF assms(1)]) (auto simp: s'_def)
  moreover have "tree_of E s' = tree_of E s"
    using assms(2) content_open [of s p] \<open>content s' = content s\<close> st by (auto simp: tree_of_def fun_eq_iff split: option.split)
  ultimately show ?thesis ..
qed

lemma session_flags:
  assumes "session_ok E s" "content s p = Some b" "go_get (fs_open s) p = Some r"
    and "cache_ok (env_cache E) c" "cache_bytes c = b"
  defines "s' \<equiv> set_file s r ((file_at s r)\<lparr>fd_cache := c, fd_dirty := False, fd_syncing := False\<rparr>)"
  shows "session_ok E s' \<and> tree_of E s' = tree_of E s"
proof -
  note ok = session_okD(1-3) [OF assms(1)] and c = session_content [OF assms(1,2)]
  let ?f = "(file_at s r)\<lparr>fd_cache := c, fd_dirty := False, fd_syncing := False\<rparr>"
  note q = quiet_file [OF ok(3,2) assms(3)]
  note v = set_flags_view [OF ok(2) c(1) assms(2,3), of ?f]
  have v': "fs_ok E s'" "content s' = (content s)(p \<mapsto> b)" "ready s' = (ready s)(p := ready s p)"
    using v assms(2,4,5) q(1) by (simp_all add: s'_def fun_upd_idem)
  have "calm s s'" unfolding s'_def by (rule calm_file [OF ok(3,2) assms(3)]) (simp_all add: q)
  from session_calm [OF assms(1) v'(1) this _ c(3) v'(2,3) c(5)] show ?thesis
    using c(4) by (simp add: s'_def fun_upd_idem)
qed

lemma refined_CRelease:
  assumes "session_ok E s" "admissible E (CRelease p) s"
  shows "refined E net (CRelease p) s"
proof -
  obtain b where b: "content s p = Some b" "uploadable b" using assms(2) by auto
  note c = session_content [OF assms(1) b(1)] and ok = session_okD(1-3) [OF assms(1)]
  have sp: "spec (env_win E) (CRelease p) (tree_of E s) = (Code 0, tree_of E s)" using c(4) by simp
  show ?thesis
  proof (cases "dirty s p")
    case False
    then show ?thesis using Release_clean [OF c(1)] assms(1) sp by (intro refinedI [of _ _ _ _ "Code 0" s]) simp_all
  next
    case True
    obtain r where r: "go_get (fs_open s) p = Some r" "\<not> fs_locked s" using c(1) by (rule usableE)
    let ?f = "file_at s r" and ?old = "get E s p"
    let ?s' = "\<lambda>c. set_file s r (?f\<lparr>fd_cache := c, fd_dirty := False, fd_syncing := False\<rparr>)"
    obtain k s1 where k: "cache_ok (env_cache E) k" "cache_bytes k = b"
      "run_job E net (Upload r p (releaseTx p ?f) ?old) s = Ret s1 () []"
      "s1 = ?s' k \<or> (\<exists>fids. upload_ids E net ?old b [0..<n_blocks b] = Some fids \<and>
         s1 = (?s' k)\<lparr>fs_db := db_Insert (env_db E) (fs_db s) p (uploadedTx E p ?f b fids)\<rparr>)"
      using run_upload_job [OF ok(2) c(1) b(1) r(1) c(2) b(2) session_okD(10) [OF assms(1) c(3)], of net]
      by (auto simp: Let_def split: option.splits if_splits)
    note fl = session_flags [OF assms(1) b(1) r(1) k(1,2)]
    have "session_ok E s1 \<and> tree_of E s1 = tree_of E s"
      using k(4)
    proof (elim disjE exE conjE)
      fix fids
      assume u: "upload_ids E net ?old b [0..<n_blocks b] = Some fids"
        "s1 = (?s' k)\<lparr>fs_db := db_Insert (env_db E) (fs_db s) p (uploadedTx E p ?f b fids)\<rparr>"
      let ?tx = "uploadedTx E p ?f b fids"
      have "cache_ok (env_cache E) (fd_cache ?f)" using fs_okD(5) [OF ok(2) r(1)] by (simp add: file_ok_def)
      then have "tx_ok ?tx" using Size_ok by (simp add: uploadedTx_def releaseTx_def tx_ok_def)
      moreover have "ids_ok (Some ?tx)" using upload_ids_length [OF u(1)] by (simp add: ids_ok_def uploadedTx_def)
      moreover have "tx_Type ?tx = FileType" by (simp add: uploadedTx_def releaseTx_def)
      moreover have "is_open (?s' k) p" using c(3) by (simp add: is_open_def)
      ultimately show ?thesis using session_stores [of E "?s' k" p ?tx] fl u(2) by simp
    qed (use fl in simp)
    then show ?thesis
      using Release_dirty [OF r(2,1) True, of E] k(3) sp
      by (intro refinedI [of _ _ _ _ "Code 0" s1]) (simp_all add: finish_def)
  qed
qed

section \<open>Looking\<close>

abbreviation attr_pair :: "Stat_t \<Rightarrow> attr" where
  "attr_pair st \<equiv> (st_Mode st, st_Size st)"

lemma attr_of_tree:
  assumes "session_ok E s"
  shows "map_option attr_pair (attr_of E s p) = map_option node_attr (tree_of E s p)"
proof -
  note ok = session_okD(1-3) [OF assms]
  have l: "\<not> fs_locked s" using ok(3) by (simp add: quiet_def)
  show ?thesis
  proof (cases "content s p")
    case (Some b)
    obtain st where "Getattr E p zero_Stat s = Ret s (0, st) []" "st_Size st = int (length b)" "st_Mode st = S_IFREG OR mode_777"
      using Getattr_open [OF ok(2) l Some] by blast
    then show ?thesis using session_content(4) [OF assms Some] by (simp add: attr_of_def)
  next
    case None
    then have o: "\<not> is_open s p" using content_open by blast
    then show ?thesis
      using None stored_kinds [OF assms, of p]
      by (cases "get E s p")
        (auto simp: attr_of_eq [OF l] tree_of_def is_open_def stored_def kind_of_def dir_stat_def zero_Stat_def
          split: if_splits)
  qed
qed

lemma Getattr_attr_of:
  assumes "\<not> fs_locked s"
  shows "\<exists>st. Getattr E p zero_Stat s = Ret s (if attr_of E s p = None then - ENOENT else 0, st) [] \<and>
    (attr_of E s p \<noteq> None \<longrightarrow> attr_of E s p = Some st)"
  using assms by (auto simp: attr_of_eq Getattr_def Let_def ENOENT_def split: option.split)

lemma refined_CGetattr:
  assumes "session_ok E s"
  shows "refined E net (CGetattr p) s"
proof -
  have l: "\<not> fs_locked s" using session_okD(3) [OF assms] by (simp add: quiet_def)
  obtain st where st: "Getattr E p zero_Stat s = Ret s (if attr_of E s p = None then - ENOENT else 0, st) []"
    "attr_of E s p \<noteq> None \<longrightarrow> attr_of E s p = Some st"
    using Getattr_attr_of [OF l] by blast
  have "attr_answer (if attr_of E s p = None then - ENOENT else 0, st) =
      (case tree_of E s p of None \<Rightarrow> Attr (- ENOENT) None | Some n \<Rightarrow> Attr 0 (Some (node_attr n)))"
    using attr_of_tree [OF assms, of p] st(2)
    by (cases "tree_of E s p") (auto simp: attr_answer_def ENOENT_def)
  then show ?thesis
    using st(1) assms by (intro refinedI [of _ _ _ _ _ s]) (auto split: option.split)
qed

lemma names_wf_session:
  assumes "session_ok E s"
  shows "names_wf E s"
proof -
  note ok = session_okD [OF assms]
  have "\<not> is_open s [slash]" using ok(9) tree_okD(1) [OF ok(5)] by blast
  moreover have "wf_path p" if "visible E s p \<noteq> None" for p
    using that ok(8) tree_okD(2) [OF ok(5)] by (auto simp: visible_def simp del: stored_iff split: if_splits)
  ultimately show ?thesis by (simp add: names_wf_def)
qed

lemma refined_CReaddir:
  assumes "session_ok E s"
  shows "refined E net (CReaddir p) s"
proof -
  note ok = session_okD(1-3) [OF assms]
  have l: "\<not> fs_locked s" using ok(3) by (simp add: quiet_def)
  let ?B = "filepath_Base (env_win E)" and ?t = "tree_of E s"
  have keys: "set (list_keys E s p) = {k. ?t k \<noteq> None \<and> k \<noteq> p \<and> getDir (env_win E) k = p}"
    using list_keys_set [OF ok(1,2) names_wf_session [OF assms]] tree_of_cases(3) [OF assms] by auto
  have "entry_of ` (\<lambda>k. (?B k, attr_of E s k, 0)) ` set (list_keys E s p) =
      (\<lambda>k. (?B k, map_option node_attr (?t k))) ` set (list_keys E s p)"
    unfolding image_image entry_of_def by (simp add: attr_of_tree [OF assms])
  also have "\<dots> = {(?B k, Some (node_attr n)) | k n. ?t k = Some n \<and> k \<noteq> p \<and> getDir (env_win E) k = p}"
    unfolding keys by (auto simp: image_iff)
  finally have "entry_of ` set (dot_entries @ map (\<lambda>k. (?B k, attr_of E s k, 0)) (list_keys E s p)) =
      spec_entries (env_win E) p ?t"
    by (simp add: spec_entries_def dot_entries_def entry_of_def dir_stat_def zero_Stat_def)
  then show ?thesis
    using Readdir_parts [OF ok(1,2) l, of p] assms by (intro refinedI [of _ _ _ _ _ s]) simp_all
qed

lemma refined_COpen:
  assumes "session_ok E s"
  shows "refined E net (COpen p) s"
proof -
  have l: "\<not> fs_locked s" using session_okD(3) [OF assms] by (simp add: quiet_def)
  have "Open E p s = Ret s (if tree_of E s p = None then - EEXIST else 0, if tree_of E s p = None then no_handle else 1) []"
  proof (cases "is_open s p")
    case True
    then show ?thesis using l tree_of_cases(3) [OF assms, of p] by (auto simp: Open_def is_open_def visible_def)
  next
    case False
    then show ?thesis
      using l tree_of_cases(3) [OF assms, of p] stored_kinds [OF assms, of p] session_okD(4) [OF assms]
      by (cases "get E s p")
        (auto simp: Open_def is_open_def visible_def stored_def kind_of_def types_ok_def split: if_splits)
  qed
  then show ?thesis using assms by (intro refinedI [of _ _ _ _ _ s]) auto
qed

section \<open>Names\<close>

lemma open_new_view:
  assumes "fs_ok E s"
  shows "content (open_new s p f) = (content s)(p \<mapsto> file_bytes f)"
    and "ready (open_new s p f) = (ready s)(p := file_ready f)"
proof -
  have "content (open_new s p f) q = ((content s)(p \<mapsto> file_bytes f)) q \<and>
      ready (open_new s p f) q = ((ready s)(p := file_ready f)) q" for q
    using fs_okD(4) [OF assms, of q]
    by (cases "go_get (fs_open s) q") (simp_all add: content_def ready_def open_new_def file_at_def nth_append)
  then show "content (open_new s p f) = (content s)(p \<mapsto> file_bytes f)"
    and "ready (open_new s p f) = (ready s)(p := file_ready f)" by (simp_all add: fun_eq_iff)
qed

lemma stored_SomeD: "stored E s p = Some k \<Longrightarrow> get E s p \<noteq> None"
  by (auto simp: stored_def)

lemma tree_of_parent:
  assumes "session_ok E s" "tree_of E s p \<noteq> None"
  shows "stored E s (getDir (env_win E) p) = Some AFolder"
  using assms session_okD(12) [OF assms(1), of p] tree_okD(2) [OF session_okD(5) [OF assms(1)]] tree_of_cases(3) [OF assms(1)]
  by (auto simp: visible_def simp del: stored_iff split: if_splits)

lemma session_creates:
  fixes t1 t2 :: Time
  assumes "session_ok E s" "tree_of E s p = None" "wf_path p" "tree_of E s (getDir (env_win E) p) = Some Folder"
    and "GetNewCache s = Some c"
  defines "s' \<equiv> open_new s p (fresh_file c t1 t2)"
  shows "session_ok E s' \<and> tree_of E s' = (tree_of E s)(p \<mapsto> Regular [])"
proof -
  note ok = session_okD [OF assms(1)]
  have c: "cache_ok (env_cache E) c" "cache_bytes c = []"
    using GetNewCache_ok [OF assms(5) env_okD(2) [OF ok(1)]] by simp_all
  have v: "content s' = (content s)(p \<mapsto> [])" "ready s' = (ready s)(p := {})"
    using open_new_view [OF ok(2)] c(2) by (simp_all add: s'_def fresh_file_def file_bytes_def file_ready_def)
  have p: "stored E s p = None" "\<not> is_open s p"
    using tree_of_cases(3) [OF assms(1), of p] assms(2) by (auto simp: visible_def split: if_splits)
  have g: "get E s' = get E s" "stored E s' = stored E s" by (simp_all add: s'_def fun_eq_iff)
  have ids: "ids_ok (get E s p)" using p(1) by (simp add: ids_ok_def)
  have o: "is_open s' q \<longleftrightarrow> q = p \<or> is_open s q" for q by (simp add: s'_def)
  have par: "stored E s (getDir (env_win E) p) = Some AFolder" using assms(4) tree_of_cases(2) [OF assms(1)] by simp
  have "{0..<int (length b)} \<subseteq> ready s' q" if "content s' q = Some b" for q b
    using that v ok(11) [of q b] by (cases "q = p") simp_all
  moreover have "fs_ok E s'" using ok(2) c(1) by (simp add: s'_def fs_ok_open_new file_ok_fresh)
  ultimately have "session_ok E s'"
    using ok(3-5,7-10,12) o p par assms(3) g ids
    by (intro session_okI [OF assms(1)])
      (auto simp: s'_def types_ok_def tree_ok_def simp del: stored_iff)
  moreover have "tree_of E s' = (tree_of E s)(p \<mapsto> Regular [])"
    using v(1) g(2) by (simp add: tree_of_def fun_eq_iff cong: option.case_cong)
  ultimately show ?thesis ..
qed

lemma refined_CMknod:
  assumes "session_ok E s" "admissible E (CMknod p t1 t2) s"
  shows "refined E net (CMknod p t1 t2) s"
proof -
  note ok = session_okD [OF assms(1)] and tc = tree_of_cases [OF assms(1)]
  have l: "\<not> fs_locked s" using ok(3) by (simp add: quiet_def)
  let ?d = "getDir (env_win E) p"
  have vis: "tree_of E s q = None \<longleftrightarrow> \<not> is_open s q \<and> get E s q = None" for q
    using tc(3) [of q] by (auto simp: visible_def)
  show ?thesis
  proof (cases "tree_of E s p = None")
    case False
    then have "Mknod E t1 t2 p s = Ret s (- EEXIST) []"
      using l vis [of p] stored_SomeD [OF tree_of_parent [OF assms(1) False]] False
      by (auto simp: Mknod_def is_open_def)
    then show ?thesis using False assms(1) by (intro refinedI [of _ _ _ _ _ s]) auto
  next
    case new: True
    show ?thesis
    proof (cases "tree_of E s ?d")
      case None
      then have "Mknod E t1 t2 p s = Ret s (- ENOENT) []"
        using l vis [of p] vis [of ?d] new by (auto simp: Mknod_def is_open_def)
      then show ?thesis using None new assms(1) by (intro refinedI [of _ _ _ _ _ s]) auto
    next
      case (Some n)
      then have d: "tree_of E s ?d = Some Folder" and wf: "wf_path p" using assms(2) by (cases n; simp)+
      obtain c where c: "GetNewCache s = Some c" using ok(6) by blast
      have "get E s ?d \<noteq> None" using d tc(2) [of ?d] by (auto simp: stored_def)
      then have "Mknod E t1 t2 p s = Ret (open_new s p (fresh_file c t1 t2)) 0 []"
        using l vis [of p] new c by (auto simp: Mknod_def is_open_def)
      then show ?thesis
        using session_creates [OF assms(1) new wf d c, of t1 t2] new d by (intro refinedI) auto
    qed
  qed
qed

lemma session_folder:
  assumes "session_ok E s" "tree_of E s p = None" "wf_path p" "tree_of E s (getDir (env_win E) p) = Some Folder"
  defines "s' \<equiv> s\<lparr>fs_db := db_Insert (env_db E) (fs_db s) p (folderTx p)\<rparr>"
  shows "session_ok E s' \<and> tree_of E s' = (tree_of E s)(p \<mapsto> Folder)"
proof -
  note ok = session_okD [OF assms(1)]
  have p: "stored E s p = None" "\<not> is_open s p"
    using tree_of_cases(3) [OF assms(1), of p] assms(2) by (auto simp: visible_def split: if_splits)
  have par: "stored E s (getDir (env_win E) p) = Some AFolder" using assms(4) tree_of_cases(2) [OF assms(1)] by simp
  have g: "get E s' q = (if q = p then Some (folderTx p) else get E s q)" for q
    using fs_okD(1) [OF ok(2)] by (simp add: s'_def)
  then have st: "stored E s' = (stored E s)(p \<mapsto> AFolder)" by (auto simp: stored_def kind_of_def fun_eq_iff)
  have v: "is_open s' = is_open s" "content s' = content s" "ready s' = ready s" "fs_ok E s'"
    using ok(2) by (simp_all add: s'_def fun_eq_iff fs_ok_insert)
  have "tree_ok E s'" using ok(5) par assms(3) p(1) unfolding tree_ok_def st by (auto simp del: stored_iff)
  moreover have "types_ok E s'" using ok(4) g by (simp add: types_ok_def)
  moreover have "is_open s q" if "stored E s' q = Some AFile" for q
    using that st ok(7) [of q] by (auto split: if_splits)
  ultimately have "session_ok E s'"
    using ok v p st g by (intro session_okI [OF assms(1)]) (auto simp: s'_def simp del: stored_iff)
  moreover have "tree_of E s' = (tree_of E s)(p \<mapsto> Folder)"
    using v(2) st p(2) content_open [of s p] by (auto simp: tree_of_def fun_eq_iff split: option.split)
  ultimately show ?thesis ..
qed

lemma tree_of_visible:
  assumes "session_ok E s"
  shows "tree_of E s q = None \<longleftrightarrow> \<not> is_open s q \<and> get E s q = None"
  using tree_of_cases(3) [OF assms, of q] by (auto simp: visible_def)

lemma folder_tx:
  assumes "session_ok E s" "tree_of E s p = Some Folder"
  obtains tx where "get E s p = Some tx" "tx_Type tx = FolderType"
proof -
  have "stored E s p = Some AFolder" using assms(2) tree_of_cases(2) [OF assms(1)] by blast
  then obtain tx where "get E s p = Some tx" "tx_Type tx \<noteq> FileType"
    by (auto simp: stored_def kind_of_def split: if_splits)
  then show ?thesis using that session_okD(4) [OF assms(1)] by (auto simp: types_ok_def)
qed

lemma refined_CMkdir:
  assumes "session_ok E s" "admissible E (CMkdir p) s"
  shows "refined E net (CMkdir p) s"
proof -
  note ok = session_okD [OF assms(1)] and vis = tree_of_visible [OF assms(1)]
  have l: "\<not> fs_locked s" using ok(3) by (simp add: quiet_def)
  let ?d = "getDir (env_win E) p"
  have a: "wf_path p" "fits E (folderTx p)" "\<not> is_open s p" "\<not> is_open s ?d"
    using assms(2) content_open [of s p] content_open [of s ?d] by simp_all
  show ?thesis
  proof (cases "tree_of E s p = None")
    case False
    then have "Mkdir E p s = Ret s (- EEXIST) []"
      using l a(3) vis [of p] stored_SomeD [OF tree_of_parent [OF assms(1) False]] by (auto simp: Mkdir_def)
    then show ?thesis using False assms(1) by (intro refinedI [of _ _ _ _ _ s]) auto
  next
    case new: True
    show ?thesis
    proof (cases "tree_of E s ?d = None")
      case True
      then have "Mkdir E p s = Ret s (- ENOENT) []"
        using l a(3,4) vis [of p] vis [of ?d] new by (auto simp: Mkdir_def)
      then show ?thesis using True new assms(1) by (intro refinedI [of _ _ _ _ _ s]) auto
    next
      case False
      then have d: "tree_of E s ?d = Some Folder" "get E s ?d \<noteq> None"
        using a(4) content_open [of s ?d] vis [of ?d] stored_SomeD
        by (auto simp: tree_of_def split: option.splits)
      let ?s' = "s\<lparr>fs_db := db_Insert (env_db E) (fs_db s) p (folderTx p)\<rparr>"
      have "Mkdir E p s = Ret ?s' 0 [SendTx (env_marshal E (folderTx p))]"
        using l a(2) vis [of p] new d(2) by (auto simp: Mkdir_def fits_def Let_def)
      then show ?thesis
        using session_folder [OF assms(1) new a(1) d(1)] new d(1)
        by (intro refinedI [of _ _ _ _ "Code 0" ?s']) (simp_all add: finish_sends)
    qed
  qed
qed

text \<open>A name disappears that has no name below it.\<close>

lemma session_without:
  assumes "session_ok E s" "fs_ok E s'" "quiet s'" "GetNewCache s' = GetNewCache s"
    and "get E s' = (get E s)(p := None)" "content s' = (content s)(p := None)"
    and "\<And>q. q \<noteq> p \<Longrightarrow> ready s' q = ready s q" "p \<noteq> [slash]"
    and "\<And>q. q \<noteq> p \<Longrightarrow> tree_of E s q \<noteq> None \<Longrightarrow> getDir (env_win E) q \<noteq> p"
  shows "session_ok E s' \<and> tree_of E s' = (tree_of E s)(p := None)"
proof -
  note ok = session_okD [OF assms(1)] and vis = tree_of_visible [OF assms(1)]
  have st: "stored E s' = (stored E s)(p := None)" using assms(5) by (auto simp: stored_def fun_eq_iff)
  have o: "is_open s' q \<longleftrightarrow> q \<noteq> p \<and> is_open s q" for q
    using assms(6) content_open(1) [of s' q] content_open(1) [of s q] by (cases "q = p") auto
  have par: "getDir (env_win E) q \<noteq> p" if "q \<noteq> p" "is_open s q \<or> stored E s q \<noteq> None" for q
    using that assms(9) [of q] vis [of q] by auto
  have "tree_ok E s'" by (rule tree_ok_remove [OF ok(5) st assms(8)]) (use par in blast)
  moreover have "types_ok E s'" using ok(4) assms(5) by (simp add: types_ok_def)
  moreover have "{0..<int (length b)} \<subseteq> ready s' q" if "content s' q = Some b" for q b
    using that assms(6,7) ok(11) [of q b] by (cases "q = p") simp_all
  moreover have "is_open s' q" if "stored E s' q = Some AFile" for q
    using that st o ok(7) [of q] by (auto split: if_splits)
  ultimately have "session_ok E s'"
    using assms(2-5) ok(8-10,12) o st par
    by (intro session_okI [OF assms(1)]) (auto simp del: stored_iff split: if_splits)
  moreover have "tree_of E s' = (tree_of E s)(p := None)"
    using assms(6) st by (simp add: tree_of_def fun_eq_iff cong: option.case_cong)
  ultimately show ?thesis ..
qed

text \<open>A name leaves the map of open files: the views forget it.\<close>

lemma go_del_view:
  "content (s\<lparr>fs_open := go_del (fs_open s) p\<rparr>) = (content s)(p := None)"
  "q \<noteq> p \<Longrightarrow> ready (s\<lparr>fs_open := go_del (fs_open s) p\<rparr>) q = ready s q"
  by (simp_all add: content_def ready_def file_at_def fun_eq_iff cong: option.case_cong)

lemma refined_CUnlink:
  assumes "session_ok E s" "admissible E (CUnlink p) s"
  shows "refined E net (CUnlink p) s"
proof -
  note ok = session_okD [OF assms(1)] and vis = tree_of_visible [OF assms(1)]
  have l: "\<not> fs_locked s" using ok(3) by (simp add: quiet_def)
  have fit: "fits E (createDeleteTx p)" using assms(2) by simp
  consider (none) "tree_of E s p = None" | (folder) "tree_of E s p = Some Folder" | (regular) b where "content s p = Some b"
    using tree_of_cases(1) [OF assms(1)] by (metis node.exhaust option.exhaust)
  then show ?thesis
  proof cases
    case none
    then have "Unlink E p s = Ret s (- ENOENT) []" using l vis [of p] by (simp add: Unlink_def is_open_def)
    then show ?thesis using none assms(1) by (intro refinedI [of _ _ _ _ _ s]) auto
  next
    case folder
    then obtain tx where "get E s p = Some tx" "tx_Type tx = FolderType" by (rule folder_tx [OF assms(1)])
    then have "Unlink E p s = Ret s (- EISDIR) []" using l by (simp add: Unlink_def)
    then show ?thesis using folder assms(1) by (intro refinedI [of _ _ _ _ _ s]) auto
  next
    case regular
    note c = session_content [OF assms(1) regular]
    let ?s1 = "s\<lparr>fs_open := go_del (fs_open s) p\<rparr>"
    let ?s' = "if get E s p = None then ?s1 else ?s1\<lparr>fs_db := db_Delete (env_db E) (fs_db s) p\<rparr>"
    have ty: "tx_Type tx = FileType" if "get E s p = Some tx" for tx
      using that stored_kinds [OF assms(1), of p] c(3) by (auto simp: stored_def kind_of_def split: if_splits)
    obtain js where u: "Unlink E p s = Ret ?s' 0 js" "list_all sends js"
      using l c(3) fit ty by (cases "get E s p") (auto simp: Unlink_def is_open_def fits_def Let_def)
    have ok': "fs_ok E ?s'" using Unlink_ok [OF ok(2), of p] u(1) by simp
    have db: "db_ok (env_db E) (fs_db ?s1)" using fs_okD(1) [OF ok(2)] by simp
    have g: "get E ?s' = (get E s)(p := None)" using get_db(2) [OF db, of p] by (auto simp: fun_eq_iff)
    have root: "p \<noteq> [slash]" using names_wf_session [OF assms(1)] c(3) by (auto simp: names_wf_def)
    have leaf: "getDir (env_win E) q \<noteq> p" if "tree_of E s q \<noteq> None" for q
      using tree_of_parent [OF assms(1) that] ok(9) [OF c(3)] by auto
    have "session_ok E ?s' \<and> tree_of E ?s' = (tree_of E s)(p := None)"
      by (rule session_without [OF assms(1) ok' _ _ g _ _ root leaf]) (simp_all add: ok(3) go_del_view)
    then show ?thesis using u c(4) by (intro refinedI [of _ _ _ _ "Code 0" ?s']) (simp_all add: finish_sends)
  qed
qed

lemma refined_CRmdir:
  assumes "session_ok E s" "admissible E (CRmdir p) s"
  shows "refined E net (CRmdir p) s"
proof -
  note ok = session_okD [OF assms(1)] and vis = tree_of_visible [OF assms(1)]
  have l: "\<not> fs_locked s" using ok(3) by (simp add: quiet_def)
  have a: "p \<noteq> [slash]" "fits E (createDeleteTx p)" "\<not> is_open s p"
    using assms(2) content_open [of s p] by simp_all
  show ?thesis
  proof (cases "tree_of E s p = None")
    case True
    then have "Rmdir E p s = Ret s (- ENOENT) []" using l vis [of p] by (simp add: Rmdir_def)
    then show ?thesis using True assms(1) by (intro refinedI [of _ _ _ _ _ s]) auto
  next
    case False
    then have t: "tree_of E s p = Some Folder" using a(3) content_open [of s p] by (auto simp: tree_of_def split: option.splits)
    then obtain tx where tx: "get E s p = Some tx" "tx_Type tx = FolderType" by (rule folder_tx [OF assms(1)])
    show ?thesis
    proof (cases "has_other_key E s p")
      case True
      then obtain q where q: "q \<noteq> p" "stored E s q \<noteq> None" "prefix p q"
        using has_other_key_iff [OF ok(2)] by blast
      then have "tree_of E s q \<noteq> None" using vis [of q] by auto
      then obtain k where k: "stored E s k \<noteq> None" "k \<noteq> p" "getDir (env_win E) k = p"
        using assms(2) q(1,3) unfolding admissible.simps by blast
      then have "has_children (env_win E) p (tree_of E s)" using vis [of k] by (auto simp: has_children_def)
      then show ?thesis
        using True tx l t assms(1) by (intro refinedI [of _ _ _ _ "Code (- ENOTEMPTY)" s]) (simp_all add: Rmdir_def)
    next
      case False
      then have no: "\<not> (q \<noteq> p \<and> stored E s q \<noteq> None \<and> prefix p q)" for q
        using has_other_key_iff [OF ok(2)] by blast
      have stored_below: False if "stored E s k \<noteq> None" "k \<noteq> p" "getDir (env_win E) k = p" for k
      proof -
        have "wf_path k" using that(1) tree_okD(2) [OF ok(5)] by blast
        then have "prefix p k" using prefix_getDir [of k "env_win E"] that(3) by simp
        then show False using no [of k] that by blast
      qed
      have empty: "getDir (env_win E) q \<noteq> p" if q: "q \<noteq> p" "tree_of E s q \<noteq> None" for q
      proof
        assume d: "getDir (env_win E) q = p"
        have "visible E s q \<noteq> None" using q(2) tree_of_cases(3) [OF assms(1), of q] by simp
        then have "wf_path q" using names_wf_session [OF assms(1)] by (simp add: names_wf_def)
        then have "prefix p q" using prefix_getDir [of q "env_win E"] d by simp
        then show False using assms(2) q stored_below unfolding admissible.simps by blast
      qed
      let ?s' = "s\<lparr>fs_db := db_Delete (env_db E) (fs_db s) p\<rparr>"
      have r: "Rmdir E p s = Ret ?s' 0 [SendTx (env_marshal E (createDeleteTx p))]"
        using tx l False a(2) by (simp add: Rmdir_def fits_def Let_def)
      have ok': "fs_ok E ?s'" using fs_ok_delete [OF ok(2)] .
      have g: "get E ?s' = (get E s)(p := None)" using get_db(2) [OF fs_okD(1) [OF ok(2)], of p] by (auto simp: fun_eq_iff)
      have v: "content ?s' = (content s)(p := None)" using a(3) content_open [of s p] by (simp add: fun_upd_idem)
      have "session_ok E ?s' \<and> tree_of E ?s' = (tree_of E s)(p := None)"
        by (rule session_without [OF assms(1) ok' _ _ g v _ a(1) empty]) (simp_all add: ok(3))
      moreover have "\<not> has_children (env_win E) p (tree_of E s)" using empty by (auto simp: has_children_def)
      ultimately show ?thesis
        using r t by (intro refinedI [of _ _ _ _ "Code 0" ?s']) (simp_all add: finish_sends)
    qed
  qed
qed

section \<open>Renaming\<close>

lemma move_open_view:
  assumes "is_open s p" "p \<noteq> q"
  shows "content (move_open s p q) = (content s)(q := content s p, p := None)"
    and "ready (move_open s p q) = (ready s)(q := ready s p, p := {})"
proof -
  obtain r where r: "go_get (fs_open s) p = Some r" using assms(1) by (auto simp: is_open_def)
  have "file_at (move_open s p q) = file_at s" by (simp add: file_at_def fun_eq_iff)
  moreover have "go_get (fs_open (move_open s p q)) k = (if k = p then None else if k = q then Some r else go_get (fs_open s) k)" for k
    using r by (simp add: move_open_get move_map_def)
  ultimately show "content (move_open s p q) = (content s)(q := content s p, p := None)"
    and "ready (move_open s p q) = (ready s)(q := ready s p, p := {})"
    using r assms(2) by (simp_all add: content_def ready_def fun_eq_iff cong: option.case_cong)
qed

lemma rename_commit_keeps:
  assumes "rename_commit E old new tx s = Ret s' res js"
  shows "list_all sends js" "GetNewCache s' = GetNewCache s" "content s' = content s" "ready s' = ready s"
    "quiet s' = quiet s"
  using assms by (auto simp: rename_commit_def Let_def split: if_splits)

lemma refined_CRename:
  assumes "session_ok E s" "admissible E (CRename p q) s"
  shows "refined E net (CRename p q) s"
proof -
  note ok = session_okD [OF assms(1)] and vis = tree_of_visible [OF assms(1)]
  let ?d = "getDir (env_win E) q" and ?N = "stored E s"
  obtain b where b: "content s p = Some b" using assms(2) by auto
  note c = session_content [OF assms(1) b]
  have a: "p \<noteq> q" "wf_path q" "?N ?d = Some AFolder" "?N q \<noteq> Some AFolder" "fits E (createDeleteTx p)"
    using assms(2) tree_of_cases(2) [OF assms(1)] by simp_all
  have fit: "fits E (tx\<lparr>tx_Path := q\<rparr>)" if "get E s p = Some tx" for tx using assms(2) that by simp
  have l: "\<not> fs_locked s" using ok(3) by (simp add: quiet_def)
  have nf: "?N p \<noteq> Some AFolder" using ok(9) [OF c(3)] .
  have ty: "tx_Type tx = FileType" if "get E s p = Some tx" for tx
    using that stored_kinds [OF assms(1), of p] c(3) by (auto simp: stored_def kind_of_def split: if_splits)
  have gd: "get E s ?d \<noteq> None" using stored_SomeD [OF a(3)] .
  let ?m = "move_open s p q"
  have m: "fs_ok E ?m" "quiet ?m" "GetNewCache ?m = GetNewCache s" "get E ?m = get E s"
    using move_open_ok [OF ok(2)] ok(3) by (simp_all add: fun_eq_iff)
  obtain s' js where s': "Rename E p q s = Ret s' 0 js" "list_all sends js" "GetNewCache s' = GetNewCache s" "quiet s'"
    "content s' = (content s)(q := content s p, p := None)" "ready s' = (ready s)(q := ready s p, p := {})"
    "get E s p = None \<longrightarrow> get E s' = get E s"
    "\<forall>tx. get E s p = Some tx \<longrightarrow> get E s' = (get E s)(q \<mapsto> tx\<lparr>tx_Path := q\<rparr>, p := None)"
  proof (cases "get E s p")
    case None
    then have "Rename E p q s = Ret ?m 0 []" using l gd c(3) by (auto simp: Rename_def is_open_def)
    then show ?thesis using None m(2,3,4) move_open_view [OF c(3) a(1)] by (intro that [of ?m "[]"]) auto
  next
    case (Some tx)
    obtain s' js where t: "rename_commit E p q tx ?m = Ret s' 0 js"
      "\<forall>k. get E s' k = (if k = p then None else if k = q then Some (tx\<lparr>tx_Path := q\<rparr>) else get E ?m k)"
      using get_rename_commit [OF m(1) a(1) fit [OF Some] a(5)] by blast
    have "Rename E p q s = Ret s' 0 js" using l gd Some ty [OF Some] t(1) by (auto simp: Rename_def FileType_def FolderType_def)
    moreover have "get E s' = (get E s)(q \<mapsto> tx\<lparr>tx_Path := q\<rparr>, p := None)" using t(2) a(1) m(4) by (auto simp: fun_eq_iff)
    ultimately show ?thesis
      using Some m(2,3) move_open_view [OF c(3) a(1)] rename_commit_keeps [OF t(1)] by (intro that [of s' js]) auto
  qed
  have st: "stored E s' = (if get E s p = None then ?N else ?N(q \<mapsto> AFile, p := None))"
  proof (cases "get E s p")
    case None
    then show ?thesis using s'(7) by (simp add: stored_def fun_eq_iff)
  next
    case (Some tx)
    then have "get E s' = (get E s)(q \<mapsto> tx\<lparr>tx_Path := q\<rparr>, p := None)" using s'(8) by simp
    then show ?thesis using Some ty [OF Some] by (simp add: stored_def kind_of_def fun_eq_iff)
  qed
  have o: "is_open s' k \<longleftrightarrow> k \<noteq> p \<and> (k = q \<or> is_open s k)" for k
    using s'(5) content_open(1) [of s' k] content_open(1) [of s k] b a(1) by (auto split: if_splits)
  have stay: "stored E s' k = Some AFolder" if "?N k = Some AFolder" for k
    using that nf a(4) st by auto
  have root: "?N [slash] = Some AFolder" using tree_okD(1) [OF ok(5)] .
  have "rename_legal E s p q" using a nf root by (auto simp: rename_legal_def)
  then have "tree_ok E s'" using Rename_tree [OF l ok(2,4,5) _ a(5) fit] s'(1) by simp
  moreover have "types_ok E s'" using keeps_types(4) [OF ok(2) l ok(4) s'(1)] by simp
  moreover have "fs_ok E s'" using Rename_ok [OF ok(2), of p q] s'(1) by simp
  moreover have "is_open s' k" if "stored E s' k = Some AFile" for k
  proof -
    have "k \<noteq> p"
    proof
      assume "k = p"
      then show False using that st stored_SomeD [of E s p AFile] by (cases "get E s p") simp_all
    qed
    moreover have "k = q \<or> ?N k = Some AFile" using that st by (simp split: if_splits)
    ultimately show ?thesis using o [of k] ok(7) [of k] by blast
  qed
  moreover have "wf_path k \<and> stored E s' (getDir (env_win E) k) = Some AFolder \<and> stored E s' k \<noteq> Some AFolder \<and>
      ids_ok (get E s' k)" if "is_open s' k" for k
  proof -
    have "wf_path k" "?N (getDir (env_win E) k) = Some AFolder"
      using that o [of k] a(2,3) ok(8,12) [of k] by auto
    moreover have "stored E s' k \<noteq> Some AFolder" using that o [of k] st ok(9) [of k] a(4) by auto
    moreover have "get E s q = None" if "\<not> is_open s q"
      using that a(4) stored_kinds [OF assms(1), of q] by (auto split: if_splits)
    then have "ids_ok (get E s q)" using ok(10) [of q] by (cases "is_open s q") (simp_all add: ids_ok_def)
    then have "ids_ok (get E s' k)"
      using that o [of k] s'(7,8) ok(10) [of k] ok(10) [OF c(3)]
      by (cases "get E s p"; cases "k = q") (simp_all add: ids_ok_def)
    ultimately show ?thesis using stay by blast
  qed
  moreover have "{0..<int (length d)} \<subseteq> ready s' k" if "content s' k = Some d" for k d
    using that s'(5,6) ok(11) [of p d] ok(11) [of k d] by (auto split: if_splits)
  ultimately have "session_ok E s'" using s'(3,4) by (intro session_okI [OF assms(1)])
  moreover have "tree_of E s' = (tree_of E s)(q \<mapsto> Regular b, p := None)"
    using s'(5) st b a(1) content_open [of s q]
    by (auto simp: tree_of_def fun_eq_iff split: option.splits)
  ultimately show ?thesis
    using s'(1,2) c(4) by (intro refinedI [of _ _ _ _ "Code 0" s']) (simp_all add: finish_sends)
qed

section \<open>Every call, and every session\<close>

lemma admissible_refined: "session_ok E s \<Longrightarrow> admissible E c s \<Longrightarrow> refined E net c s"
  by (cases c)
    (simp_all only: refined_CMknod refined_CMkdir refined_COpen refined_CUnlink refined_CRmdir refined_CRename
      refined_CGetattr refined_CReaddir refined_CTruncate refined_CRead refined_CWrite refined_CRelease)

interpretation session: refines "serve E net" "spec (env_win E)" "tree_of E" "session_ok E" "admissible E" for E net
  by unfold_locales (use admissible_refined in \<open>auto simp: refined_def\<close>)

text \<open>To follow a session call by call, on the tree.\<close>

lemma session_step:
  assumes "session_ok E s" "tree_of E s = t" "session_ok E s \<Longrightarrow> tree_of E s = t \<Longrightarrow> admissible E c s"
    and "\<And>s'. session_ok E s' \<Longrightarrow> tree_of E s' = snd (spec (env_win E) c t) \<Longrightarrow> all_along (admissible E) (serve E net) cs s'"
  shows "all_along (admissible E) (serve E net) (c # cs) s"
  using assms by (intro session.follow) auto

text \<open>A session can begin on every database that holds a tree of folders.\<close>

lemma session_start:
  fixes d and txc datac :: string
  assumes "env_ok E" "db_ok (env_db E) d" "\<And>k tx. db_Get (env_db E) d k = Some tx \<Longrightarrow> tx_ok tx \<and> tx_Type tx = FolderType"
  defines "s \<equiv> NewDsfs d txc datac ''memory''"
  assumes "tree_ok E s"
  shows "session_ok E s" and "tree_of E s p = map_option (\<lambda>tx. Folder) (db_Get (env_db E) d p)"
proof -
  have g: "get E s k = db_Get (env_db E) d k" and o: "\<not> is_open s k" "content s k = None" for k
    by (simp_all add: s_def get_def NewDsfs_def is_open_def content_def)
  have "fs_ok E s" using assms(2,3) by (simp add: s_def fs_ok_def NewDsfs_def get_def)
  moreover have "quiet s" "GetNewCache s \<noteq> None" by (simp_all add: s_def quiet_def NewDsfs_def GetNewCache_def)
  moreover have "types_ok E s" using assms(3) g by (auto simp: types_ok_def)
  moreover have "stored E s k \<noteq> Some AFile" for k
    using assms(3) g by (auto simp: stored_def kind_of_def FileType_def FolderType_def split: if_splits)
  ultimately show "session_ok E s" using assms(1,5) o by (simp add: session_ok_def)
  show "tree_of E s p = map_option (\<lambda>tx. Folder) (db_Get (env_db E) d p)"
    using g o by (cases "db_Get (env_db E) d p") (simp_all add: tree_of_def stored_def)
qed

end
