(* ===== verification/SessionProps.thy ===== *)
theory SessionProps
  imports Session TransferProps
begin

text \<open>
  The program as a file system for one client: it refines the specification on trees, and a
  session on a small file system that shows it.
\<close>

section \<open>A file system with two folders\<close>

definition sample_folders :: "Tx gomap Dsfs" where
  "sample_folders = NewDsfs (MapDB [(''/'', rootTx), (''/d'', folderTx ''/d'')]) ''t'' ''d'' ''memory''"

lemma sample_folders_ok: "session_ok sample_env sample_folders"
  "tree_of sample_env sample_folders = [''/'' \<mapsto> Folder, ''/d'' \<mapsto> Folder]"
proof -
  let ?d = "MapDB [(''/'', rootTx), (''/d'', folderTx ''/d'')]"
  let ?s = "NewDsfs ?d ''t'' ''d'' ''memory''"
  have g: "db_Get (env_db sample_env) ?d k = (if k = ''/'' then Some rootTx else if k = ''/d'' then Some (folderTx ''/d'') else None)" for k
    by (simp add: db_Get_def map_Get_def go_get_def)
  have st: "stored sample_env ?s k = (if k = ''/'' \<or> k = ''/d'' then Some AFolder else None)" for k
    using g by (simp add: stored_def kind_of_def get_def NewDsfs_def)
  have db: "db_ok (env_db sample_env) ?d" by (simp add: db_ok_def go_ok_def order_ok_def)
  have tx: "db_Get (env_db sample_env) ?d k = Some tx \<Longrightarrow> tx_ok tx \<and> tx_Type tx = FolderType" for k tx
    using g [of k] by (auto simp: folderTx_def tx_ok_def zero_Tx_def i64_def rootTx_def split: if_splits)
  have tr: "tree_ok sample_env ?s" using st by (auto simp: tree_ok_def simp del: stored_iff)
  show "session_ok sample_env sample_folders"
    unfolding sample_folders_def by (rule session_start [OF sample_env_ok db tx tr])
  show "tree_of sample_env sample_folders = [''/'' \<mapsto> Folder, ''/d'' \<mapsto> Folder]"
    unfolding sample_folders_def
    by (rule ext) (use session_start(2) [OF sample_env_ok db tx tr] g in auto)
qed

section \<open>The property\<close>

text \<open>
  C2. A file system for its client: for every sequence of calls of a client that is alone, each
  with the goroutines it starts run to their end, the program answers as the specification
  \<open>spec\<close> does on a tree of folders and files, and ends in a state that stands for the tree the
  specification ends with: files are created, read, written, extended, renamed and removed,
  folders made, listed and removed, and uploads, whether they succeed or not, change nothing
  the client can see. The calls are those of \<open>admissible\<close>.
\<close>

theorem session_refines:
  assumes "session_ok E s" "all_along (admissible E) (serve E net) cs s"
  shows "\<exists>answers s'. run (serve E net) cs s = Some (answers, s') \<and> session_ok E s' \<and>
    run_all (spec (env_win E)) cs (tree_of E s) = (answers, tree_of E s')"
  by (rule session.run_refines [OF assms])

theorem session_refines_witness:
  "\<exists>s'. run (serve sample_env sample_net)
      [CMknod ''/d/x'' (1, 0) (1, 0), CWrite ''/d/x'' ''abc'' 0 (2, 0), CRelease ''/d/x'', CRename ''/d/x'' ''/f'',
       CRead ''/f'' 5 1, CUnlink ''/f'']
      sample_folders =
    Some ([Code 0, Code 3, Code 0, Code 0, Data 2 ''bc'', Code 0], s') \<and> tree_of sample_env s' ''/f'' = None"
  (is "\<exists>s'. run ?f ?cs _ = _ \<and> _")
proof -
  have "all_along (admissible sample_env) ?f ?cs sample_folders"
    by (rule session_step [OF sample_folders_ok], simp add: sample_folders_ok)
      ((erule (1) session_step, simp add: content_tree splice_def uploadable_def i64_def MaxDiscordFileSize_def)+, simp)
  from session_refines [OF sample_folders_ok(1) this]
  obtain answers s' where "run ?f ?cs sample_folders = Some (answers, s')"
    "run_all (spec False) ?cs (tree_of sample_env sample_folders) = (answers, tree_of sample_env s')"
    by auto
  moreover from this(2) have "answers = [Code 0, Code 3, Code 0, Code 0, Data 2 ''bc'', Code 0]"
    "tree_of sample_env s' = [''/'' \<mapsto> Folder, ''/d'' \<mapsto> Folder]"
    by (auto simp: sample_folders_ok(2) splice_def slice_def Let_def)
  ultimately show ?thesis by (intro exI [of _ s']) (simp del: run.simps)
qed

end
