(* ===== verification/LivePatch.thy ===== *)
theory LivePatch
  imports BlockTransfer FileTruncate TxLog
begin

text \<open>
  What a transaction of another client does to a file that is open here: \<open>ApplyLiveTx\<close> cuts or
  grows it to the size of the transaction and replaces the blocks whose checksum differs.
\<close>

section \<open>One block\<close>

text \<open>
  A block with the checksum of the transaction is taken for the same; the others are
  downloaded and marked as ready.
\<close>

lemma patch_block:
  assumes "env_ok E" "fs_ok E s" "usable s p" "go_get (fs_open s) p = Some r" "content s p = Some c"
    and "length c = length b" "i < n_blocks b" "uploadable b"
    and "tx_Checksums tx ! i = env_sum E (block b i)" "i < length (tx_FileIDs tx)"
    and "net_dl net (tx_FileIDs tx ! i) = Some (block b i)"
  shows "\<exists>s' c'. run_task E net (Patching r tx (i # is)) s = run_task E net (Patching r tx is) s' \<and>
    fs_ok E s' \<and> usable s' p \<and> fs_open s' = fs_open s \<and> fs_db s' = fs_db s \<and>
    content s' = (content s)(p \<mapsto> c') \<and> length c' = length b \<and>
    (\<forall>x < length b. c' ! x =
       (if x div block_len = i \<and> env_sum E (block c i) \<noteq> env_sum E (block b i) then b ! x else c ! x)) \<and>
    ready s' = (ready s)(p := ready s p \<union>
      (if env_sum E (block c i) = env_sum E (block b i) then {}
       else {x. 0 \<le> x \<and> x < int (length b) \<and> nat x div block_len = i}))"
proof -
  let ?f = "file_at s r" and ?o = "i * block_len" and ?n = "length (block b i)"
  have l: "fd_lock ?f = Free" "\<not> fs_locked s" using assms(3,4) by (simp_all add: usable_def)
  have f: "cache_ok (env_cache E) (fd_cache ?f)" "load_ok (fd_load ?f)" "cache_bytes (fd_cache ?f) = c"
    "r < length (fs_heap s)"
    using fs_okD(4,5) [OF assms(2,4)] assms(5) contentE(1) [OF assms(4)]
    by (simp_all add: file_ok_def file_bytes_def)
  have sz: "Size (fd_cache ?f) = int (length b)" "i64 (int (length b))"
    using Size_ok [OF f(1)] f(3) assms(6) by simp_all
  note o = block_offset [OF assms(7) sz(2)] block_end [OF assms(7) sz(2) assms(8)]
  have i: "?o < length b" using assms(7) less_n_blocks by blast
  have fits: "?o + ?n \<le> length b" using block_fits [OF assms(7)] .
  have sub: "sub_slice c ?o (?o + ?n) = block c i"
    using assms(6) by (simp add: sub_slice_def block_def min_def)
  have len: "length (block c i) = ?n" using assms(6) by (simp add: length_block)
  have nat_end: "nat (int (?o + ?n) - int ?o) = ?n" by simp
  obtain c1 where c1: "ReadRange (fd_cache ?f) (int ?o) (int (?o + ?n)) (replicate ?n zero_byte) =
      Some (c1, block c i, int ?n)" "cache_ok (env_cache E) c1" "cache_bytes c1 = c"
    using anycache.read_total [OF f(1), of "int ?o" "int (?o + ?n)" "replicate ?n zero_byte"] fits sz(1) len
    by (auto simp: f(3) sub go_copy_same_length simp del: of_nat_mult of_nat_add)
  let ?s1 = "set_file s r (?f\<lparr>fd_cache := c1\<rparr>)"
  have piece: "getDataFile net (tx_FileIDs tx ! i) ?n = Some (block b i)"
    using assms(11) by (simp add: getDataFile_def)
  have check: "patch_check E net r tx i s =
      Ret ?s1 (if env_sum E (block b i) = env_sum E (block c i) then Some None
               else Some (Some (int ?o, block b i, block b i))) []"
    unfolding patch_check_def Let_def sz(1) o(1) o(4) nat_end
    using l(1) i c1(1) assms(9,10) piece len by (simp add: go_copy_same_length del: of_nat_mult of_nat_add)
  have s1: "fs_ok E ?s1" "usable ?s1 p" "content ?s1 = content s" "ready ?s1 = ready s"
    using assms(2,3,4,5) f c1(2,3) l
    by (auto simp: fs_ok_set_file file_ok_def fun_eq_iff view_set_file [OF assms(2,4)] file_bytes_def
        file_ready_def usable_def file_at_set_file contentE [OF assms(4)])
  show ?thesis
  proof (cases "env_sum E (block c i) = env_sum E (block b i)")
    case True
    have "run_task E net (Patching r tx (i # is)) s = run_task E net (Patching r tx is) ?s1"
      using check True by (subst run_task.simps) simp
    then show ?thesis using True s1 assms(5,6) by (intro exI [of _ ?s1] exI [of _ c]) (auto simp: fun_eq_iff)
  next
    case False
    let ?e = "int ?o + int ?n" and ?c = "put_slice c ?o (?o + ?n) (block b i)"
    have ie: "i64 (int ?o)" "i64 ?e" "add64 (int ?o) (int ?n) = ?e"
      using o(2,3) i64_between [OF _ o(3) sz(2)] by (simp_all add: i64_simps)
    obtain c2 where c2: "WriteRange (env_cache E) c1 (int ?o) ?e (block b i) = Some (c2, int ?n)"
      "cache_ok (env_cache E) c2" "cache_bytes c2 = ?c"
      using WriteRange_ok [OF c1(2), of "int ?o" ?e "block b i"] Size_ok(1) [OF c1(2)] c1(3) assms(6) o(3)
      by (auto simp: nat_add_distrib simp del: of_nat_mult)
    obtain l0 q where q: "isReady (env_sort E) (fd_load ?f) (int ?o) ?e = (l0, q)" by fastforce
    define l2 where "l2 = (if q then l0 else addRange l0 (int ?o) ?e)"
    note load = mark_ready [OF assms(1) f(2) _ ie(1,2) q, folded l2_def]
    let ?s2 = "set_file s r (?f\<lparr>fd_cache := c2, fd_load := l2\<rparr>)"
    have "patch_store E r (int ?o) (block b i) (block b i) ?s1 = Ret ?s2 () []"
      using l(1) f(4) c2(1) q ie(3)
      by (simp add: patch_store_def Let_def file_at_set_file set_file_twice l2_def del: of_nat_mult)
    then have "run_task E net (Patching r tx (i # is)) s = run_task E net (Patching r tx is) ?s2"
      using check False
      by (subst run_task.simps, simp del: of_nat_mult, subst run_task.simps, simp del: of_nat_mult)
    moreover have "fs_ok E ?s2" "usable ?s2 p" "content ?s2 = (content s)(p \<mapsto> ?c)"
      "ready ?s2 = (ready s)(p := ready s p \<union> {int ?o..<?e})"
      using assms(2,3,4,5) f c2(2,3) l load
      by (auto simp: fs_ok_set_file file_ok_def fun_eq_iff view_set_file [OF assms(2,4)] file_bytes_def
          file_ready_def usable_def file_at_set_file contentE [OF assms(4)] simp del: of_nat_mult)
    ultimately show ?thesis
      using False put_block [OF assms(7,6)] block_interval [OF assms(7)]
      by (intro exI [of _ ?s2] exI [of _ ?c]) (simp del: of_nat_mult)
  qed
qed

section \<open>All blocks\<close>

lemma block_cong:
  assumes "length c = length d" "\<And>x. x < length d \<Longrightarrow> x div block_len = i \<Longrightarrow> c ! x = d ! x"
  shows "block c i = block d i"
proof (rule nth_equalityI)
  show len: "length (block c i) = length (block d i)" using assms(1) by (simp add: length_block)
  fix j
  assume j: "j < length (block c i)"
  then have "i * block_len + j < length d" "(i * block_len + j) div block_len = i"
    using assms(1) by (auto simp: length_block)
  then show "block c i ! j = block d i ! j" using assms(2) j len by (simp add: nth_block)
qed

lemma block_nth: "block c i = block d i \<Longrightarrow> length c = length d \<Longrightarrow> x < length d \<Longrightarrow> x div block_len = i \<Longrightarrow> c ! x = d ! x"
  by (metis nth_in_block)

text \<open>The positions in blocks that differ, among those of a list.\<close>

definition differing :: "bytes \<Rightarrow> bytes \<Rightarrow> nat list \<Rightarrow> int set" where
  "differing c b is = {x. 0 \<le> x \<and> x < int (length b) \<and> nat x div block_len \<in> set is \<and>
     block c (nat x div block_len) \<noteq> block b (nat x div block_len)}"

text \<open>
  The parts of a transaction for the content \<open>b\<close>, and that a checksum tells the blocks of two
  contents apart.
\<close>

definition tx_describes :: "'t env \<Rightarrow> net \<Rightarrow> Tx \<Rightarrow> bytes \<Rightarrow> bool" where
  "tx_describes E net tx b \<longleftrightarrow> tx_Size tx = int (length b) \<and>
     tx_Checksums tx = map (\<lambda>i. env_sum E (block b i)) [0..<n_blocks b] \<and>
     length (tx_FileIDs tx) = n_blocks b \<and> (\<forall>i < n_blocks b. net_dl net (tx_FileIDs tx ! i) = Some (block b i))"

definition sums_tell :: "'t env \<Rightarrow> bytes \<Rightarrow> bytes \<Rightarrow> bool" where
  "sums_tell E c b \<longleftrightarrow> (\<forall>i < n_blocks b. env_sum E (block c i) = env_sum E (block b i) \<longrightarrow> block c i = block b i)"

lemma run_patching:
  assumes "env_ok E" "fs_ok E s" "usable s p" "go_get (fs_open s) p = Some r" "content s p = Some c"
    and "length c = length b" "uploadable b" "tx_describes E net tx b"
    and "distinct is" "\<forall>i \<in> set is. i < n_blocks b"
    and "\<forall>i \<in> set is. env_sum E (block c i) = env_sum E (block b i) \<longrightarrow> block c i = block b i"
  shows "\<exists>s' c'. run_task E net (Patching r tx is) s = Ret s' () [] \<and>
    fs_ok E s' \<and> usable s' p \<and> fs_open s' = fs_open s \<and> fs_db s' = fs_db s \<and>
    content s' = (content s)(p \<mapsto> c') \<and> length c' = length b \<and>
    (\<forall>x < length b. c' ! x = (if x div block_len \<in> set is then b ! x else c ! x)) \<and>
    ready s' = (ready s)(p := ready s p \<union> differing c b is)"
  using assms(2-6,9-)
proof (induction "is" arbitrary: s c)
  case Nil
  have "run_task E net (Patching r tx []) s = Ret s () []" by (simp add: run_task.simps)
  then show ?case using Nil by (intro exI [of _ s] exI [of _ c]) (auto simp: differing_def)
next
  case (Cons i "is")
  have i: "i < n_blocks b" "i < length (tx_FileIDs tx)" "tx_Checksums tx ! i = env_sum E (block b i)"
    "net_dl net (tx_FileIDs tx ! i) = Some (block b i)"
    using Cons.prems(7) assms(8) by (simp_all add: tx_describes_def)
  have tell: "env_sum E (block c i) = env_sum E (block b i) \<longleftrightarrow> block c i = block b i"
    using Cons.prems(8) by auto
  note step = patch_block [OF assms(1) Cons.prems(1-5) i(1) assms(7) i(3,2,4), of "is", unfolded tell]
  obtain s1 c1 where 1: "run_task E net (Patching r tx (i # is)) s = run_task E net (Patching r tx is) s1"
    "fs_ok E s1" "usable s1 p" "fs_open s1 = fs_open s" "fs_db s1 = fs_db s"
    "content s1 = (content s)(p \<mapsto> c1)" "length c1 = length b"
    "\<forall>x < length b. c1 ! x = (if x div block_len = i \<and> block c i \<noteq> block b i then b ! x else c ! x)"
    "ready s1 = (ready s)(p := ready s p \<union> (if block c i = block b i then {}
       else {x. 0 \<le> x \<and> x < int (length b) \<and> nat x div block_len = i}))"
    using step by blast
  have c1: "c1 ! x = (if x div block_len = i then b ! x else c ! x)" if "x < length b" for x
    using 1(8) that block_nth [OF _ Cons.prems(5)] by auto
  have other: "block c1 k = block c k" if "k \<noteq> i" for k
    using 1(7) Cons.prems(5) c1 that by (intro block_cong) auto
  have nd: "i \<notin> set is" "distinct is" using Cons.prems(6) by simp_all
  have "go_get (fs_open s1) p = Some r" "content s1 p = Some c1" using 1(4,6) Cons.prems(3) by simp_all
  moreover have "\<forall>i \<in> set is. i < n_blocks b" using Cons.prems(7) by simp
  moreover have "\<forall>k \<in> set is. env_sum E (block c1 k) = env_sum E (block b k) \<longrightarrow> block c1 k = block b k"
    using Cons.prems(8) nd(1) other by (metis list.set_intros(2))
  ultimately obtain s' c' where s': "run_task E net (Patching r tx is) s1 = Ret s' () []"
    "fs_ok E s'" "usable s' p" "fs_open s' = fs_open s1" "fs_db s' = fs_db s1"
    "content s' = (content s1)(p \<mapsto> c')" "length c' = length b"
    "\<forall>x < length b. c' ! x = (if x div block_len \<in> set is then b ! x else c1 ! x)"
    "ready s' = (ready s1)(p := ready s1 p \<union> differing c1 b is)"
    using Cons.IH [OF 1(2,3) _ _ 1(7) nd(2)] by blast
  have "differing c1 b is = differing c b is"
    using nd(1) other unfolding differing_def by (intro Collect_cong) metis
  moreover have "differing c b (i # is) = (if block c i = block b i then {}
      else {x. 0 \<le> x \<and> x < int (length b) \<and> nat x div block_len = i}) \<union> differing c b is"
    by (auto simp: differing_def)
  moreover have "\<forall>x < length b. c' ! x = (if x div block_len \<in> set (i # is) then b ! x else c ! x)"
    using s'(8) c1 by auto
  ultimately show ?case
    using s' 1 by (intro exI [of _ s'] exI [of _ c']) (simp add: Un_assoc)
qed

section \<open>The whole transaction\<close>

text \<open>The state in which the blocks are compared: the transaction stored, the file resized.\<close>

lemma live_resize:
  assumes "env_ok E" "fs_ok E s" "usable s p" "go_get (fs_open s) p = Some r" "content s p = Some c"
    and "tx_ok tx" "tx_Path tx = p" "tx_Size tx < int (length c) \<longrightarrow> \<not> truncate_fails s p (tx_Size tx)"
  shows "\<exists>s'. ApplyLiveTx_start E p tx s = Ret s' (Some (Patching r tx [0..<length (tx_Checksums tx)])) [] \<and>
    fs_ok E s' \<and> usable s' p \<and> go_get (fs_open s') p = Some r \<and> get E s' = (get E s)(p \<mapsto> tx) \<and>
    content s' = (content s)(p \<mapsto> resize c (nat (tx_Size tx))) \<and>
    ready s' = (ready s)(p := if tx_Size tx < int (length c) then ready s p \<inter> {..<tx_Size tx} else ready s p)"
proof -
  let ?d = "db_Insert (env_db E) (fs_db s) p tx" and ?f = "file_at s r"
  let ?s1 = "s\<lparr>fs_db := ?d\<rparr>"
  have l: "fd_lock ?f = Free" "\<not> fs_locked s" using assms(3,4) by (simp_all add: usable_def)
  have f: "cache_ok (env_cache E) (fd_cache ?f)" "load_ok (fd_load ?f)" "cache_bytes (fd_cache ?f) = c"
    using fs_okD(5) [OF assms(2,4)] assms(5) contentE(1) [OF assms(4)]
    by (simp_all add: file_ok_def file_bytes_def)
  have sz: "Size (fd_cache ?f) = int (length c)" "0 \<le> tx_Size tx" "i64 (tx_Size tx)"
    using Size_ok(1) [OF f(1)] f(3) assms(6) by (simp_all add: tx_ok_def)
  obtain l where l': "(if tx_Size tx < int (length c) then truncate_load (fd_load ?f) (tx_Size tx)
      else Some (fd_load ?f)) = Some l" "load_ok l"
    "covered (ranges l) = (if tx_Size tx < int (length c) then ready s p \<inter> {..<tx_Size tx} else ready s p)"
  proof (cases "tx_Size tx < int (length c)")
    case True
    then obtain l where "truncate_load (fd_load ?f) (tx_Size tx) = Some l"
      using assms(8,4) truncate_None_iff by (fastforce simp: truncate_fails_def load_ranges_def)
    then show ?thesis
      using that True load_ok_truncate [OF _ f(2) sz(3)] covered_truncate contentE(2) [OF assms(4)]
      by (simp add: file_ready_def)
  next
    case False
    then show ?thesis using that f(2) contentE(2) [OF assms(4)] by (simp add: file_ready_def)
  qed
  obtain c' where c': "Truncate (env_cache E) (fd_cache ?f) (tx_Size tx) = Some c'" "cache_ok (env_cache E) c'"
    "cache_bytes c' = resize c (nat (tx_Size tx))"
    using Truncate_ok [OF f(1) sz(2,3)] f(3) by auto
  let ?s' = "set_file ?s1 r (?f\<lparr>fd_load := l, fd_cache := c'\<rparr>)"
  have s1: "fs_ok E ?s1" "go_get (fs_open ?s1) p = Some r"
    using fs_ok_insert [OF assms(2,6)] assms(4) by simp_all
  have "ApplyLiveTx_start E p tx s = Ret ?s' (Some (Patching r tx [0..<length (tx_Checksums tx)])) []"
    using l assms(4,7) l'(1) c'(1) sz(1) by (simp add: ApplyLiveTx_start_def Let_def)
  moreover have "fs_ok E ?s'" using s1(1) l'(2) c'(2) by (simp add: fs_ok_set_file file_ok_def)
  moreover have "get E ?s' = (get E s)(p \<mapsto> tx)"
    using anydb.get_insert [OF fs_okD(1) [OF assms(2)]] by (simp add: get_def fun_eq_iff)
  moreover have "content ?s' = (content s)(p \<mapsto> resize c (nat (tx_Size tx)))" "ready ?s' = (ready s)(p := covered (ranges l))"
    using view_set_file [OF s1] c'(3) by (simp_all add: fun_eq_iff file_bytes_def file_ready_def)
  moreover have "usable ?s' p" using l assms(4) fs_okD(4) [OF s1] by (simp add: usable_def file_at_set_file)
  ultimately show ?thesis using l'(3) assms(4) by (intro exI [of _ ?s']) simp
qed

lemma live_write_open:
  assumes "env_ok E" "fs_ok E s" "usable s p" "content s p = Some c"
    and "line \<noteq> []" "um line = Some tx" "tx_Tx tx = WriteTx" "tx_Path tx = p"
    and "tx_describes E net tx b" "uploadable b" "sums_tell E (resize c (length b)) b"
    and "length b < length c \<longrightarrow> \<not> truncate_fails s p (int (length b))"
  shows "\<exists>s'. live_line E um net line s = Ret s' () [] \<and> fs_ok E s' \<and> usable s' p \<and>
    get E s' = (get E s)(p \<mapsto> tx) \<and> content s' = (content s)(p \<mapsto> b) \<and>
    ready s' = (ready s)(p := (if length b < length c then ready s p \<inter> {..<int (length b)} else ready s p) \<union>
      differing (resize c (length b)) b [0..<n_blocks b])"
proof -
  obtain r where r: "go_get (fs_open s) p = Some r" using assms(4) by (auto simp: content_def)
  have tx: "tx_Size tx = int (length b)" "tx_Checksums tx = map (\<lambda>i. env_sum E (block b i)) [0..<n_blocks b]"
    using assms(9) by (simp_all add: tx_describes_def)
  have "i64 (int (length b))" using assms(10) by (simp add: uploadable_def i64_def)
  then have txok: "tx_ok tx" by (simp add: tx_ok_def tx(1))
  have fails: "tx_Size tx < int (length c) \<longrightarrow> \<not> truncate_fails s p (tx_Size tx)"
    using assms(12) tx(1) by simp
  obtain s1 where s1: "ApplyLiveTx_start E p tx s = Ret s1 (Some (Patching r tx [0..<n_blocks b])) []"
    "fs_ok E s1" "usable s1 p" "go_get (fs_open s1) p = Some r" "get E s1 = (get E s)(p \<mapsto> tx)"
    "content s1 = (content s)(p \<mapsto> resize c (length b))"
    "ready s1 = (ready s)(p := if length b < length c then ready s p \<inter> {..<int (length b)} else ready s p)"
    using live_resize [OF assms(1-3) r assms(4) txok assms(8) fails]
    unfolding tx length_map length_upt nat_int of_nat_less_iff diff_zero by blast
  have res: "content s1 p = Some (resize c (length b))" "length (resize c (length b)) = length b"
    using s1(6) by simp_all
  have tell: "\<forall>i \<in> set [0..<n_blocks b]. env_sum E (block (resize c (length b)) i) = env_sum E (block b i) \<longrightarrow>
      block (resize c (length b)) i = block b i"
    using assms(11) by (simp add: sums_tell_def)
  have range: "\<forall>i \<in> set [0..<n_blocks b]. i < n_blocks b" by simp
  obtain s' b' where s': "run_task E net (Patching r tx [0..<n_blocks b]) s1 = Ret s' () []"
    "fs_ok E s'" "usable s' p" "fs_db s' = fs_db s1" "content s' = (content s1)(p \<mapsto> b')" "length b' = length b"
    "\<forall>x < length b. b' ! x = (if x div block_len \<in> set [0..<n_blocks b] then b ! x else resize c (length b) ! x)"
    "ready s' = (ready s1)(p := ready s1 p \<union> differing (resize c (length b)) b [0..<n_blocks b])"
    using run_patching [OF assms(1) s1(2-4) res assms(10,9) distinct_upt range tell] by blast
  have "b' = b" using s'(6,7) block_of [of _ b] by (intro nth_equalityI) auto
  moreover have "live_line E um net line s = Ret s' () []"
    using assms(5-8) s1(1) s'(1) by (simp add: live_line_def)
  moreover have "get E s' = get E s1" using s'(4) by (simp add: get_def fun_eq_iff)
  ultimately show ?thesis using s' s1 by (intro exI [of _ s']) simp
qed

end
