(* ===== verification/ClientLog.thy ===== *)
theory ClientLog
  imports TxReplay Namespace FsSystem
begin

text \<open>
  What a client tells the others about its names: the transactions that the methods of
  \<open>fs.go\<close> hand to the writer, and the log of the channel in a run of the client in which
  they are sent in the order of the calls (\<open>logged_step\<close>). In the invariant of such a run the
  log, with what is still to be sent, replays to the names of the client.
\<close>

section \<open>Transactions on the wire\<close>

text \<open>What the JSON package documents, for one transaction: it is decoded as it was encoded, to one line.\<close>

definition wire_ok :: "'t env \<Rightarrow> (string \<Rightarrow> Tx option) \<Rightarrow> Tx \<Rightarrow> bool" where
  "wire_ok E um tx \<longleftrightarrow> um (env_marshal E tx) = Some tx \<and> env_marshal E tx \<noteq> [] \<and> good_line (env_marshal E tx)"

text \<open>The attachments that the goroutine of a job sends, and the transactions in them.\<close>

fun sent_by :: "job \<Rightarrow> bytes list" where
  "sent_by (SendTx b) = [b]"
| "sent_by (SendTxs b c) = [b, c]"
| "sent_by (LoadFile p tx) = []"
| "sent_by (Upload r p tx old) = []"

definition unsent :: "job list \<Rightarrow> bytes list" where
  "unsent js = concat (map sent_by js)"

definition body_txs :: "(string \<Rightarrow> Tx option) \<Rightarrow> bytes list \<Rightarrow> Tx list" where
  "body_txs um bodies = log_txs um (concat (map scan_lines bodies))"

lemma unsent_simps [simp]:
  "unsent [] = []" "unsent (j # js) = sent_by j @ unsent js" "unsent (js @ js') = unsent js @ unsent js'"
  by (simp_all add: unsent_def)

lemma unsent_remove1 [simp]: "sent_by j = [] \<Longrightarrow> unsent (remove1 j js) = unsent js"
  by (induction js) auto

lemma body_txs_simps [simp]:
  "body_txs um [] = []" "body_txs um (bs @ cs) = body_txs um bs @ body_txs um cs"
  by (simp_all add: body_txs_def log_txs_def)

lemma scan_single:
  assumes "good_line l" "l \<noteq> []"
  shows "scan_lines l = [l]" and "good_line m \<Longrightarrow> scan_lines (m @ newline # l) = [m, l]"
proof -
  have sep: "\<forall>c \<in> set k. c \<noteq> newline" if "good_line k" for k using that by (auto simp: good_line_def)
  have "raw_lines l = [l]"
    using split_on_last [OF sep [OF assms(1)]] assms(2) by (simp add: raw_lines_def)
  then show "scan_lines l = [l]"
    using assms drop_cr_good [OF assms(1)] by (simp add: scan_lines_def good_line_def)
  assume m: "good_line m"
  have "raw_lines (m @ newline # l) = [m, l]"
    using split_on_word [OF sep [OF m], of newline l] split_on_last [OF sep [OF assms(1)]] assms(2)
    by (simp add: raw_lines_def)
  then show "scan_lines (m @ newline # l) = [m, l]"
    using assms m drop_cr_good [OF assms(1)] drop_cr_good [OF m] by (simp add: scan_lines_def good_line_def)
qed

lemma wire_body:
  assumes "wire_ok E um tx" "known tx"
  shows "body_txs um [env_marshal E tx] = [tx]" and "int (length (env_marshal E tx)) \<le> MaxDiscordFileSize"
    and "wire_ok E um tx' \<Longrightarrow> known tx' \<Longrightarrow>
      body_txs um [env_marshal E tx' @ newline # env_marshal E tx] = [tx', tx]"
proof -
  show "body_txs um [env_marshal E tx] = [tx]"
    using assms scan_single(1) by (simp add: wire_ok_def body_txs_def log_txs_def valid_line_def)
  show "int (length (env_marshal E tx)) \<le> MaxDiscordFileSize"
    using assms(1) by (simp add: wire_ok_def good_line_def MaxScanTokenSize_def MaxDiscordFileSize_def)
  show "body_txs um [env_marshal E tx' @ newline # env_marshal E tx] = [tx', tx]"
    if "wire_ok E um tx'" "known tx'"
    using assms that scan_single(2) [of "env_marshal E tx" "env_marshal E tx'"]
    by (simp add: wire_ok_def body_txs_def log_txs_def valid_line_def)
qed

lemma known_simps [simp]: "known (folderTx p)" "known (createDeleteTx p)" "known (tx\<lparr>tx_Path := q\<rparr>) = known tx"
  by (simp_all add: known_def folderTx_def createDeleteTx_def zero_Tx_def)

section \<open>What a method tells\<close>

lemma outcome_for_Nil [simp]: "outcome_for k [] old = old"
  by (simp add: outcome_for_def)

lemma outcome_for_append [simp]:
  "outcome_for k (txs @ txs') old = outcome_for k txs' (outcome_for k txs old)"
proof (induction txs' rule: rev_induct)
  case (snoc tx txs')
  show ?case unfolding append_assoc [symmetric] outcome_for_snoc using snoc by simp
qed simp

lemma outcome_for_Cons [simp]:
  "outcome_for k (tx # txs) old =
     outcome_for k txs (if tx_Path tx = k then (if tx_Tx tx = WriteTx then Some tx else None) else old)"
proof -
  have "outcome_for k [tx] old = (if tx_Path tx = k then (if tx_Tx tx = WriteTx then Some tx else None) else old)"
    by (simp add: outcome_for_def)
  then show ?thesis using outcome_for_append [of k "[tx]" txs old] by (simp only: append_Cons append_Nil)
qed

text \<open>
  The jobs of a method tell what it has done to the names; a goroutine that uploads a file
  carries a transaction for its path.
\<close>

fun upload_fits :: "job \<Rightarrow> bool" where
  "upload_fits (Upload r p tx old) \<longleftrightarrow> tx_Path tx = p \<and> tx_Tx tx = WriteTx"
| "upload_fits j \<longleftrightarrow> True"

definition tells :: "'t env \<Rightarrow> (string \<Rightarrow> Tx option) \<Rightarrow> 't Dsfs \<Rightarrow> ('t Dsfs, 'r, job) outcome \<Rightarrow> bool" where
  "tells E um s out \<longleftrightarrow> (case out of
     Ret s' r js \<Rightarrow> db_ok (env_db E) (fs_db s') \<and> (\<forall>j \<in> set js. upload_fits j) \<and>
       (\<forall>k. get E s' k = outcome_for k (body_txs um (unsent js)) (get E s k))
   | Panics s' \<Rightarrow> fs_db s' = fs_db s
   | Blocks \<Rightarrow> True)"

lemma tells_simps [simp]:
  "tells E um s (Ret s' r js) \<longleftrightarrow> db_ok (env_db E) (fs_db s') \<and> (\<forall>j \<in> set js. upload_fits j) \<and>
     (\<forall>k. get E s' k = outcome_for k (body_txs um (unsent js)) (get E s k))"
  "tells E um s (Panics s') \<longleftrightarrow> fs_db s' = fs_db s"
  "tells E um s Blocks"
  by (simp_all add: tells_def)

named_theorems telling \<open>the jobs of a method tell what it does to the names\<close>

lemma tells_files [telling]:
  assumes "db_ok (env_db E) (fs_db s)"
  shows "tells E um s (Mknod E t1 t2 p s)" "tells E um s (Open E p s)" "tells E um s (Getattr E p st s)"
    "tells E um s (Readdir E p s)" "tells E um s (fs_Truncate E t p sz s)" "tells E um s (Read E bg p buff ofst s)"
    "tells E um s (Write E t p buff ofst s)" "tells E um s (Release E p s)"
  using assms
  by (auto simp: Mknod_def Open_def Getattr_def Readdir_def fs_Truncate_def Read_def Write_def Release_def
      Let_def get_def open_new_def releaseTx_def split: option.splits wait.splits prod.splits)

text \<open>The methods that send, when their transactions survive the wire.\<close>

lemma tells_Mkdir [telling]:
  assumes "db_ok (env_db E) (fs_db s)" "wire_ok E um (folderTx p)"
  shows "tells E um s (Mkdir E p s)"
  using assms wire_body(1,2) [OF assms(2)]
  by (auto simp: Mkdir_def Let_def anydb.ok_insert)

lemma tells_removal [telling]:
  assumes "db_ok (env_db E) (fs_db s)" "wire_ok E um (createDeleteTx p)"
  shows "tells E um s (Unlink E p s)" and "tells E um s (Rmdir E p s)"
proof -
  let ?u = "s\<lparr>fs_open := go_del (fs_open s) p\<rparr>"
  have u: "get E (?u\<lparr>fs_db := db_Delete (env_db E) (fs_db s) p\<rparr>) k = (if k = p then None else get E s k)"
    "get E ?u k = get E s k" for k
    using get_db(2) [OF assms(1)] by (simp_all add: get_def)
  have d: "tx_Path (createDeleteTx p) = p" "tx_Tx (createDeleteTx p) \<noteq> WriteTx"
    by (simp_all add: createDeleteTx_def zero_Tx_def WriteTx_def DeleteTx_def)
  note w = wire_body(1,2) [OF assms(2) known_simps(2)]
  show "tells E um s (Unlink E p s)"
    using assms(1) w u d by (auto simp: Unlink_def Let_def anydb.ok_delete split: option.splits)
  show "tells E um s (Rmdir E p s)"
    using assms(1) w d by (auto simp: Rmdir_def Let_def anydb.ok_delete split: option.splits)
qed

lemma tells_Rename [telling]:
  assumes "db_ok (env_db E) (fs_db s)" "wire_ok E um (createDeleteTx old)" "old \<noteq> new"
    and "\<forall>tx. get E s old = Some tx \<longrightarrow> wire_ok E um (tx\<lparr>tx_Path := new\<rparr>) \<and> tx_Tx tx = WriteTx"
  shows "tells E um s (Rename E old new s)"
proof -
  have d: "tx_Path (createDeleteTx old) = old" "tx_Tx (createDeleteTx old) \<noteq> WriteTx"
    by (simp_all add: createDeleteTx_def zero_Tx_def WriteTx_def DeleteTx_def)
  have m: "fs_db (move_open t old new) = fs_db t" "get E (move_open t old new) k = get E t k" for t k
    by (simp_all add: move_open_def get_def split: option.splits)
  have commit: "tells E um s (rename_commit E old new tx t)"
    if tx: "get E s old = Some tx" and t: "fs_db t = fs_db s" for tx t
  proof -
    have w: "wire_ok E um (tx\<lparr>tx_Path := new\<rparr>)" "known (tx\<lparr>tx_Path := new\<rparr>)" "tx_Tx tx = WriteTx"
      using assms(4) tx by (simp_all add: known_def)
    note b = wire_body(1,2) [OF w(1,2)] wire_body [OF assms(2) known_simps(2)]
    have "db_Get (env_db E) (db_Delete (env_db E) (db_Insert (env_db E) (db_Insert (env_db E) (fs_db s) old tx') new tx') old) k =
        (if k = old then None else if k = new then Some tx' else get E s k)" for tx' k
      using assms(1) by (simp add: get_def anydb.get_insert anydb.get_delete anydb.ok_insert)
    then show ?thesis
      using assms(1,3) b(1,2,4) b(3) b(5) [OF w(1,2)] w(3) d t
      by (auto simp: rename_commit_def Let_def get_def [of E "_ \<lparr>fs_db := _\<rparr>"] anydb.ok_insert anydb.ok_delete)
        (auto simp: body_txs_def log_txs_append)
  qed
  show ?thesis
    using assms(1) m commit [OF _ refl] commit [OF _ m(1)]
    by (auto simp: Rename_def split: option.splits)
qed

section \<open>Goroutines and the database\<close>

text \<open>Only the end of an upload changes the database.\<close>

definition same_db :: "'t Dsfs \<Rightarrow> 't Dsfs \<Rightarrow> bool" where
  "same_db s s' \<longleftrightarrow> fs_db s' = fs_db s \<and> fs_txChannel s' = fs_txChannel s"

lemma same_db_set_file [simp]: "same_db s (set_file s r f)" "same_db s s" "same_db s (upload_done r s)"
  by (simp_all add: same_db_def set_file_def upload_done_def)

lemma step_parts_db:
  "dlID_store E r ofst piece s = Ret s' u js \<Longrightarrow> same_db s s'"
  "patch_check E net r tx i s = Ret s' res js \<Longrightarrow> same_db s s'"
  "patch_store E r ofst buffer piece s = Ret s' u js \<Longrightarrow> same_db s s'"
  by (auto simp: dlID_store_def patch_check_def patch_store_def Let_def split: if_splits option.splits prod.splits)

lemma up_parts:
  assumes "up E net r i fid csum tx s = Ret s' tx' js"
  shows "same_db s s'" and "tx' = Some tx1 \<Longrightarrow> tx_Path tx1 = tx_Path tx \<and> tx_Tx tx1 = tx_Tx tx"
  using assms by (auto simp: up_def Let_def split: if_splits option.splits)

fun task_fits :: "task \<Rightarrow> bool" where
  "task_fits (Uploading r p tx old is) \<longleftrightarrow> tx_Path tx = p \<and> tx_Tx tx = WriteTx"
| "task_fits t \<longleftrightarrow> True"

text \<open>An upload that has all its blocks sent.\<close>

fun finishing :: "task \<Rightarrow> bool" where
  "finishing (Uploading r p tx old is) \<longleftrightarrow> is = []"
| "finishing t \<longleftrightarrow> False"

lemma same_db_done: "same_db s s' \<Longrightarrow> same_db s (upload_done r s')"
  by (simp add: same_db_def upload_done_def set_file_def)

lemma task_step_db:
  assumes "task_step E net t s = Ret s' t' js"
  shows "\<not> finishing t \<Longrightarrow> same_db s s'" and "task_fits t \<Longrightarrow> t' = Some u \<Longrightarrow> task_fits u"
proof -
  show "same_db s s'" if "\<not> finishing t"
    using assms that
    by (cases "(E, net, t, s)" rule: task_step.cases)
      (auto intro: step_parts_db up_parts(1) same_db_done split: outcome.splits option.splits prod.splits)
  show "task_fits u" if "task_fits t" "t' = Some u"
    using assms that
    by (cases "(E, net, t, s)" rule: task_step.cases)
      (auto dest: up_parts(2) [OF _ refl] simp: upload_finish_def Let_def split: outcome.splits option.splits prod.splits if_splits)
qed

section \<open>Runs with their log\<close>

text \<open>The client, and the attachments that have arrived in the channel, in their order.\<close>

record 't client =
  cl_sys :: "'t sys"
  cl_log :: "bytes list"

text \<open>The transactions of a call survive the wire.\<close>

fun request_wire :: "'t env \<Rightarrow> (string \<Rightarrow> Tx option) \<Rightarrow> request \<Rightarrow> bool" where
  "request_wire E um (RMkdir p) \<longleftrightarrow> wire_ok E um (folderTx p)"
| "request_wire E um (RUnlink p) \<longleftrightarrow> wire_ok E um (createDeleteTx p)"
| "request_wire E um (RRmdir p) \<longleftrightarrow> wire_ok E um (createDeleteTx p)"
| "request_wire E um q \<longleftrightarrow> True"

text \<open>
  Steps in any order, but for the sends: the first that waits is sent first (\<open>send\<close>), it
  arrives, and an upload sends its transaction when none for its path waits (\<open>store\<close>).
  A call of \<open>Rename\<close> is one step.
\<close>

inductive logged_step :: "'t env \<Rightarrow> (string \<Rightarrow> Tx option) \<Rightarrow> 't client \<Rightarrow> 't client \<Rightarrow> bool" for E um where
  call: "request_wire E um q \<Longrightarrow> logged_step E um c (c\<lparr>cl_sys := call E q (cl_sys c)\<rparr>)"
| rename: "wire_ok E um (createDeleteTx old) \<Longrightarrow> old \<noteq> new \<Longrightarrow>
    (\<And>tx. get E (sy_fs (cl_sys c)) old = Some tx \<Longrightarrow> wire_ok E um (tx\<lparr>tx_Path := new\<rparr>)) \<Longrightarrow>
    logged_step E um c (c\<lparr>cl_sys := advance (cl_sys c) (Rename E old new (sy_fs (cl_sys c)))\<rparr>)"
| send: "sy_jobs (cl_sys c) = js1 @ j # js2 \<Longrightarrow> unsent js1 = [] \<Longrightarrow> sent_by j \<noteq> [] \<Longrightarrow>
    logged_step E um c (c\<lparr>cl_sys := (cl_sys c)\<lparr>sy_jobs := js1 @ js2\<rparr>, cl_log := cl_log c @ sent_by j\<rparr>)"
| start: "j \<in> set (sy_jobs (cl_sys c)) \<Longrightarrow> sent_by j = [] \<Longrightarrow> start_job j (sy_fs (cl_sys c)) = (s', t) \<Longrightarrow>
    logged_step E um c (c\<lparr>cl_sys := (cl_sys c)\<lparr>sy_fs := s', sy_jobs := remove1 j (sy_jobs (cl_sys c)),
      sy_tasks := sy_tasks (cl_sys c) @ opt_list t\<rparr>\<rparr>)"
| task: "t \<in> set (sy_tasks (cl_sys c)) \<Longrightarrow> \<not> finishing t \<Longrightarrow>
    task_step E net t (sy_fs (cl_sys c)) = Ret s' t' js \<Longrightarrow>
    logged_step E um c (c\<lparr>cl_sys := (cl_sys c)\<lparr>sy_fs := s',
      sy_tasks := remove1 t (sy_tasks (cl_sys c)) @ opt_list t'\<rparr>\<rparr>)"
| store: "Uploading r p tx old [] \<in> set (sy_tasks (cl_sys c)) \<Longrightarrow> wire_ok E um tx \<Longrightarrow>
    p \<notin> tx_Path ` set (body_txs um (unsent (sy_jobs (cl_sys c)))) \<Longrightarrow>
    task_step E net (Uploading r p tx old []) (sy_fs (cl_sys c)) = Ret s' t' js \<Longrightarrow>
    logged_step E um c (c\<lparr>cl_sys := (cl_sys c)\<lparr>sy_fs := s',
        sy_tasks := remove1 (Uploading r p tx old []) (sy_tasks (cl_sys c)) @ opt_list t'\<rparr>,
      cl_log := cl_log c @ (if net_tx net (env_marshal E tx) then [env_marshal E tx] else [])\<rparr>)"

text \<open>The names are those that the log, with what waits, tells; the database holds no deletions.\<close>

definition logged_ok :: "'t env \<Rightarrow> (string \<Rightarrow> Tx option) \<Rightarrow> (string \<Rightarrow> Tx option) \<Rightarrow> 't client \<Rightarrow> bool" where
  "logged_ok E um g c \<longleftrightarrow>
     (let y = cl_sys c in
      db_ok (env_db E) (fs_db (sy_fs y)) \<and>
      (\<forall>j \<in> set (sy_jobs y). upload_fits j) \<and> (\<forall>t \<in> set (sy_tasks y). task_fits t) \<and>
      (\<forall>k. get E (sy_fs y) k = outcome_for k (body_txs um (cl_log c @ unsent (sy_jobs y))) (g k)) \<and>
      (\<forall>k tx. g k = Some tx \<longrightarrow> tx_Tx tx = WriteTx))"

lemma outcome_for_writes:
  "outcome_for k txs old = Some tx \<Longrightarrow> (\<And>tx. old = Some tx \<Longrightarrow> tx_Tx tx = WriteTx) \<Longrightarrow> tx_Tx tx = WriteTx"
  by (induction txs arbitrary: old) (auto split: if_splits)

lemma outcome_for_other: "k \<notin> tx_Path ` set txs \<Longrightarrow> outcome_for k txs old = old"
  by (induction txs arbitrary: old) auto

lemma get_cong: "fs_db s' = fs_db s \<Longrightarrow> get E s' k = get E s k"
  by (simp add: get_def)

text \<open>A method whose jobs tell what it does.\<close>

lemma logged_advance:
  assumes "logged_ok E um g c" "tells E um (sy_fs (cl_sys c)) out"
  shows "logged_ok E um g (c\<lparr>cl_sys := advance (cl_sys c) out\<rparr>)"
proof (cases out)
  case (Panics s)
  then show ?thesis using assms get_cong [of s "sy_fs (cl_sys c)" E] by (auto simp: logged_ok_def advance_def Let_def)
qed (use assms in \<open>auto simp: logged_ok_def advance_def Let_def\<close>)

lemma logged_call:
  assumes "logged_ok E um g c" "request_wire E um q"
  shows "logged_ok E um g (c\<lparr>cl_sys := call E q (cl_sys c)\<rparr>)"
proof -
  have "db_ok (env_db E) (fs_db (sy_fs (cl_sys c)))" using assms(1) by (simp add: logged_ok_def Let_def)
  then show ?thesis
    using assms by (cases q) (simp_all add: logged_advance telling)
qed

lemma logged_start:
  assumes "start_job j s = (s', t)" "upload_fits j"
  shows "fs_db s' = fs_db s" and "t = Some u \<Longrightarrow> task_fits u"
  using assms by (cases j; auto simp: start_job_def Let_def set_file_def split: if_splits)+

lemma logged_store:
  assumes "task_step E net (Uploading r p tx old []) s = Ret s' t' js"
    and "int (length (env_marshal E tx)) \<le> MaxDiscordFileSize"
  shows "t' = None"
    and "fs_db s' = (if net_tx net (env_marshal E tx) then db_Insert (env_db E) (fs_db s) p tx else fs_db s)"
  using assms by (auto simp: upload_finish_def Let_def upload_done_def set_file_def split: if_splits)

lemma logged_ok_step:
  assumes "logged_ok E um g c" "logged_step E um c c'"
  shows "logged_ok E um g c'"
  using assms(2)
proof cases
  case (call q)
  then show ?thesis using logged_call [OF assms(1)] by simp
next
  case (rename old new)
  have "tx_Tx tx = WriteTx" if "get E (sy_fs (cl_sys c)) old = Some tx" for tx
    using that assms(1) outcome_for_writes [of old _ "g old" tx] unfolding logged_ok_def Let_def by metis
  then have "tells E um (sy_fs (cl_sys c)) (Rename E old new (sy_fs (cl_sys c)))"
    using rename assms(1) by (intro tells_Rename) (auto simp: logged_ok_def Let_def)
  then show ?thesis using rename logged_advance [OF assms(1)] by simp
next
  case (send js1 j js2)
  then show ?thesis using assms(1) by (simp add: logged_ok_def Let_def)
next
  case (start j s' t)
  have "upload_fits j" using assms(1) start(2) by (simp add: logged_ok_def Let_def)
  note st = logged_start [OF start(4) this]
  show ?thesis
    using assms(1) st(2) get_cong [OF st(1), of E] unfolding start(1)
    by (cases t) (auto simp: logged_ok_def Let_def st(1) start(3) dest: notin_set_remove1)
next
  case (task t net s' t' js)
  note st = task_step_db [OF task(4)]
  have f: "task_fits t" using assms(1) task(2) by (simp add: logged_ok_def Let_def)
  have db: "fs_db s' = fs_db (sy_fs (cl_sys c))" using st(1) task(3) by (simp add: same_db_def)
  show ?thesis
    using assms(1) st(2) [OF f] get_cong [OF db, of E] unfolding task(1)
    by (cases t') (auto simp: logged_ok_def Let_def db dest: notin_set_remove1)
next
  case (store r p tx old net s' t' js)
  have tx: "tx_Path tx = p" "tx_Tx tx = WriteTx" using assms(1) store(2) by (fastforce simp: logged_ok_def Let_def)+
  note b = wire_body(1,2) [OF store(3)]
  have k: "known tx" using tx by (simp add: known_def)
  note st = logged_store [OF store(5) b(2) [OF k]]
  let ?pend = "body_txs um (unsent (sy_jobs (cl_sys c)))" and ?s = "sy_fs (cl_sys c)"
  have inv: "db_ok (env_db E) (fs_db ?s)" "\<forall>k. get E ?s k = outcome_for k (body_txs um (cl_log c) @ ?pend) (g k)"
    using assms(1) by (simp_all add: logged_ok_def Let_def)
  have told: "outcome_for k (body_txs um (cl_log c) @ tx # ?pend) (g k) = (if k = p then Some tx else get E ?s k)" for k
    using inv(2) store(4) tx by (simp add: outcome_for_other)
  have g': "get E s' k = (if net_tx net (env_marshal E tx) \<and> k = p then Some tx else get E ?s k)" for k
    using st(2) inv(1) by (simp add: get_def anydb.get_insert)
  show ?thesis
    using assms(1) g' told b(1) [OF k] st inv(1) unfolding store(1)
    by (auto simp: logged_ok_def Let_def anydb.ok_insert dest: notin_set_remove1)
qed

interpretation logged: machine "logged_step E um" "logged_ok E um g" for E um g
  by unfold_locales (rule logged_ok_step)

end
