(* ===== verification/Clients.thy ===== *)
theory Clients
  imports LivePatch ClientLog
begin

text \<open>
  The clients of one server and the log they share: what a client that listens makes of the
  transactions of the others (\<open>tx.go\<close>), and what the transactions of a client tell about
  its own names (\<open>fs.go\<close>). A run of a client with its log is \<open>logged_step\<close>.
\<close>

section \<open>A listening client\<close>

text \<open>The goroutine of \<open>ApplyLiveTx\<close> leaves the database alone once it has stored the transaction.\<close>

fun patches :: "task \<Rightarrow> bool" where
  "patches (Patching r tx is) = True"
| "patches (Replacing r tx ofst buffer piece is) = True"
| "patches t = False"

lemma patch_step_db:
  assumes "patches t" "task_step E net t s = Ret s1 t1 js"
  shows "same_db s s1 \<and> (\<forall>t'. t1 = Some t' \<longrightarrow> patches t')"
proof
  show "same_db s s1" using task_step_db(1) [OF assms(2)] assms(1) by (cases t) auto
  show "\<forall>t'. t1 = Some t' \<longrightarrow> patches t'"
    using assms by (cases t) (auto split: outcome.splits option.splits prod.splits elim: patches.elims task_step.elims)
qed

lemma run_patches_db: "patches t \<Longrightarrow> run_task E net t s = Ret s' u js \<Longrightarrow> same_db s s'"
proof (induction E net t s arbitrary: s' u js rule: run_task.induct)
  case (1 E net t s)
  obtain s1 t1 js1 where step: "task_step E net t s = Ret s1 t1 js1"
    using "1.prems"(2) by (subst (asm) run_task.simps) (auto split: outcome.splits)
  note db = patch_step_db [OF "1.prems"(1) step]
  show ?case
  proof (cases t1)
    case None
    then show ?thesis using "1.prems"(2) step db by (subst (asm) run_task.simps) simp
  next
    case (Some t')
    then have "run_task E net t' s1 = Ret s' u js" using "1.prems"(2) step by (subst (asm) run_task.simps) simp
    moreover have "patches t'" using db Some by simp
    ultimately show ?thesis using "1.IH" [OF step Some] db by (simp add: same_db_def)
  qed
qed

text \<open>A line that is handled live does to the database what its replay does.\<close>

lemma live_line_db:
  assumes "live_line E um net line s = Ret s' u js"
  shows "fs_db s' = fst (apply_line E um line (fs_db s, b)) \<and> fs_txChannel s' = fs_txChannel s"
proof (cases "line = []")
  case False
  have ins: "fs_db s' = db_Insert (env_db E) (fs_db s) (tx_Path tx) tx \<and> fs_txChannel s' = fs_txChannel s"
    if tx: "um line = Some tx" "tx_Tx tx = WriteTx" for tx
  proof -
    consider s1 js1 where "ApplyLiveTx_start E (tx_Path tx) tx s = Ret s1 None js1" "s' = s1"
      | s1 t js1 where "ApplyLiveTx_start E (tx_Path tx) tx s = Ret s1 (Some t) js1" "run_task E net t s1 = Ret s' u js"
      using assms False tx by (auto simp: live_line_def split: outcome.splits option.splits)
    then show ?thesis
    proof cases
      case 1
      then show ?thesis
        by (auto simp: ApplyLiveTx_start_def Let_def set_file_def split: if_splits option.splits)
    next
      case 2
      have "fs_db s1 = db_Insert (env_db E) (fs_db s) (tx_Path tx) tx" "fs_txChannel s1 = fs_txChannel s" "patches t"
        using 2(1) by (auto simp: ApplyLiveTx_start_def Let_def set_file_def split: if_splits option.splits)
      then show ?thesis using run_patches_db [OF _ 2(2)] by (simp add: same_db_def)
    qed
  qed
  show ?thesis
    using assms False ins
    by (cases "um line") (auto simp: live_line_def apply_line_def live_delete_def split: if_splits)
qed (use assms in \<open>simp add: live_line_def apply_line_def\<close>)

lemma live_line_effect:
  assumes "live_line E um net line s = Ret s' u js"
  shows "fs_db s' = fold (tx_effect E) (log_txs um [line]) (fs_db s)" and "fs_txChannel s' = fs_txChannel s"
  using live_line_db [OF assms, of "[]"] apply_lines [of E um "[line]" "fs_db s" "[]"] by simp_all

text \<open>The lines of an attachment, of a message, of several messages.\<close>

abbreviation live_lines ::
    "'t env \<Rightarrow> (string \<Rightarrow> Tx option) \<Rightarrow> net \<Rightarrow> string list \<Rightarrow> ('t Dsfs, unit, job) outcome \<Rightarrow> ('t Dsfs, unit, job) outcome" where
  "live_lines E um net ls out \<equiv> fold (\<lambda>line out. then_do out (live_line E um net line)) ls out"

lemma then_do_simps [simp]:
  "then_do (Ret s u js) f = f s" "then_do (Panics s) f = Panics s" "then_do Blocks f = Blocks"
  by (simp_all add: then_do_def)

lemma live_lines_stop:
  "live_lines E um net ls (Panics s) = Panics s" "live_lines E um net ls Blocks = Blocks"
  by (induction ls) simp_all

lemma run_task_jobs: "run_task E net t s = Ret s' u js \<Longrightarrow> js = []"
proof (induction E net t s arbitrary: s' u js rule: run_task.induct)
  case (1 E net t s)
  have "(case task_step E net t s of Ret s' None js \<Rightarrow> Ret s' () [] | Ret s' (Some t') js \<Rightarrow> run_task E net t' s'
      | Panics s' \<Rightarrow> Panics s' | Blocks \<Rightarrow> Blocks) = Ret s' u js"
    using "1.prems" by (subst (asm) run_task.simps)
  then show ?case using "1.IH" by (auto split: outcome.splits option.splits)
qed

lemma live_line_jobs: "live_line E um net line s = Ret s' u js \<Longrightarrow> js = []"
  by (auto simp: live_line_def live_delete_def dest: run_task_jobs split: if_splits option.splits outcome.splits)

lemma live_lines_effect:
  "live_lines E um net ls (Ret s () []) = Ret s' u js \<Longrightarrow>
   fs_db s' = fold (tx_effect E) (log_txs um ls) (fs_db s) \<and> fs_txChannel s' = fs_txChannel s \<and> js = []"
proof (induction ls arbitrary: s)
  case (Cons l ls)
  obtain s1 where 1: "live_line E um net l s = Ret s1 () []"
    using Cons.prems live_lines_stop [of E um net ls] live_line_jobs [of E um net l s]
    by (cases "live_line E um net l s") auto
  have "log_txs um (l # ls) = log_txs um [l] @ log_txs um ls" by (simp add: log_txs_def)
  then show ?case
    using Cons.IH [of s1] Cons.prems 1 live_line_effect [OF 1] by simp
qed (simp add: log_txs_def)

lemma live_lines_messages:
  "applyMessageTxs_live E um http net ms s = live_lines E um net (all_lines http ms) (Ret s () [])"
proof -
  let ?f = "\<lambda>line out. then_do out (live_line E um net line)"
  let ?ls = "\<lambda>u. case http u of None \<Rightarrow> [] | Some data \<Rightarrow> scan_lines data"
  have "fold (\<lambda>u out. case http u of None \<Rightarrow> out | Some data \<Rightarrow> fold ?f (scan_lines data) out) us out =
      fold ?f (concat (map ?ls us)) out" for us out
    by (induction us arbitrary: out) (simp_all split: option.split)
  then have "fold (\<lambda>m out. fold (\<lambda>u out. case http u of None \<Rightarrow> out | Some data \<Rightarrow> fold ?f (scan_lines data) out)
      (msg_URLs m) out) ms out = fold ?f (concat (map (\<lambda>m. concat (map ?ls (msg_URLs m))) ms)) out" for out
    by (induction ms arbitrary: out) simp_all
  then show ?thesis by (simp add: applyMessageTxs_live_def all_lines_def)
qed

text \<open>The messages of others that arrive one after the other while the client runs.\<close>

definition hears ::
    "'t env \<Rightarrow> (string \<Rightarrow> Tx option) \<Rightarrow> (string \<Rightarrow> bytes option) \<Rightarrow> net \<Rightarrow> string \<Rightarrow> Message list \<Rightarrow> 't Dsfs \<Rightarrow>
     ('t Dsfs, unit, job) outcome" where
  "hears E um http net self ms s = fold (\<lambda>m out. then_do out (messageCreate E um http net True self m)) ms (Ret s () [])"

lemma all_lines_Cons: "all_lines http (m # ms) = all_lines http [m] @ all_lines http ms"
  by (simp add: all_lines_def)

lemma hears_lines:
  assumes "\<forall>m \<in> set ms. msg_Author m \<noteq> self \<and> msg_Channel m = fs_txChannel s"
  shows "hears E um http net self ms s = live_lines E um net (all_lines http ms) (Ret s () [])"
proof -
  have stop: "fold (\<lambda>m out. then_do out (messageCreate E um http net True self m)) ms (Panics t) = Panics t"
    "fold (\<lambda>m out. then_do out (messageCreate E um http net True self m)) ms Blocks = Blocks" for ms and t :: "'a Dsfs"
    by (induction ms) simp_all
  have "fold (\<lambda>m out. then_do out (messageCreate E um http net True self m)) ms (Ret t () []) =
      live_lines E um net (all_lines http ms) (Ret t () [])" if "fs_txChannel t = fs_txChannel s" for t
    using assms that
  proof (induction ms arbitrary: t)
    case (Cons m ms)
    have m: "messageCreate E um http net True self m t = live_lines E um net (all_lines http [m]) (Ret t () [])"
      using Cons.prems by (simp add: messageCreate_def live_lines_messages)
    show ?case
    proof (cases "live_lines E um net (all_lines http [m]) (Ret t () [])")
      case (Ret t1 u js1)
      have t1: "fs_txChannel t1 = fs_txChannel s" "js1 = []" using live_lines_effect [OF Ret] Cons.prems(2) by simp_all
      have "fold (\<lambda>m out. then_do out (messageCreate E um http net True self m)) ms (Ret t1 () []) =
          live_lines E um net (all_lines http ms) (Ret t1 () [])"
        using Cons.IH [OF _ t1(1)] Cons.prems(1) by simp
      then show ?thesis using m Ret t1(2) by (simp add: all_lines_Cons [of http m ms])
    qed (use m in \<open>simp_all add: all_lines_Cons [of http m ms] stop live_lines_stop\<close>)
  qed (simp add: all_lines_def)
  from this [OF refl] show ?thesis unfolding hears_def .
qed

text \<open>Live handling is replay.\<close>

lemma hears_replay:
  assumes "hears E um http net self ms s = Ret s' u js"
    and "\<forall>m \<in> set ms. msg_Author m \<noteq> self \<and> msg_Channel m = fs_txChannel s"
  shows "fs_db s' = fst (applyMessageTxs E um http ms (fs_db s, b))"
  using live_lines_effect [of E um net "all_lines http ms" s] assms(1)
  unfolding hears_lines [OF assms(2)] by (simp add: applyMessageTxs_lines apply_lines)

text \<open>When no file that the lines write is open, the client hears them all.\<close>

lemma live_line_closed:
  assumes "\<not> fs_locked s" "\<forall>tx. um line = Some tx \<longrightarrow> \<not> is_open s (tx_Path tx)"
  shows "\<exists>s'. live_line E um net line s = Ret s' () [] \<and> \<not> fs_locked s' \<and> (\<forall>q. is_open s' q \<longrightarrow> is_open s q)"
proof (cases "um line")
  case (Some tx)
  then show ?thesis
    using assms
    by (auto simp: live_line_def ApplyLiveTx_start_def live_delete_def is_open_def)
qed (use assms in \<open>simp add: live_line_def\<close>)

lemma live_lines_closed:
  assumes "\<not> fs_locked s" "\<forall>line \<in> set ls. \<forall>tx. um line = Some tx \<longrightarrow> \<not> is_open s (tx_Path tx)"
  shows "\<exists>s'. live_lines E um net ls (Ret s () []) = Ret s' () []"
  using assms
proof (induction ls arbitrary: s)
  case (Cons l ls)
  have "\<forall>tx. um l = Some tx \<longrightarrow> \<not> is_open s (tx_Path tx)" using Cons.prems(2) by simp
  then obtain s1 where s1: "live_line E um net l s = Ret s1 () []" "\<not> fs_locked s1" "\<forall>q. is_open s1 q \<longrightarrow> is_open s q"
    using live_line_closed [OF Cons.prems(1), of um l E net] by blast
  have "\<forall>line \<in> set ls. \<forall>tx. um line = Some tx \<longrightarrow> \<not> is_open s1 (tx_Path tx)"
    using Cons.prems(2) s1(3) by (metis list.set_intros(2))
  from Cons.IH [OF s1(2) this] show ?case using s1(1) by simp
qed simp

end
