(* ===== verification/ClientProps.thy ===== *)
theory ClientProps
  imports Clients TransferProps LogProps
begin

text \<open>
  Properties of several clients on one server: what the log of a client's transactions tells,
  what another client makes of it, live or from the start, and when they disagree.
\<close>

section \<open>The log and the names\<close>


text \<open>An encoder that tells deletions from writes.\<close>

definition sample_wire :: "Tx gomap env" where
  "sample_wire = sample_env\<lparr>env_marshal := (\<lambda>tx. if tx_Tx tx = DeleteTx then CHR ''-'' # tx_Path tx else tx_Path tx)\<rparr>"

lemma sample_wire_sel [simp]:
  "env_db sample_wire = env_db sample_env" "env_cache sample_wire = env_cache sample_env" "env_win sample_wire = False"
  "env_ok sample_wire" "get sample_wire s p = get sample_env s p"
  "env_marshal sample_wire tx = (if tx_Tx tx = DeleteTx then CHR ''-'' # tx_Path tx else tx_Path tx)"
  by (simp_all add: sample_wire_def get_def) (simp add: env_ok_def sample_iradix_laws order_ok_def)


definition sample_root :: "Tx gomap Dsfs" where
  "sample_root = NewDsfs (MapDB [(''/'', rootTx)]) ''t'' ''d'' ''memory''"

lemma sample_root_sel [simp]:
  "fs_db sample_root = MapDB [(''/'', rootTx)]" "\<not> fs_locked sample_root" "fs_open sample_root = []"
  "get sample_env sample_root p = (if p = ''/'' then Some rootTx else None)" "fs_txChannel sample_root = ''t''"
  by (simp_all add: sample_root_def NewDsfs_def get_def db_Get_def map_Get_def go_get_def)

lemma sample_root_ok [simp]: "db_ok (env_db sample_env) (MapDB [(''/'', rootTx)])" "fs_ok sample_wire sample_root"
proof -
  show d: "db_ok (env_db sample_env) (MapDB [(''/'', rootTx)])" by (simp add: db_ok_def go_ok_def order_ok_def)
  show "fs_ok sample_wire sample_root"
    using d by (simp add: fs_ok_def sample_root_def NewDsfs_def get_def open_ok_def go_ok_def db_Get_def map_Get_def go_get_def)
qed


abbreviation sample_message :: Message where
  "sample_message \<equiv> \<lparr>msg_ID = ''1'', msg_Author = ''a'', msg_Channel = ''t'', msg_URLs = [''u'']\<rparr>"

lemma sample_message_lines: "all_lines (\<lambda>u. Some ''/f'') [sample_message] = [''/f'']" "scan_lines ''/f'' = [''/f'']"
proof -
  show l: "scan_lines ''/f'' = [''/f'']" by (rule scan_single) (simp_all add: good_line_def MaxScanTokenSize_def)
  show "all_lines (\<lambda>u. Some ''/f'') [sample_message] = [''/f'']" by (simp add: all_lines_def l)
qed




section \<open>Listening\<close>

text \<open>
  C8. To listen is to replay: a client that handles the messages of the others as they arrive has
  then the same database as one that reads them from the log; and it does handle them all, unless
  its lock was left taken or a file that they name is open, where an error may come in between.
\<close>

theorem hearing_is_replay:
  assumes "\<forall>m \<in> set ms. msg_Author m \<noteq> self \<and> msg_Channel m = fs_txChannel s"
  shows "(case hears E um http net self ms s of
     Ret s' u js \<Rightarrow> fs_db s' = fst (applyMessageTxs E um http ms (fs_db s, b))
   | _ \<Rightarrow> fs_locked s \<or> (\<exists>line \<in> set (all_lines http ms). \<exists>tx. um line = Some tx \<and> is_open s (tx_Path tx)))"
proof (cases "\<not> fs_locked s \<and> (\<forall>line \<in> set (all_lines http ms). \<forall>tx. um line = Some tx \<longrightarrow> \<not> is_open s (tx_Path tx))")
  case True
  then obtain s' where "hears E um http net self ms s = Ret s' () []"
    using live_lines_closed [of s "all_lines http ms" um E net] unfolding hears_lines [OF assms] by blast
  then show ?thesis using hears_replay [OF _ assms] by simp
next
  case False
  then show ?thesis using hears_replay [OF _ assms] by (auto split: outcome.split)
qed

theorem hearing_is_replay_witness:
  "(case hears sample_wire sample_um (\<lambda>u. Some ''/f'') sample_net ''me'' [sample_message] sample_root of
     Ret s' u js \<Rightarrow> get sample_wire s' ''/f'' = Some (folderTx ''/f'') | _ \<Rightarrow> False)"
proof -
  have "\<forall>m \<in> set [sample_message]. msg_Author m \<noteq> ''me'' \<and> msg_Channel m = fs_txChannel sample_root" by simp
  note h = hearing_is_replay [OF this, where E = sample_wire and um = sample_um and http = "\<lambda>u. Some ''/f''" and
      net = sample_net and b = "[]"]
  have "db_Get (env_db sample_wire) (fst (applyMessageTxs sample_wire sample_um (\<lambda>u. Some ''/f'') [sample_message]
      (fs_db sample_root, []))) ''/f'' = Some (folderTx ''/f'')"
    using replay_get [of sample_wire "fs_db sample_root" sample_um "\<lambda>u. Some ''/f''" "[sample_message]" "[]" "''/f''"]
      sample_root_ok(1)
    by (simp only: sample_message_lines sample_wire_sel sample_root_sel)
      (simp add: log_txs_def valid_line_def sample_um_def)
  then show ?thesis
    using h by (auto simp: is_open_def go_get_def get_def split: outcome.splits)
qed

text \<open>
  C7. Changes spread to open files: when a client releases a changed file and another client has
  the file open, the message of the upload makes the content there the released one, however the
  two contents and their sizes were related, and both databases have the same transaction. The
  network returns what was sent; no two different blocks in question have the same checksum;
  and the load ranges of the open file survive the cut if there is one.
\<close>

theorem change_spreads:
  assumes "env_ok E" "fs_ok E s" "usable s p" "content s p = Some b" "go_get (fs_open s) p = Some r"
    and "dirty s p" "\<not> syncing s p" "uploadable b" "ids_ok (get E s p)"
    and "upload_ids E net (get E s p) b [0..<n_blocks b] = Some fids"
    and "wire_ok E um (uploadedTx E p (file_at s r) b fids)" "net_tx net (env_marshal E (uploadedTx E p (file_at s r) b fids))"
    and "\<forall>blk fid. net_up net blk = Some fid \<longrightarrow> net_dl net fid = Some blk"
    and "\<forall>i fid. old_block (get E s p) i = Some (fid, env_sum E (block b i)) \<longrightarrow> net_dl net fid = Some (block b i)"
    and "fs_ok E t" "usable t p" "content t p = Some c" "sums_tell E (resize c (length b)) b"
    and "length b < length c \<longrightarrow> \<not> truncate_fails t p (int (length b))"
    and "msg_Author m \<noteq> self" "msg_Channel m = fs_txChannel t" "msg_URLs m = [url]"
    and "http url = Some (env_marshal E (uploadedTx E p (file_at s r) b fids))"
  shows "\<exists>j s' t'. Release E p s = Ret s 0 [j] \<and> run_job E net j s = Ret s' () [] \<and>
    messageCreate E um http net True self m t = Ret t' () [] \<and>
    content s' p = Some b \<and> content t' p = Some b \<and> get E t' p = get E s' p \<and> get E s' p \<noteq> None"
proof -
  let ?tx = "uploadedTx E p (file_at s r) b fids" and ?line = "env_marshal E (uploadedTx E p (file_at s r) b fids)"
  have tx: "tx_Path ?tx = p" "tx_Tx ?tx = WriteTx" by (simp_all add: uploadedTx_def releaseTx_def)
  note w = wire_body(2) [OF assms(11)]
  have fits: "int (length ?line) \<le> MaxDiscordFileSize" using w tx(2) by (simp add: known_def)
  have "\<not> fs_locked s" using assms(3) by (simp add: usable_def)
  note rel = Release_dirty [OF this assms(5,6), of E]
  obtain s' where s': "run_job E net (Upload r p (releaseTx p (file_at s r)) (get E s p)) s = Ret s' () []"
    "content s' = content s" "get E s' = (get E s)(p \<mapsto> ?tx)"
    using run_upload(2) [OF assms(2-5,7-10) fits assms(12)] by blast
  have "Size (fd_cache (file_at s r)) = int (length b)"
    using Size_ok(1) [of "env_cache E" "fd_cache (file_at s r)"] fs_okD(5) [OF assms(2,5)] assms(4,5)
    by (simp add: content_def file_bytes_def file_ok_def)
  then have d: "tx_describes E net ?tx b"
    using upload_ids_fetch [OF assms(10,13,14)] by (simp add: tx_describes_def uploadedTx_def releaseTx_def)
  have l: "?line \<noteq> []" "um ?line = Some ?tx" "scan_lines ?line = [?line]"
    using assms(11) scan_single(1) by (simp_all add: wire_ok_def)
  obtain t' where t': "live_line E um net ?line t = Ret t' () []" "get E t' = (get E t)(p \<mapsto> ?tx)"
    "content t' = (content t)(p \<mapsto> b)"
    using live_write_open [where um = um and line = ?line, OF assms(1,15-17) l(1,2) tx(2,1) d assms(8,18,19)] by blast
  have "all_lines http [m] = [?line]" using assms(22,23) l(3) by (simp add: all_lines_def)
  then have "messageCreate E um http net True self m t = Ret t' () []"
    using assms(20,21) t'(1) by (simp add: messageCreate_def live_lines_messages)
  then show ?thesis using rel s' t' assms(4) by auto
qed

text \<open>The second client has the same path open, with other bytes.\<close>

theorem change_spreads_witness:
  "\<exists>j s' t'. Release sample_env ''/g'' (at_g ''abc'') = Ret (at_g ''abc'') 0 [j] \<and>
    run_job sample_env sample_net j (at_g ''abc'') = Ret s' () [] \<and>
    messageCreate sample_env (\<lambda>l. Some (uploadedTx sample_env ''/g'' (sample_file ''abc'' []) ''abc'' [''id'']))
      (\<lambda>u. Some ''/g'') sample_net True ''me'' sample_message (at_g ''xy'') = Ret t' () [] \<and>
    content t' ''/g'' = Some ''abc''"
proof -
  let ?s = "at_g ''abc''" and ?t = "at_g ''xy''"
  let ?tx = "uploadedTx sample_env ''/g'' (file_at ?s 0) ''abc'' [''id'']"
  have op: "go_get (fs_open ?s) ''/g'' = Some 0" and ok: "fs_ok sample_env ?s" "fs_ok sample_env ?t"
    using at_g_ok [of "''abc''"] at_g_ok [of "''xy''"] by (simp_all add: go_get_def)
  have m: "env_marshal sample_env ?tx = ''/g''" by (simp add: uploadedTx_def releaseTx_def)
  have wire: "wire_ok sample_env (\<lambda>l. Some ?tx) ?tx"
    by (simp add: wire_ok_def m good_line_def MaxScanTokenSize_def del: sample_env_sel(6))
  have pre: "uploadable ''abc''" "ids_ok (get sample_env ?s ''/g'')" "net_tx sample_net (env_marshal sample_env ?tx)"
    by (simp_all add: uploadable_def ids_ok_def sample_net_def at_g_sel sample_tx_def zero_Tx_def)
  have up: "upload_ids sample_env sample_net (get sample_env ?s ''/g'') ''abc'' [0..<n_blocks ''abc''] = Some [''id'']"
    by (simp add: old_block_def up_result_def sample_net_def at_g_sel sample_tx_def zero_Tx_def)
  have net: "\<forall>blk fid. net_up sample_net blk = Some fid \<longrightarrow> net_dl sample_net fid = Some blk"
    by (simp add: sample_net_def)
  have old: "\<forall>i fid. old_block (get sample_env ?s ''/g'') i = Some (fid, env_sum sample_env (block ''abc'' i)) \<longrightarrow>
      net_dl sample_net fid = Some (block ''abc'' i)"
    by (auto simp: old_block_def at_g_sel sample_tx_def zero_Tx_def sample_net_def split: if_splits)
  have sums: "sums_tell sample_env (resize ''xy'' (length ''abc'')) ''abc''"
    "length ''abc'' < length ''xy'' \<longrightarrow> \<not> truncate_fails ?t ''/g'' (int (length ''abc''))"
    by (simp_all add: sums_tell_def)
  have msg: "msg_Author sample_message \<noteq> ''me''" "msg_Channel sample_message = fs_txChannel ?t"
    "msg_URLs sample_message = [''u'']"
    by (simp_all add: sample_fs_def)
  have http: "(\<lambda>u. Some ''/g'') ''u'' = Some (env_marshal sample_env ?tx)" by (simp only: m)
  obtain j s' t' where "Release sample_env ''/g'' ?s = Ret ?s 0 [j]" "run_job sample_env sample_net j ?s = Ret s' () []"
    "messageCreate sample_env (\<lambda>l. Some ?tx) (\<lambda>u. Some ''/g'') sample_net True ''me'' sample_message ?t = Ret t' () []"
    "content t' ''/g'' = Some ''abc''"
    using change_spreads [OF sample_env_ok ok(1) at_g_view(1,2) op at_g_view(3,4) pre(1,2) up wire pre(3) net old
        ok(2) at_g_view(1,2) sums msg http] by blast
  then show ?thesis unfolding at_g_sel(2) by blast
qed

text \<open>
  C26. Zeros at the end do not spread: when another client has made a file longer by zero bytes,
  the client that has it open makes its copy longer, finds that the checksums of the blocks
  agree, and does not mark the new bytes as ready: its content is right, but reads of the new
  bytes end without any.
\<close>

theorem zeros_unreadable:
  assumes "env_ok E" "fs_ok E s" "usable s p" "content s p = Some c" "ofst \<notin> ready s p"
    and "line \<noteq> []" "um line = Some tx" "tx_Tx tx = WriteTx" "tx_Path tx = p"
    and "tx_describes E net tx (c @ replicate n zero_byte)" "uploadable (c @ replicate n zero_byte)"
    and "int (length c) \<le> ofst" "ofst < int (length c + n)"
  shows "\<exists>s1 s2. live_line E um net line s = Ret s1 () [] \<and> content s1 p = Some (c @ replicate n zero_byte) \<and>
    Read E (\<lambda>k f. f) p buff ofst s1 = Ret s2 (0, buff) []"
proof -
  let ?b = "c @ replicate n zero_byte"
  have res: "resize c (length ?b) = ?b" by (simp add: resize_def)
  obtain s1 where s1: "live_line E um net line s = Ret s1 () []" "fs_ok E s1" "usable s1 p"
    "content s1 = (content s)(p \<mapsto> ?b)" "ready s1 = (ready s)(p := ready s p \<union> differing ?b ?b [0..<n_blocks ?b])"
    using live_write_open [where um = um and line = line, OF assms(1-4,6-11)] unfolding res by (auto simp: sums_tell_def)
  have "i64 (int (length ?b))" using assms(11) by (simp add: uploadable_def i64_def)
  then have "i64 ofst" using assms(12,13) by (auto simp: i64_def)
  moreover have "ofst \<notin> ready s1 p" using s1(5) assms(5) by (simp add: differing_def)
  ultimately show ?thesis
    using Read_idle [OF assms(1) s1(2,3), of ofst buff] s1(1,4) assms(12) by auto
qed

text \<open>A file of three bytes, all of them ready, to which another client has appended a zero.\<close>

theorem zeros_unreadable_witness:
  "\<exists>s1 s2. live_line sample_env (\<lambda>l. Some (zero_Tx\<lparr>tx_Path := ''/f'', tx_Size := 4, tx_FileIDs := [''i''],
        tx_Checksums := [''habc'' @ [zero_byte]]\<rparr>))
      (sample_net\<lparr>net_dl := (\<lambda>i. Some (''abc'' @ [zero_byte]))\<rparr>) ''/f'' (sample_fs ''abc'' [rng 0 3]) = Ret s1 () [] \<and>
    content s1 ''/f'' = Some (''abc'' @ [zero_byte]) \<and>
    Read sample_env (\<lambda>k f. f) ''/f'' ''..'' 3 s1 = Ret s2 (0, ''..'') []"
proof -
  let ?tx = "zero_Tx\<lparr>tx_Path := ''/f'', tx_Size := 4, tx_FileIDs := [''i''], tx_Checksums := [''habc'' @ [zero_byte]]\<rparr>"
  let ?net = "sample_net\<lparr>net_dl := (\<lambda>i. Some (''abc'' @ [zero_byte]))\<rparr>" and ?s = "sample_fs ''abc'' [rng 0 3]"
  have rep: "''abc'' @ replicate 1 zero_byte = ''abc'' @ [zero_byte]" by simp
  have blk: "n_blocks (''abc'' @ [zero_byte]) = 1" "block (''abc'' @ [zero_byte]) 0 = ''abc'' @ [zero_byte]"
    by (simp_all add: n_blocks_def block_count_def block_def block_len_def FileBlockSize_def)
  have ok: "fs_ok sample_env ?s" by (rule sample_fs_small) (simp_all add: i64_def)
  have d: "tx_describes sample_env ?net ?tx (''abc'' @ replicate 1 zero_byte)" "uploadable (''abc'' @ replicate 1 zero_byte)"
    unfolding rep by (simp_all add: tx_describes_def blk uploadable_def del: append_Cons)
  have pre: "usable ?s ''/f''" "content ?s ''/f'' = Some ''abc''" "3 \<notin> ready ?s ''/f''" "''/f'' \<noteq> []"
    "tx_Tx ?tx = WriteTx" "tx_Path ?tx = ''/f''" "int (length ''abc'') \<le> 3" "3 < int (length ''abc'' + 1)"
    by (simp_all add: zero_Tx_def WriteTx_def)
  show ?thesis
    using zeros_unreadable [where um = "\<lambda>l. Some ?tx" and line = "''/f''", OF sample_env_ok ok pre(1-4) refl pre(5,6) d pre(7,8),
        of "''..''"]
    unfolding rep .
qed

section \<open>Two clients at once\<close>

text \<open>
  C23. Clients that act at the same time disagree for good: one removes a file while another is
  about to store a new version of it. Both succeed; each then hears of what the other did and
  takes it for the newer state: the one that removed the file has it, the one that stored it
  has not. The log, which has the two in one order, agrees with one of them at most.
\<close>

theorem clients_diverge:
  assumes "fs_ok E a" "\<not> fs_locked a" "get E a p = Some old" "tx_Type old \<noteq> FolderType"
    and "fs_ok E s" "\<not> fs_locked s" "tx_ok tx" "tx_Path tx = p" "tx_Tx tx = WriteTx" "net_tx net (env_marshal E tx)"
    and "wire_ok E um tx" "wire_ok E um (createDeleteTx p)"
  shows "\<exists>a1 s1 a2 s2. Unlink E p a = Ret a1 0 [SendTx (env_marshal E (createDeleteTx p))] \<and>
    task_step E net (Uploading r p tx old' []) s = Ret s1 None [] \<and>
    live_line E um net (env_marshal E tx) a1 = Ret a2 () [] \<and>
    live_line E um net (env_marshal E (createDeleteTx p)) s1 = Ret s2 () [] \<and>
    get E a2 p = Some tx \<and> get E s2 p = None"
proof -
  let ?a1 = "a\<lparr>fs_open := go_del (fs_open a) p, fs_db := db_Delete (env_db E) (fs_db a) p\<rparr>"
  let ?a2 = "?a1\<lparr>fs_db := db_Insert (env_db E) (fs_db ?a1) p tx\<rparr>"
  let ?s1 = "(upload_done r s)\<lparr>fs_db := db_Insert (env_db E) (fs_db s) p tx\<rparr>"
  let ?s2 = "?s1\<lparr>fs_db := db_Delete (env_db E) (fs_db ?s1) p, fs_open := go_del (fs_open ?s1) p\<rparr>"
  have k: "known tx" using assms(9) by (simp add: known_def)
  note w = wire_body(2) [OF assms(11) k] wire_body(2) [OF assms(12) known_simps(2)]
  have l: "env_marshal E tx \<noteq> []" "um (env_marshal E tx) = Some tx"
    "env_marshal E (createDeleteTx p) \<noteq> []" "um (env_marshal E (createDeleteTx p)) = Some (createDeleteTx p)"
    using assms(11,12) by (simp_all add: wire_ok_def)
  have d: "tx_Tx (createDeleteTx p) = DeleteTx" "tx_Path (createDeleteTx p) = p" "DeleteTx \<noteq> WriteTx"
    by (simp_all add: createDeleteTx_def zero_Tx_def WriteTx_def DeleteTx_def)
  have "Unlink E p a = Ret ?a1 0 [SendTx (env_marshal E (createDeleteTx p))]"
    using assms(2-4) w(2) by (simp add: Unlink_def Let_def)
  moreover have "task_step E net (Uploading r p tx old' []) s = Ret ?s1 None []"
    using upload_last [OF assms(6)] w(1) assms(10) by simp
  moreover have "live_line E um net (env_marshal E tx) ?a1 = Ret ?a2 () []"
    using l assms(2,8,9) by (simp add: live_line_def ApplyLiveTx_start_def)
  moreover have "live_line E um net (env_marshal E (createDeleteTx p)) ?s1 = Ret ?s2 () []"
    using l d assms(6) by (simp add: live_line_def live_delete_def upload_done_def)
  moreover have "get E ?a2 p = Some tx" "get E ?s2 p = None"
    using fs_okD(1) [OF assms(1)] fs_okD(1) [OF assms(5)]
    by (simp_all add: get_def anydb.get_insert anydb.get_delete anydb.ok_insert anydb.ok_delete)
  ultimately show ?thesis by blast
qed

theorem clients_diverge_witness:
  "\<exists>a1 s1 a2 s2. Unlink sample_wire ''/g'' (sample_fs ''x'' []) = Ret a1 0 [SendTx ''-/g''] \<and>
    task_step sample_wire (sample_net\<lparr>net_tx := (\<lambda>b. True)\<rparr>) (Uploading 0 ''/g'' sample_tx None []) (sample_fs ''x'' []) =
      Ret s1 None [] \<and>
    get sample_wire a2 ''/g'' = Some sample_tx \<and> get sample_wire s2 ''/g'' = None"
proof -
  let ?um = "\<lambda>l. if l = ''/g'' then Some sample_tx else Some (createDeleteTx ''/g'')" and ?s = "sample_fs ''x'' []"
  let ?net = "sample_net\<lparr>net_tx := (\<lambda>b. True)\<rparr>"
  have ok: "fs_ok sample_wire ?s"
    using sample_fs_small [of "[]" "''x''"] by (simp add: fs_ok_def file_ok_def)
  have d: "tx_Tx (createDeleteTx ''/g'') = DeleteTx" "tx_Path (createDeleteTx ''/g'') = ''/g''" "DeleteTx \<noteq> WriteTx"
    "tx_Tx sample_tx = WriteTx"
    by (simp_all add: createDeleteTx_def zero_Tx_def WriteTx_def DeleteTx_def sample_tx_def)
  have m: "env_marshal sample_wire sample_tx = ''/g''" "env_marshal sample_wire (createDeleteTx ''/g'') = ''-/g''"
    using d by simp_all
  have wire: "wire_ok sample_wire ?um sample_tx" "wire_ok sample_wire ?um (createDeleteTx ''/g'')"
    unfolding wire_ok_def m by (simp_all add: good_line_def MaxScanTokenSize_def)
  have pre: "\<not> fs_locked ?s" "get sample_wire ?s ''/g'' = Some sample_tx" "tx_Type sample_tx \<noteq> FolderType"
    "net_tx ?net (env_marshal sample_wire sample_tx)"
    by (simp_all add: FolderType_def FileType_def)
  from clients_diverge [OF ok pre(1-3) ok pre(1) sample_tx_types(1,5) d(4) pre(4) wire, of 0 None] show ?thesis
    unfolding m by blast
qed

end
