(* ===== verification/MapIter.thy ===== *)
theory MapIter
  imports Dsfs Machine
begin

text \<open>
  \<open>MapDB.Iterator\<close> of \<open>db.go\<close> as it runs: a goroutine ranges over the map and sends the entries
  with the prefix on an unbuffered channel, then an entry that says there are no more. The
  caller is the loop of \<open>Rmdir\<close> and \<open>Rename\<close> that looks for a key other than the folder's own:
  it holds the lock of the file system, and gives it back when it returns, which it does at the
  first other key.

  The entries are those of the map in the order in which the range yields them.
\<close>

datatype producer = Ranging "(string \<times> Tx) list" | Sending string Tx "(string \<times> Tx) list" | SendingEnd | Finished

text \<open>The caller waits in \<open>Next\<close>, or has returned: whether it found another key.\<close>

datatype caller = Asking | Stopped bool

type_synonym iter_run = "producer \<times> caller"

definition start_iter :: "(string \<times> Tx) list \<Rightarrow> iter_run" where
  "start_iter es = (Ranging es, Asking)"

text \<open>What the caller does with an entry that it receives.\<close>

definition look_at :: "string \<Rightarrow> string \<Rightarrow> caller" where
  "look_at path key = (if key \<noteq> path then Stopped True else Asking)"

inductive iter_step :: "string \<Rightarrow> iter_run \<Rightarrow> iter_run \<Rightarrow> bool" for path where
  skip: "\<not> prefix path key \<Longrightarrow> iter_step path (Ranging ((key, tx) # es), c) (Ranging es, c)"
| offer: "prefix path key \<Longrightarrow> iter_step path (Ranging ((key, tx) # es), c) (Sending key tx es, c)"
| ranged: "iter_step path (Ranging [], c) (SendingEnd, c)"
| pass: "iter_step path (Sending key tx es, Asking) (Ranging es, look_at path key)"
| pass_end: "iter_step path (SendingEnd, Asking) (Finished, Stopped False)"

inductive_cases iter_stepE: "iter_step path y y'"

text \<open>A caller that has returned asks no more.\<close>

inductive_simps step_from_stopped: "iter_step path (p, Stopped found) y"

text \<open>The entries that the goroutine has still to hand over, and whether a key is another one.\<close>

fun to_come :: "producer \<Rightarrow> (string \<times> Tx) list" where
  "to_come (Ranging es) = es"
| "to_come (Sending key tx es) = (key, tx) # es"
| "to_come SendingEnd = []"
| "to_come Finished = []"

definition other :: "string \<Rightarrow> (string \<times> Tx) list \<Rightarrow> bool" where
  "other path es \<longleftrightarrow> (\<exists>(key, tx) \<in> set es. prefix path key \<and> key \<noteq> path)"

lemma other_simps [simp]:
  "\<not> other path []" "other path ((key, tx) # es) \<longleftrightarrow> prefix path key \<and> key \<noteq> path \<or> other path es"
  "other path (xs @ ys) \<longleftrightarrow> other path xs \<or> other path ys"
  by (auto simp: other_def)

lemma other_map_Iterator: "other path (go_entries ord m) \<longleftrightarrow> (\<exists>(key, tx) \<in> set (map_Iterator ord m path). key \<noteq> path)"
  by (auto simp: other_def map_Iterator_def)

text \<open>What has been handed over or skipped, when the goroutine is at \<open>p\<close> and the caller at \<open>c\<close>.\<close>

fun past_ok :: "string \<Rightarrow> (string \<times> Tx) list \<Rightarrow> iter_run \<Rightarrow> bool" where
  "past_ok path past (p, Asking) \<longleftrightarrow> \<not> other path past \<and> p \<noteq> Finished"
| "past_ok path past (p, Stopped True) \<longleftrightarrow> other path past \<and> p \<noteq> Finished"
| "past_ok path past (p, Stopped False) \<longleftrightarrow> \<not> other path past \<and> p = Finished"

definition iter_inv :: "string \<Rightarrow> (string \<times> Tx) list \<Rightarrow> iter_run \<Rightarrow> bool" where
  "iter_inv path es y \<longleftrightarrow> (\<exists>past. es = past @ to_come (fst y) \<and> past_ok path past y) \<and>
     (\<forall>key tx more. fst y = Sending key tx more \<longrightarrow> prefix path key)"

lemma iter_inv_start: "iter_inv path es (start_iter es)"
  by (auto simp: iter_inv_def start_iter_def intro: exI [of _ "[]"])

lemma past_ok_move:
  "past_ok path past (p, c) \<Longrightarrow> p \<noteq> Finished \<Longrightarrow> p' \<noteq> Finished \<Longrightarrow> past_ok path past (p', c)"
  by (cases c rule: caller.exhaust; cases "c = Stopped True") (auto split: bool.splits elim: past_ok.elims)

lemma iter_inv_step:
  assumes "iter_inv path es y" "iter_step path y y'"
  shows "iter_inv path es y'"
proof -
  obtain past where past: "es = past @ to_come (fst y)" "past_ok path past y"
    using assms(1) by (auto simp: iter_inv_def)
  from assms(2) show ?thesis
  proof cases
    case (skip key tx more c)
    then have "past_ok path (past @ [(key, tx)]) (Ranging more, c)"
      using past(2) by (cases c; cases "c = Stopped True") (auto elim: past_ok.elims)
    then show ?thesis using past(1) skip by (auto simp: iter_inv_def)
  next
    case (offer key tx more c)
    then show ?thesis using past past_ok_move [of path past "Ranging ((key, tx) # more)" c] by (auto simp: iter_inv_def)
  next
    case (ranged c)
    then show ?thesis using past past_ok_move [of path past "Ranging []" c] by (auto simp: iter_inv_def)
  next
    case (pass key tx more)
    then have "prefix path key" using assms(1) by (auto simp: iter_inv_def)
    then have "past_ok path (past @ [(key, tx)]) (Ranging more, look_at path key)"
      using past(2) pass by (simp add: look_at_def)
    then show ?thesis using past(1) pass by (auto simp: iter_inv_def)
  next
    case pass_end
    then show ?thesis using past by (auto simp: iter_inv_def)
  qed
qed

interpretation iter_machine: machine "iter_step path" "iter_inv path es" for path es
  by unfold_locales (rule iter_inv_step)

text \<open>No run goes on for ever: each step brings the goroutine nearer to its end.\<close>

fun work_left :: "producer \<Rightarrow> nat" where
  "work_left (Ranging es) = 2 * length es + 2"
| "work_left (Sending key tx es) = 2 * length es + 3"
| "work_left SendingEnd = 1"
| "work_left Finished = 0"

lemma iter_step_works: "iter_step path y y' \<Longrightarrow> work_left (fst y') < work_left (fst y)"
  by (auto elim!: iter_stepE)

text \<open>The end of the caller's loop when there is another key: the goroutine still ranges.\<close>

lemma reaches_race:
  "other path es \<Longrightarrow> \<exists>more. reaches (iter_step path) (Ranging es, Asking) (Ranging more, Stopped True)"
proof (induction es)
  case (Cons e es)
  obtain key tx where e: "e = (key, tx)" by (cases e)
  have offer: "reaches (iter_step path) (Ranging (e # es), Asking) (Ranging es, look_at path key)" if "prefix path key"
    unfolding e by (rule reaches_trans; rule one_step) (rule iter_step.offer [OF that], rule iter_step.pass)
  show ?case
  proof (cases "prefix path key \<and> key \<noteq> path")
    case True
    then show ?thesis using offer by (auto simp: look_at_def)
  next
    case False
    have "reaches (iter_step path) (Ranging (e # es), Asking) (Ranging es, Asking)"
    proof (cases "prefix path key")
      case True
      with False offer show ?thesis by (simp add: look_at_def)
    qed (unfold e, rule one_step, rule iter_step.skip)
    moreover have "other path es" using Cons.prems False e by auto
    ultimately show ?thesis using Cons.IH reaches_trans by metis
  qed
qed simp

lemma stopped_stays:
  assumes "reaches (iter_step path) y y'" "snd y = Stopped found"
  shows "snd y' = Stopped found"
  using assms by (induction rule: reaches.induct) (auto elim: iter_stepE)

lemma stopped_result:
  "iter_inv path es y \<Longrightarrow> snd y = Stopped found \<Longrightarrow> found = other path es \<and> (fst y = Finished \<longleftrightarrow> \<not> found)"
  by (cases y; cases found) (auto simp: iter_inv_def)

text \<open>
  The methods that look for another key are modelled as if the iterator were a list
  (\<open>has_other_key\<close>); the loop beside its goroutine comes to the same result.
\<close>

lemma has_other_key_run:
  assumes "fs_db s = MapDB m" "reaches (iter_step path) (start_iter (go_entries (de_order (env_db E)) m)) y"
    and "snd y = Stopped found"
  shows "found = has_other_key E s path"
proof -
  have "found = other path (go_entries (de_order (env_db E)) m)"
    using stopped_result [OF iter_machine.reaches_inv [OF assms(2) iter_inv_start] assms(3)] by simp
  then show ?thesis using assms(1) by (auto simp: other_map_Iterator has_other_key_def db_Iterator_def list_ex_iff)
qed

text \<open>
  C25. The iterator of a \<open>MapDB\<close> and the loop of \<open>Rmdir\<close> and \<open>Rename\<close>, in every interleaving: the
  loop finds out whether the database has another key with the prefix; when it has none the
  goroutine has ended; when it has one the goroutine never ends, and it may still range over
  the map after the caller has returned and given back the lock, while other calls write it.
\<close>

theorem stopped_iterator_races:
  "(\<forall>y found. reaches (iter_step path) (start_iter (go_entries ord m)) y \<and> snd y = Stopped found \<longrightarrow>
      found = (\<exists>(key, tx) \<in> set (map_Iterator ord m path). key \<noteq> path) \<and>
      (if found then \<forall>y'. reaches (iter_step path) y y' \<longrightarrow> fst y' \<noteq> Finished else fst y = Finished)) \<and>
   ((\<exists>(key, tx) \<in> set (map_Iterator ord m path). key \<noteq> path) \<longrightarrow>
      (\<exists>more. reaches (iter_step path) (start_iter (go_entries ord m)) (Ranging more, Stopped True)))"
proof -
  let ?es = "go_entries ord m"
  have result: "found = other path ?es \<and> (fst y = Finished \<longleftrightarrow> \<not> found)"
    if "reaches (iter_step path) (start_iter ?es) y" "snd y = Stopped found" for y found
    using stopped_result [OF iter_machine.reaches_inv [OF that(1) iter_inv_start] that(2)] .
  have "if found then \<forall>y'. reaches (iter_step path) y y' \<longrightarrow> fst y' \<noteq> Finished else fst y = Finished"
    if y: "reaches (iter_step path) (start_iter ?es) y" "snd y = Stopped found" for y found
  proof (cases found)
    case True
    then show ?thesis using result [OF reaches_trans [OF y(1)] stopped_stays [OF _ y(2)]] by simp
  next
    case False
    then show ?thesis using result [OF y] by simp
  qed
  then show ?thesis
    using result reaches_race [of path ?es] unfolding other_map_Iterator start_iter_def by blast
qed

theorem stopped_iterator_races_witness:
  "\<exists>more. reaches (iter_step ''/a'')
     (start_iter (go_entries (\<lambda>ks. ks) [(''/a'', zero_Tx), (''/a/b'', zero_Tx), (''/c'', zero_Tx)]))
     (Ranging more, Stopped True)"
proof -
  have "\<exists>(key, tx) \<in> set (map_Iterator (\<lambda>ks. ks) [(''/a'', zero_Tx), (''/a/b'', zero_Tx), (''/c'', zero_Tx)] ''/a'').
      key \<noteq> ''/a''"
    by (simp add: map_Iterator_def go_entries_def go_get_def)
  then show ?thesis using stopped_iterator_races [of "''/a''" "\<lambda>ks. ks"] by blast
qed

end
