(* ===== verification/DiskReaders.thy ===== *)
theory DiskReaders
  imports CacheStore Machine
begin

text \<open>
  \<open>DiskCache.ReadRange\<close> of \<open>cache.go\<close> as it runs beside other readers of the same file. \<open>Read\<close> and
  the upload of a block hold the file's lock for reading while they call it, so any number of
  them may be in it at once: each first moves the position of the one temporary file and then
  reads from wherever the position is. Writers are kept out by the lock.
\<close>

text \<open>A reader: about to seek, with its range and buffer; about to read; or with its result.\<close>

datatype reader = Wants int int bytes | Sought int int bytes | Got bytes int

definition disk_seek :: "DiskCache \<Rightarrow> int \<Rightarrow> DiskCache" where
  "disk_seek c s = c\<lparr>dc_file := os_Seek (dc_file c) s\<rparr>"

definition disk_fetch :: "DiskCache \<Rightarrow> int \<Rightarrow> int \<Rightarrow> bytes \<Rightarrow> DiskCache \<times> bytes \<times> int" where
  "disk_fetch c s e buffer =
     (let n = sub64 e s in
      if n \<le> 0 then (c, buffer, 0)
      else (case os_Read (dc_file c) (min (length buffer) (nat n)) of
              (f', got) \<Rightarrow> (c\<lparr>dc_file := f'\<rparr>, go_copy buffer got, int (length got))))"

lemma ReadRange_parts: "disk_ReadRange c s e buffer = Some (disk_fetch (disk_seek c s) s e buffer)"
  by (simp add: disk_ReadRange_def disk_fetch_def disk_seek_def Let_def split: prod.split)

type_synonym readers = "DiskCache \<times> reader list"

inductive reader_step :: "readers \<Rightarrow> readers \<Rightarrow> bool" where
  seek: "i < length rs \<Longrightarrow> rs ! i = Wants s e b \<Longrightarrow> reader_step (c, rs) (disk_seek c s, rs[i := Sought s e b])"
| fetch: "i < length rs \<Longrightarrow> rs ! i = Sought s e b \<Longrightarrow> disk_fetch c s e b = (c', b', n) \<Longrightarrow>
    reader_step (c, rs) (c', rs[i := Got b' n])"

inductive_cases reader_stepE: "reader_step y y'"

text \<open>The file itself is not touched.\<close>

definition readers_inv :: "(int \<Rightarrow> bytes \<Rightarrow> bytes \<times> int) \<Rightarrow> bytes \<Rightarrow> readers \<Rightarrow> bool" where
  "readers_inv lw data y \<longleftrightarrow> disk_ok lw (fst y) \<and> disk_contents (fst y) = data"

lemma disk_seek_keeps [simp]:
  "disk_ok lw (disk_seek c s) = disk_ok lw c" "disk_contents (disk_seek c s) = disk_contents c"
  "disk_Size (disk_seek c s) = disk_Size c"
  by (simp_all add: disk_seek_def disk_ok_def disk_contents_def disk_Size_def os_Seek_def)

lemma os_Read_keeps:
  "of_bytes (fst (os_Read f n)) = of_bytes f" "of_closed (fst (os_Read f n)) = of_closed f"
  by (simp_all add: os_Read_def Let_def)

lemma disk_fetch_keeps:
  assumes "disk_fetch c s e b = (c', b', n)"
  shows "disk_ok lw c' = disk_ok lw c" "disk_contents c' = disk_contents c"
proof -
  have "c' = c \<or> (\<exists>k. c' = c\<lparr>dc_file := fst (os_Read (dc_file c) k)\<rparr>)"
    using assms by (auto simp: disk_fetch_def Let_def split_beta split: if_splits)
  then show "disk_ok lw c' = disk_ok lw c" "disk_contents c' = disk_contents c"
    by (auto simp: os_Read_keeps disk_ok_def disk_contents_def)
qed

interpretation readers_machine: machine reader_step "readers_inv lw data" for lw data
  by unfold_locales (auto simp: readers_inv_def disk_fetch_keeps elim!: reader_stepE)

text \<open>What a reader gets is what the file has at its position, not where the reader sought.\<close>

lemma disk_fetch_at:
  assumes "disk_ok lw c" "of_pos (dc_file c) = p" "0 \<le> p" "s < e" "i64 s" "i64 e" "i64 (e - s)"
    and "length b = nat (e - s)" "p + (e - s) \<le> disk_Size c"
  shows "\<exists>c'. disk_fetch c s e b = (c', sub_slice (disk_contents c) (nat p) (nat (p + (e - s))), e - s)"
proof -
  let ?got = "take (nat (e - s)) (drop (nat p) (of_bytes (dc_file c)))"
  have n: "sub64 e s = e - s" using assms(7) by (simp add: i64_simps)
  have "nat p + nat (e - s) \<le> length (of_bytes (dc_file c))"
    using assms(1,3,4,9) by (simp add: disk_ok_def disk_Size_def)
  then have len: "length ?got = nat (e - s)" by simp
  have "?got = sub_slice (disk_contents c) (nat p) (nat (p + (e - s)))"
    using assms(3,4) by (simp add: sub_slice_def disk_contents_def nat_add_distrib)
  moreover have "go_copy b ?got = ?got" using len assms(8) by (simp add: go_copy_same_length)
  ultimately show ?thesis
    using n len assms by (auto simp: disk_fetch_def os_Read_def Let_def disk_ok_def)
qed

text \<open>
  C24. Two readers of one file on disk, both within the lock: the first may get its own bytes, and
  it may get as many bytes from where the second reads, if the second seeks between the
  first one's seek and read. A block that is read for an upload in this way is uploaded with
  the bytes of another place. The file itself stays what it was in every interleaving.
\<close>

theorem readers_mix:
  assumes "disk_ok lw c" "0 \<le> s" "s < e" "e \<le> disk_Size c" "length b = nat (e - s)"
    and "0 \<le> s'" "s' + (e - s) \<le> disk_Size c"
  shows "(\<exists>c' r. reaches reader_step (c, [Wants s e b, Wants s' e' b'])
        (c', [Got (sub_slice (disk_contents c) (nat s) (nat e)) (e - s), r])) \<and>
    (\<exists>c' r. reaches reader_step (c, [Wants s e b, Wants s' e' b'])
        (c', [Got (sub_slice (disk_contents c) (nat s') (nat (s' + (e - s)))) (e - s), r])) \<and>
    (\<forall>y. reaches reader_step (c, [Wants s e b, Wants s' e' b']) y \<longrightarrow> disk_contents (fst y) = disk_contents c)"
proof (intro conjI allI impI)
  let ?y = "(c, [Wants s e b, Wants s' e' b'])"
  have opn: "\<not> of_closed (dc_file c)" and "i64 (disk_Size c)"
    using assms(1) unfolding disk_ok_def disk_Size_def by blast+
  then have rng: "i64 s" "i64 e" "i64 (e - s)" using assms(2-4) by (auto simp: i64_def)
  have first: "reader_step ?y (disk_seek c s, [Sought s e b, Wants s' e' b'])"
    using reader_step.seek [of 0 "[Wants s e b, Wants s' e' b']" s e b c] by simp
  have second: "reader_step (disk_seek c s, [Sought s e b, Wants s' e' b'])
      (disk_seek (disk_seek c s) s', [Sought s e b, Sought s' e' b'])"
    using reader_step.seek [of 1 "[Sought s e b, Wants s' e' b']" s' e' b' "disk_seek c s"] by simp
  have pos: "of_pos (dc_file (disk_seek c0 p)) = p" if "\<not> of_closed (dc_file c0)" "0 \<le> p" for c0 p
    using that by (simp add: disk_seek_def os_Seek_def)
  have fetch: "reader_step (c0, [Sought s e b, r]) (c1, [Got got n, r])" if "disk_fetch c0 s e b = (c1, got, n)" for c0 c1 got n r
    using reader_step.fetch [of 0 "[Sought s e b, r]" s e b c0 c1 got n] that by simp
  note one = one_step [where step = reader_step]
  have ok: "disk_ok lw (disk_seek c s)" "disk_ok lw (disk_seek (disk_seek c s) s')" using assms(1) by simp_all
  have ends: "s + (e - s) \<le> disk_Size (disk_seek c s)" "s' + (e - s) \<le> disk_Size (disk_seek (disk_seek c s) s')"
    using assms(4,7) by simp_all
  obtain c1 where "disk_fetch (disk_seek c s) s e b = (c1, sub_slice (disk_contents c) (nat s) (nat e), e - s)"
    using disk_fetch_at [OF ok(1) pos [OF opn assms(2)] assms(2,3) rng assms(5) ends(1)] by auto
  then show "\<exists>c' r. reaches reader_step ?y (c', [Got (sub_slice (disk_contents c) (nat s) (nat e)) (e - s), r])"
    using reaches_trans [OF one [OF first] one [OF fetch]] by blast
  have "\<not> of_closed (dc_file (disk_seek c s))" using opn by (simp add: disk_seek_def os_Seek_def)
  then obtain c2 where "disk_fetch (disk_seek (disk_seek c s) s') s e b =
      (c2, sub_slice (disk_contents c) (nat s') (nat (s' + (e - s))), e - s)"
    using disk_fetch_at [OF ok(2) pos [OF _ assms(6)] assms(6,3) rng assms(5) ends(2)] by auto
  then show "\<exists>c' r. reaches reader_step ?y (c', [Got (sub_slice (disk_contents c) (nat s') (nat (s' + (e - s)))) (e - s), r])"
    using reaches_trans [OF reaches_trans [OF one [OF first] one [OF second]] one [OF fetch]] by blast
next
  fix y
  assume "reaches reader_step (c, [Wants s e b, Wants s' e' b']) y"
  then show "disk_contents (fst y) = disk_contents c"
    using readers_machine.reaches_inv [of _ y lw "disk_contents c"] assms(1) by (fastforce simp: readers_inv_def)
qed

theorem readers_mix_witness:
  "\<exists>c' r. reaches reader_step
     (\<lparr>dc_file = \<lparr>of_bytes = ''abcd'', of_pos = 0, of_closed = False\<rparr>, dc_size = 4\<rparr>, [Wants 0 2 ''..'', Wants 2 4 ''..''])
     (c', [Got ''cd'' 2, r])"
proof -
  let ?c = "\<lparr>dc_file = \<lparr>of_bytes = ''abcd'', of_pos = 0, of_closed = False\<rparr>, dc_size = 4\<rparr>"
  have "disk_ok (\<lambda>lim b. (take (nat lim) b, min lim (int (length b)))) ?c"
    by (auto simp: disk_ok_def limitwriter_ok_def i64_def)
  moreover have "sub_slice (disk_contents ?c) (nat 2) (nat (2 + (2 - 0))) = ''cd''"
    by (simp add: sub_slice_def disk_contents_def)
  ultimately show ?thesis
    using readers_mix [of _ ?c 0 2 "''..''" 2 4 "''..''"] by (simp add: disk_Size_def)
qed

end
