(* ===== verification/FuseLibrary.thy ===== *)
theory FuseLibrary
  imports FuseTables
begin

text \<open>
  The library on Windows: how \<open>fspload\<close> of \<open>fuse/host_nocgo_windows.go\<close> and \<open>FspLoad\<close> of
  \<open>fuse/host_cgo.go\<close> find the DLL of WinFsp, by its name or by the directory in the registry;
  how its procedures are looked up once (\<open>c_hostFuseInit\<close>); the calls of them; and what the
  C code of \<open>fuse/host_cgo.go\<close> writes into the structs of the platforms.

  Parameters: what the system's loader answers for a name, the value \<open>InstallDir\<close> of the
  registry (a string of 16-bit words that need not end in a zero), \<open>filepath.Join\<close> of Windows,
  and the library's procedures.
\<close>

section \<open>UTF-16\<close>

text \<open>\<open>syscall.UTF16ToString\<close>: up to a zero, with a replacement for a surrogate that is alone.\<close>

definition hi_surrogate :: "nat \<Rightarrow> bool" where
  "hi_surrogate r \<longleftrightarrow> 0xD800 \<le> r \<and> r < 0xDC00"

definition lo_surrogate :: "nat \<Rightarrow> bool" where
  "lo_surrogate r \<longleftrightarrow> 0xDC00 \<le> r \<and> r < 0xE000"

fun utf16_Decode :: "nat list \<Rightarrow> nat list" where
  "utf16_Decode [] = []"
| "utf16_Decode [r] = [if hi_surrogate r \<or> lo_surrogate r then 0xFFFD else r]"
| "utf16_Decode (r1 # r2 # s) =
     (if hi_surrogate r1 \<and> lo_surrogate r2
      then ((r1 - 0xD800) * 0x400 + (r2 - 0xDC00) + 0x10000) # utf16_Decode s
      else (if hi_surrogate r1 \<or> lo_surrogate r1 then 0xFFFD else r1) # utf16_Decode (r2 # s))"

text \<open>The bytes of a character in a Go string.\<close>

definition utf8_char :: "nat \<Rightarrow> string" where
  "utf8_char r = map char_of
     (if r < 0x80 then [r]
      else if r < 0x800 then [0xC0 + r div 0x40, 0x80 + r mod 0x40]
      else if r < 0x10000 then [0xE0 + r div 0x1000, 0x80 + r div 0x40 mod 0x40, 0x80 + r mod 0x40]
      else [0xF0 + r div 0x40000, 0x80 + r div 0x1000 mod 0x40, 0x80 + r div 0x40 mod 0x40, 0x80 + r mod 0x40])"

type_synonym wstring = "16 word list"

definition UTF16ToString :: "wstring \<Rightarrow> string" where
  "UTF16ToString s = concat (map utf8_char (utf16_Decode (map unat (takeWhile (\<lambda>w. w \<noteq> 0) s))))"

section \<open>Finding the DLL\<close>

datatype goarch = Arm64 | Amd64 | I386 | OtherArch

definition dllname :: "goarch \<Rightarrow> string" where
  "dllname arch = (case arch of
     Arm64 \<Rightarrow> ''winfsp-a64.dll'' | Amd64 \<Rightarrow> ''winfsp-x64.dll'' | I386 \<Rightarrow> ''winfsp-x86.dll'' | OtherArch \<Rightarrow> '''')"

definition MAX_PATH :: nat where
  "MAX_PATH = 260"

definition REG_SZ :: "32 word" where
  "REG_SZ = 1"

text \<open>A value of the registry: its type, its size in bytes, and its data.\<close>

record reg_value =
  rv_type :: "32 word"
  rv_size :: nat
  rv_data :: wstring

definition reg_ok :: "reg_value \<Rightarrow> bool" where
  "reg_ok v \<longleftrightarrow> length (rv_data v) = (rv_size v + 1) div 2"

text \<open>\<open>RegQueryValueEx\<close> with a buffer of \<open>n\<close> bytes; \<open>None\<close> also when the key is not there.\<close>

definition query_value :: "nat \<Rightarrow> reg_value option \<Rightarrow> reg_value option" where
  "query_value n reg = (case reg of None \<Rightarrow> None | Some v \<Rightarrow> if rv_size v \<le> n then Some v else None)"

datatype fsp_result = Loaded nat | NoDll | FspPanics

text \<open>
  \<open>size\<close> is a \<open>uint32\<close>: the index \<open>size/2-1\<close> wraps when there is one byte only, and an index
  outside the array panics.
\<close>

definition last_index :: "nat \<Rightarrow> nat" where
  "last_index sz = unat (word_of_nat (sz div 2) - 1 :: 32 word)"

definition fspload ::
    "goarch \<Rightarrow> (string \<Rightarrow> nat option) \<Rightarrow> (string list \<Rightarrow> string) \<Rightarrow> reg_value option \<Rightarrow> fsp_result" where
  "fspload arch LoadDLL Join reg =
     (case LoadDLL (dllname arch) of
        Some dll \<Rightarrow> Loaded dll
      | None \<Rightarrow> (case query_value (MAX_PATH * 2) reg of
          None \<Rightarrow> NoDll
        | Some v \<Rightarrow>
            if rv_type v \<noteq> REG_SZ then NoDll
            else
              let pathbuf = rv_data v @ replicate (MAX_PATH - length (rv_data v)) 0;
                  sz = rv_size v
              in if 0 < sz \<and> MAX_PATH \<le> last_index sz then FspPanics
                 else
                   let sz1 = (if 0 < sz \<and> pathbuf ! last_index sz = 0 then sz - 2 else sz);
                       path = UTF16ToString (take (sz1 div 2) pathbuf)
                   in (case LoadDLL (Join [path, ''bin'', dllname arch]) of
                         Some dll \<Rightarrow> Loaded dll
                       | None \<Rightarrow> NoDll)))"

section \<open>Finding it with cgo\<close>

definition wide_str :: "string \<Rightarrow> wstring" where
  "wide_str s = map (\<lambda>c. word_of_nat (of_char c)) s"

definition FSP_DLLNAME :: "goarch \<Rightarrow> string" where
  "FSP_DLLNAME arch = (case arch of Arm64 \<Rightarrow> ''winfsp-a64.dll'' | Amd64 \<Rightarrow> ''winfsp-x64.dll'' | _ \<Rightarrow> ''winfsp-x86.dll'')"

definition FSP_DLLPATH :: "goarch \<Rightarrow> string" where
  "FSP_DLLPATH arch = ''bin'' @ [CHR 0x5C] @ FSP_DLLNAME arch"

text \<open>The bytes left for the registry's value, with one word more for the zero it should end in.\<close>

definition value_limit :: "goarch \<Rightarrow> nat" where
  "value_limit arch = MAX_PATH * 2 - (length (FSP_DLLPATH arch) + 1) * 2 + 2"

text \<open>
  \<open>BadAccess\<close>: C reads or writes outside \<open>PathBuf\<close>, at the index given. The status is \<open>0xC0000034\<close>
  when the registry does not tell the directory, \<open>0xC0000135\<close> when there is no DLL.
\<close>

datatype fsp_status = FspModule nat | Status nat | BadAccess int

definition FspLoad :: "goarch \<Rightarrow> (wstring \<Rightarrow> nat option) \<Rightarrow> reg_value option \<Rightarrow> fsp_status" where
  "FspLoad arch LoadLibraryW reg =
     (case LoadLibraryW (wide_str (FSP_DLLNAME arch)) of
        Some m \<Rightarrow> FspModule m
      | None \<Rightarrow> (case query_value (value_limit arch) reg of
          None \<Rightarrow> Status 0xC0000034
        | Some v \<Rightarrow>
            if rv_type v \<noteq> REG_SZ then Status 0xC0000034
            else
              let sz = rv_size v;
                  last = int (sz div 2) - 1
              in if 0 < sz \<and> last < 0 then BadAccess last
                 else
                   let sz1 = (if 0 < sz \<and> rv_data v ! nat last = 0 then sz - 2 else sz);
                       end_copy = sz1 div 2 + length (FSP_DLLPATH arch)
                   in if MAX_PATH \<le> end_copy then BadAccess (int end_copy)
                      else (case LoadLibraryW (takeWhile (\<lambda>w. w \<noteq> 0)
                                (take (sz1 div 2) (rv_data v) @ wide_str (FSP_DLLPATH arch))) of
                              Some m \<Rightarrow> FspModule m
                            | None \<Rightarrow> Status 0xC0000135)))"

section \<open>The procedures of the library\<close>

text \<open>
  The variables that \<open>c_hostFuseInit\<close> sets, once: \<open>sync.Once\<close> does not call its function again,
  not even when it panicked. A procedure that is required and missing is a panic
  (\<open>MustFindProc\<close>); those before it are set.
\<close>

record fuse_dll =
  dl_once :: bool
  dl_dll :: "nat option"
  dl_procs :: "string list"

definition no_dll :: fuse_dll where
  "no_dll = \<lparr>dl_once = False, dl_dll = None, dl_procs = []\<rparr>"

definition required_procs :: "string list" where
  "required_procs = [''fuse_main_real'', ''fuse_exit'', ''fuse_get_context'', ''fuse_opt_parse'', ''fuse_opt_free_args'']"

definition find_procs :: "(string \<Rightarrow> bool) \<Rightarrow> string list" where
  "find_procs has = (let found = takeWhile has required_procs
     in if found = required_procs \<and> has ''fuse_notify'' then found @ [''fuse_notify''] else found)"

text \<open>The new variables and the result; \<open>None\<close> for a panic.\<close>

definition c_hostFuseInit :: "fsp_result \<Rightarrow> (nat \<Rightarrow> string \<Rightarrow> bool) \<Rightarrow> fuse_dll \<Rightarrow> fuse_dll \<times> int option" where
  "c_hostFuseInit loaded has v =
     (let answer = (\<lambda>v. if dl_dll v = None then 0 else 1) in
      if dl_once v then (v, Some (answer v))
      else (case loaded of
          FspPanics \<Rightarrow> (v\<lparr>dl_once := True\<rparr>, None)
        | NoDll \<Rightarrow> (v\<lparr>dl_once := True\<rparr>, Some 0)
        | Loaded dll \<Rightarrow>
            let v1 = v\<lparr>dl_once := True, dl_dll := Some dll, dl_procs := find_procs (has dll)\<rparr>
            in (v1, if list_all (has dll) required_procs then Some (answer v1) else None)))"

text \<open>The start of \<open>Mount\<close>: what it panics with when there is no library.\<close>

definition Mount_check :: "bool \<Rightarrow> int \<Rightarrow> string option" where
  "Mount_check win found =
     (if found = 0 then Some (if win then ''cgofuse: cannot find winfsp'' else ''cgofuse: cannot find FUSE'') else None)"

text \<open>The calls of the procedures. A call through one that is not set panics.\<close>

definition c_hostMount ::
    "fuse_dll \<Rightarrow> (int \<Rightarrow> c_string list \<Rightarrow> nat \<Rightarrow> uintptr64) \<Rightarrow> int \<Rightarrow> c_string list \<Rightarrow> nat \<Rightarrow> int option" where
  "c_hostMount v fuse_main_real argc argv data =
     (if ''fuse_main_real'' \<notin> set (dl_procs v) then None
      else if fuse_main_real argc argv data = 0 then Some 1 else Some 0)"

definition c_hostUnmount :: "fuse_dll \<Rightarrow> nat \<Rightarrow> c_string \<Rightarrow> (int \<times> os_request list) option" where
  "c_hostUnmount v fuse mountpoint =
     (if ''fuse_exit'' \<notin> set (dl_procs v) then None else Some (1, [ReqFuseExit fuse]))"

definition c_hostNotify ::
    "fuse_dll \<Rightarrow> (nat \<Rightarrow> c_string \<Rightarrow> 32 word \<Rightarrow> uintptr64) \<Rightarrow> nat \<Rightarrow> c_string \<Rightarrow> 32 word \<Rightarrow> int" where
  "c_hostNotify v fuse_notify fuse path action =
     (if ''fuse_notify'' \<notin> set (dl_procs v) then 0
      else if fuse_notify fuse path action = 0 then 1 else 0)"

text \<open>With cgo; only Windows has notifications.\<close>

definition hostNotify :: "platform \<Rightarrow> (nat \<Rightarrow> c_string \<Rightarrow> 32 word \<Rightarrow> int) option \<Rightarrow> nat \<Rightarrow> c_string \<Rightarrow> 32 word \<Rightarrow> int" where
  "hostNotify pl pfn_notify fuse path action =
     (if pl = Windows
      then (case pfn_notify of None \<Rightarrow> 0 | Some notify \<Rightarrow> if notify fuse path action = 0 then 1 else 0)
      else 0)"

section \<open>Options\<close>

definition c_hostOptSet :: "c_string \<Rightarrow> nat \<Rightarrow> int \<Rightarrow> fuse_opt" where
  "c_hostOptSet templ offset val = \<lparr>fo_templ = templ, fo_offset = offset, fo_value = val\<rparr>"

definition FUSE_OPT_KEY_NONOPT :: int where
  "FUSE_OPT_KEY_NONOPT = - 2"

definition c_hostOptParseOptProc :: "uintptr64 \<Rightarrow> uintptr64" where
  "c_hostOptParseOptProc key = (if sint (ucast key :: 32 word) = FUSE_OPT_KEY_NONOPT then 1 else 0)"

definition c_hostOptParse ::
    "('args \<Rightarrow> 'data \<Rightarrow> fuse_opt list \<Rightarrow> (uintptr64 \<Rightarrow> uintptr64) option \<Rightarrow> uintptr64) \<Rightarrow>
     'args \<Rightarrow> 'data \<Rightarrow> fuse_opt list \<Rightarrow> bool \<Rightarrow> int" where
  "c_hostOptParse fuse_opt_parse args data opts nonopts =
     sint (ucast (fuse_opt_parse args data opts (if nonopts then Some c_hostOptParseOptProc else None)) :: 32 word)"

section \<open>Structs with cgo\<close>

text \<open>
  The fields of C's \<open>struct stat\<close> as they are assigned: the header may give a field a narrower
  type. \<open>None\<close> is a field that the platform does not have.
\<close>

record c_stat =
  g_dev :: "64 word"
  g_ino :: "64 word"
  g_mode :: "32 word"
  g_nlink :: "32 word"
  g_uid :: "32 word"
  g_gid :: "32 word"
  g_rdev :: "64 word"
  g_size :: int
  g_atim :: "int \<times> int"
  g_mtim :: "int \<times> int"
  g_ctim :: "int \<times> int"
  g_blksize :: int
  g_blocks :: int
  g_birthtim :: "(int \<times> int) option"
  g_flags :: "32 word option"

definition hostCstatFromFusestat ::
    "platform \<Rightarrow> bool \<Rightarrow> 64 word \<Rightarrow> 64 word \<Rightarrow> 32 word \<Rightarrow> 32 word \<Rightarrow> 32 word \<Rightarrow> 32 word \<Rightarrow> 64 word \<Rightarrow> int \<Rightarrow>
     int \<times> int \<Rightarrow> int \<times> int \<Rightarrow> int \<times> int \<Rightarrow> int \<Rightarrow> int \<Rightarrow> int \<times> int \<Rightarrow> 32 word \<Rightarrow> c_stat" where
  "hostCstatFromFusestat pl stat_ex dev ino mode nlink uid gid rdev sz atim mtim ctim blksize blocks birthtim flags =
     \<lparr>g_dev = dev, g_ino = ino, g_mode = mode, g_nlink = nlink, g_uid = uid, g_gid = gid, g_rdev = rdev,
      g_size = sz, g_atim = atim, g_mtim = mtim, g_ctim = ctim, g_blksize = blksize, g_blocks = blocks,
      g_birthtim = (if pl = Darwin \<or> pl = Windows
        then Some (if fst birthtim \<noteq> 0 then birthtim else ctim) else None),
      g_flags = (if pl = Darwin \<or> pl = Windows \<and> stat_ex then Some flags else None)\<rparr>"

definition hostCstatvfsFromFusestatfs ::
    "64 word \<Rightarrow> 64 word \<Rightarrow> 64 word \<Rightarrow> 64 word \<Rightarrow> 64 word \<Rightarrow> 64 word \<Rightarrow> 64 word \<Rightarrow> 64 word \<Rightarrow>
     64 word \<Rightarrow> 64 word \<Rightarrow> 64 word \<Rightarrow> fuse_statvfs" where
  "hostCstatvfsFromFusestatfs bsize frsize blocks bfree bavail files ffree favail fsid flag namemax =
     \<lparr>f_bsize = bsize, f_frsize = frsize, f_blocks = blocks, f_bfree = bfree, f_bavail = bavail,
      f_files = files, f_ffree = ffree, f_favail = favail, f_fsid = fsid, f_flag = flag, f_namemax = namemax\<rparr>"

definition hostFilldir :: "('b \<Rightarrow> c_string \<Rightarrow> 's option \<Rightarrow> int \<Rightarrow> int) \<Rightarrow> 'b \<Rightarrow> c_string \<Rightarrow> 's option \<Rightarrow> int \<Rightarrow> int" where
  "hostFilldir filler buf name stbuf off = filler buf name stbuf off"

text \<open>On macOS the kernel passes a position for the resource fork, which is not supported.\<close>

definition apple_Setxattr where
  "apple_Setxattr ops path name val sz flags (position :: 32 word) s = go_hostSetxattr ops path name val sz flags s"

definition apple_Getxattr where
  "apple_Getxattr ops path name val sz (position :: 32 word) s = go_hostGetxattr ops path name val sz s"

end
