(* ===== verification/LibraryProps.thy ===== *)
theory LibraryProps
  imports FuseLibrary
begin

text \<open>
  Properties of the library on Windows: where the search for the DLL leaves its buffer, that
  both variants of the search find the same DLL, what remains of an initialisation that
  failed, and that the structs and options of both variants agree.
\<close>

section \<open>The buffer of the search\<close>

lemma dll_lengths:
  "length (FSP_DLLPATH arch) = 18" "value_limit arch = 484"
  by (cases arch; simp add: FSP_DLLPATH_def FSP_DLLNAME_def value_limit_def MAX_PATH_def)+

text \<open>
  With cgo, the search reads or writes outside its buffer exactly when the value of the
  registry is a single byte, or fills the space that was left for it without ending in a zero:
  the name of the DLL then ends one word behind the buffer.
\<close>

theorem FspLoad_buffer:
  "(\<exists>i. FspLoad arch LoadLibraryW reg = BadAccess i) \<longleftrightarrow>
    LoadLibraryW (wide_str (FSP_DLLNAME arch)) = None \<and>
    (\<exists>v. reg = Some v \<and> rv_type v = REG_SZ \<and>
      (rv_size v = 1 \<or> rv_size v = value_limit arch \<and> rv_data v ! (rv_size v div 2 - 1) \<noteq> 0))"
proof (cases reg)
  case None
  then show ?thesis by (simp add: FspLoad_def query_value_def split: option.split)
next
  case (Some v)
  have idx: "nat (int (rv_size v div 2) - 1) = rv_size v div 2 - 1" by simp
  consider "LoadLibraryW (wide_str (FSP_DLLNAME arch)) \<noteq> None" | "rv_type v \<noteq> REG_SZ" | "484 < rv_size v"
    | "LoadLibraryW (wide_str (FSP_DLLNAME arch)) = None" "rv_type v = REG_SZ" "rv_size v \<le> 484"
    by linarith
  then show ?thesis
  proof cases
    case 4
    have "(\<exists>i. FspLoad arch LoadLibraryW reg = BadAccess i) \<longleftrightarrow>
        0 < rv_size v \<and> rv_size v div 2 = 0 \<or>
        484 \<le> (if 0 < rv_size v \<and> rv_data v ! (rv_size v div 2 - 1) = 0 then rv_size v - 2 else rv_size v)"
      using 4 Some
      by (auto simp: FspLoad_def query_value_def Let_def dll_lengths MAX_PATH_def idx split: option.splits)
    also have "\<dots> \<longleftrightarrow> rv_size v = 1 \<or> rv_size v = 484 \<and> rv_data v ! (rv_size v div 2 - 1) \<noteq> 0"
      using 4(3) by auto
    finally show ?thesis using 4 Some by (simp add: dll_lengths)
  qed (use Some in \<open>auto simp: FspLoad_def query_value_def dll_lengths split: option.splits\<close>)
qed

text \<open>The other variant panics for a single byte, and has room for everything else.\<close>

lemma last_index_small: "0 < sz \<Longrightarrow> sz \<le> MAX_PATH * 2 \<Longrightarrow> MAX_PATH \<le> last_index sz \<longleftrightarrow> sz = 1"
proof -
  assume "0 < sz" "sz \<le> MAX_PATH * 2"
  show ?thesis
  proof (cases "sz = 1")
    case True
    then show ?thesis by (simp add: last_index_def MAX_PATH_def unsigned_minus_1_eq_mask mask_eq_exp_minus_1)
  next
    case False
    with \<open>0 < sz\<close> obtain k where k: "sz div 2 = Suc k" by (cases "sz div 2") auto
    have "Suc k \<le> 260" using \<open>sz \<le> MAX_PATH * 2\<close> k by (simp add: MAX_PATH_def)
    then have "last_index sz = k" by (simp add: last_index_def k unsigned_of_nat take_bit_nat_eq_self)
    then show ?thesis using \<open>Suc k \<le> 260\<close> False by (simp add: MAX_PATH_def)
  qed
qed

theorem fspload_panics:
  "fspload arch LoadDLL Join reg = FspPanics \<longleftrightarrow>
    LoadDLL (dllname arch) = None \<and> (\<exists>v. reg = Some v \<and> rv_type v = REG_SZ \<and> rv_size v = 1)"
proof (cases reg)
  case None
  then show ?thesis by (simp add: fspload_def query_value_def split: option.split)
next
  case (Some v)
  have "(0 < rv_size v \<and> MAX_PATH \<le> last_index (rv_size v)) = (rv_size v = 1)" if "rv_size v \<le> MAX_PATH * 2"
    using last_index_small [of "rv_size v"] that by (cases "rv_size v = 0") (auto simp: MAX_PATH_def)
  then show ?thesis using Some
    by (cases "rv_size v \<le> MAX_PATH * 2")
      (auto simp: fspload_def query_value_def MAX_PATH_def Let_def split: option.splits)
qed

section \<open>The same DLL\<close>

definition ascii :: "string \<Rightarrow> bool" where
  "ascii s \<longleftrightarrow> (\<forall>c \<in> set s. c \<noteq> zero_byte \<and> of_char c < (128 :: nat))"

lemma ascii_char:
  assumes "ascii s" "c \<in> set s"
  shows "of_char c < (128 :: nat)" "unat (word_of_nat (of_char c) :: 16 word) = of_char c"
    "(word_of_nat (of_char c) :: 16 word) \<noteq> 0"
proof -
  show small: "of_char c < (128 :: nat)" using assms by (simp add: ascii_def)
  then have "of_char c < (2 :: nat) ^ 16" by simp
  then show word: "unat (word_of_nat (of_char c) :: 16 word) = of_char c"
    by (simp only: unsigned_of_nat len_num1 len_bit0 take_bit_nat_eq_self) (simp add: take_bit_nat_eq_self)
  have "char_of (of_char c :: nat) = c" by simp
  moreover have "char_of (0 :: nat) = zero_byte" by (simp add: zero_byte_def char_of_def)
  ultimately have "of_char c \<noteq> (0 :: nat)" using assms by (metis ascii_def)
  then show "(word_of_nat (of_char c) :: 16 word) \<noteq> 0" using word by (metis unat_0)
qed

lemma wide_str_no_zero: "ascii s \<Longrightarrow> takeWhile (\<lambda>w. w \<noteq> 0) (wide_str s @ rest) = wide_str s @ takeWhile (\<lambda>w. w \<noteq> 0) rest"
  by (rule takeWhile_append2) (auto simp: wide_str_def dest: ascii_char(3))

lemma utf16_Decode_ascii: "\<forall>r \<in> set rs. r < 0xD800 \<Longrightarrow> utf16_Decode rs = rs"
  by (induction rs rule: utf16_Decode.induct) (auto simp: hi_surrogate_def lo_surrogate_def)

lemma utf8_char_ascii: "of_char c < (128 :: nat) \<Longrightarrow> utf8_char (of_char c) = [c]"
  by (simp add: utf8_char_def)

lemma UTF16ToString_ascii:
  assumes "ascii s" "takeWhile (\<lambda>w. w \<noteq> 0) ws = wide_str s"
  shows "UTF16ToString ws = s"
proof -
  have "map unat (wide_str s) = map of_char s"
    by (simp add: wide_str_def ascii_char(2) [OF assms(1)] cong: map_cong)
  moreover have "utf16_Decode (map of_char s) = map of_char s"
    using ascii_char(1) [OF assms(1)] by (intro utf16_Decode_ascii) fastforce
  moreover have "concat (map (\<lambda>c. utf8_char (of_char c)) s) = s"
    by (simp add: utf8_char_ascii ascii_char(1) [OF assms(1)] cong: map_cong)
  ultimately show ?thesis by (simp add: UTF16ToString_def comp_def assms(2))
qed

lemma wide_str_append: "wide_str (s @ t) = wide_str s @ wide_str t"
  by (simp add: wide_str_def)

lemma length_wide_str: "length (wide_str s) = length s"
  by (simp add: wide_str_def)

lemma ascii_dllpath: "ascii (FSP_DLLPATH arch)"
  by (cases arch) (simp_all add: ascii_def FSP_DLLPATH_def FSP_DLLNAME_def zero_byte_def)

text \<open>A value of the registry that is the string \<open>dir\<close> with its zero.\<close>

definition string_value :: "string \<Rightarrow> reg_value" where
  "string_value dir = \<lparr>rv_type = REG_SZ, rv_size = 2 * length dir + 2, rv_data = wide_str dir @ [0]\<rparr>"

lemma reg_ok_string_value: "reg_ok (string_value dir)"
  by (simp add: reg_ok_def string_value_def length_wide_str)

text \<open>With cgo the name of the DLL is appended to the directory, without a separator.\<close>

lemma FspLoad_string:
  assumes "ascii dir" "length dir \<le> 241" "LoadLibraryW (wide_str (FSP_DLLNAME arch)) = None"
  shows "FspLoad arch LoadLibraryW (Some (string_value dir)) =
    (case LoadLibraryW (wide_str (dir @ FSP_DLLPATH arch)) of Some m \<Rightarrow> FspModule m | None \<Rightarrow> Status 0xC0000135)"
proof -
  have "takeWhile (\<lambda>w. w \<noteq> 0) (wide_str dir @ wide_str (FSP_DLLPATH arch)) = wide_str (dir @ FSP_DLLPATH arch)"
    using wide_str_no_zero [OF assms(1)] wide_str_no_zero [OF ascii_dllpath, of arch "[]"] by (simp add: wide_str_append)
  then show ?thesis using assms(2,3)
    by (simp add: FspLoad_def query_value_def dll_lengths string_value_def MAX_PATH_def Let_def length_wide_str nth_append)
qed

lemma fspload_string:
  assumes "ascii dir" "length dir \<le> 259" "LoadDLL (dllname arch) = None"
  shows "fspload arch LoadDLL Join (Some (string_value dir)) =
    (case LoadDLL (Join [dir, ''bin'', dllname arch]) of Some m \<Rightarrow> Loaded m | None \<Rightarrow> NoDll)"
proof -
  have "last_index (2 * length dir + 2) = length dir"
    using assms(2) by (simp add: last_index_def unsigned_of_nat take_bit_nat_eq_self)
  moreover have "UTF16ToString (wide_str dir) = dir"
    using wide_str_no_zero [OF assms(1), of "[]"] by (intro UTF16ToString_ascii assms(1)) simp
  ultimately show ?thesis using assms(2,3)
    by (simp add: fspload_def query_value_def string_value_def MAX_PATH_def Let_def length_wide_str nth_append)
qed

text \<open>
  The two variants of the search find the same DLL: when the registry tells a directory that
  ends in a backslash, so that joining appends nothing but the names, and that leaves room in
  the buffer, both load the same module or none.
\<close>

theorem same_dll:
  assumes "ascii dir" "length dir \<le> 241" "arch \<noteq> OtherArch" "\<forall>s. LoadDLL s = LoadLibraryW (wide_str s)"
    and "Join [dir, ''bin'', dllname arch] = dir @ FSP_DLLPATH arch"
  shows "fspload arch LoadDLL Join (Some (string_value dir)) = Loaded m \<longleftrightarrow>
    FspLoad arch LoadLibraryW (Some (string_value dir)) = FspModule m"
proof -
  have nm: "FSP_DLLNAME arch = dllname arch"
    using assms(3) by (cases arch) (simp_all add: FSP_DLLNAME_def dllname_def)
  show ?thesis
  proof (cases "LoadDLL (dllname arch)")
    case None
    then show ?thesis
      using fspload_string [OF assms(1), of LoadDLL arch Join] FspLoad_string [OF assms(1,2), of LoadLibraryW arch] assms(2,4,5) nm
      by (simp split: option.split)
  qed (use assms(4) nm in \<open>simp add: fspload_def FspLoad_def\<close>)
qed

theorem same_dll_witness:
  "fspload Amd64 (\<lambda>s. if s = ''C:'' @ [CHR 0x5C] @ FSP_DLLPATH Amd64 then Some 7 else None)
     (\<lambda>ss. ''C:'' @ [CHR 0x5C] @ FSP_DLLPATH Amd64) (Some (string_value (''C:'' @ [CHR 0x5C]))) = Loaded 7 \<longleftrightarrow>
   FspLoad Amd64 (\<lambda>w. if w = wide_str (''C:'' @ [CHR 0x5C] @ FSP_DLLPATH Amd64) then Some 7 else None)
     (Some (string_value (''C:'' @ [CHR 0x5C]))) = FspModule 7"
proof -
  have inj: "s = t" if "wide_str s = wide_str t" "ascii t" for s t
  proof -
    have "length s = length t" using that(1) by (metis length_wide_str)
    then show ?thesis using that
    proof (induction s t rule: list_induct2)
      case (Cons x xs y ys)
      have "of_char x mod 65536 = (of_char y mod 65536 :: nat)"
        using Cons.prems(1) by (simp add: wide_str_def word_of_nat_eq_iff take_bit_eq_mod)
      moreover have "of_char x < (256 :: nat)" "of_char y < (256 :: nat)" by simp_all
      ultimately have "of_char x = (of_char y :: nat)" by simp
      then show ?case using Cons by (simp add: wide_str_def ascii_def)
    qed simp
  qed
  have "ascii (''C:'' @ [CHR 0x5C])" by (simp add: ascii_def zero_byte_def)
  moreover have "ascii (''C:'' @ [CHR 0x5C] @ FSP_DLLPATH Amd64)"
    using ascii_dllpath [of Amd64] calculation by (auto simp: ascii_def)
  ultimately show ?thesis
    by (intro same_dll) (auto dest: inj)
qed

section \<open>Initialisation\<close>

text \<open>
  Whatever the first call finds is final: when it found no DLL, every later call says so, also
  after the library has been installed. When a required procedure was missing the first call
  panics, but later calls report success.
\<close>

lemma init_once:
  assumes "c_hostFuseInit loaded has no_dll = (v, r)"
  shows "c_hostFuseInit loaded' has' v = (v, Some (if \<exists>dll. loaded = Loaded dll then 1 else 0)) \<and>
    (r = None \<longleftrightarrow> loaded = FspPanics \<or> (\<exists>dll. loaded = Loaded dll \<and> \<not> list_all (has dll) required_procs)) \<and>
    (r = Some 1 \<longleftrightarrow> set required_procs \<subseteq> set (dl_procs v))"
proof (cases loaded)
  case (Loaded dll)
  have "set required_procs \<subseteq> set (takeWhile (has dll) required_procs) \<longleftrightarrow> list_all (has dll) required_procs"
    by (auto simp: list_all_iff dest: set_takeWhileD) (metis takeWhile_eq_all_conv)
  then show ?thesis using assms Loaded
    by (auto simp: c_hostFuseInit_def no_dll_def find_procs_def Let_def list_all_iff takeWhile_eq_all_conv split: if_splits)
qed (use assms in \<open>auto simp: c_hostFuseInit_def no_dll_def Let_def required_procs_def\<close>)

text \<open>So a DLL without \<open>fuse_main_real\<close> lets a second \<open>Mount\<close> call a procedure that is not set.\<close>

lemma init_after_panic:
  assumes "\<not> has dll ''fuse_main_real''" "c_hostFuseInit (Loaded dll) has no_dll = (v, r)"
  shows "r = None \<and> c_hostFuseInit (Loaded dll) has v = (v, Some 1) \<and> c_hostMount v main argc argv data = None"
proof -
  have "dl_procs v = []" "r = None"
    using assms by (auto simp: c_hostFuseInit_def no_dll_def find_procs_def required_procs_def Let_def)
  then show ?thesis using init_once [OF assms(2)] by (simp add: c_hostMount_def)
qed

text \<open>When the library is there \<open>Mount\<close> gets past its check, and the call of the library answers.\<close>

lemma mount_after_init:
  assumes "c_hostFuseInit loaded has no_dll = (v, Some r)"
  shows "Mount_check True r = None \<longleftrightarrow> (\<exists>dll. loaded = Loaded dll)"
    and "Mount_check True r = None \<Longrightarrow>
      c_hostMount v main argc argv data = Some (if main argc argv data = 0 then 1 else 0)"
proof -
  have r: "r = (if \<exists>dll. loaded = Loaded dll then 1 else 0)"
    using assms by (cases loaded) (auto simp: c_hostFuseInit_def no_dll_def Let_def split: if_splits)
  then show "Mount_check True r = None \<longleftrightarrow> (\<exists>dll. loaded = Loaded dll)" by (simp add: Mount_check_def)
  assume "Mount_check True r = None"
  then have "r = 1" using r by (auto simp: Mount_check_def split: if_splits)
  then have "set required_procs \<subseteq> set (dl_procs v)" using init_once [OF assms] by simp
  then show "c_hostMount v main argc argv data = Some (if main argc argv data = 0 then 1 else 0)"
    by (simp add: c_hostMount_def required_procs_def)
qed

section \<open>Structs and options\<close>

text \<open>The header's types on Windows.\<close>

definition win_stat :: "c_stat \<Rightarrow> fuse_stat" where
  "win_stat g =
     (let time = (\<lambda>t. \<lparr>tv_sec = word_of_int (fst t), tv_nsec = word_of_int (snd t)\<rparr>) in
      \<lparr>c_dev = ucast (g_dev g), c_ino = g_ino g, c_mode = g_mode g, c_nlink = ucast (g_nlink g), c_uid = g_uid g,
       c_gid = g_gid g, c_rdev = ucast (g_rdev g), c_size = g_size g, c_atim = time (g_atim g),
       c_mtim = time (g_mtim g), c_ctim = time (g_ctim g), c_blksize = word_of_int (g_blksize g),
       c_blocks = g_blocks g, c_birthtim = time (case g_birthtim g of Some t \<Rightarrow> t | None \<Rightarrow> (0, 0)),
       c_flags = g_flags g\<rparr>)"

lemma stat_variants:
  "win_stat (hostCstatFromFusestat Windows ex dev ino mode nlink uid gid rdev sz atim mtim ctim blksize blocks birthtim flags) =
   c_hostCstatFromFusestat ex dev ino mode nlink uid gid rdev sz atim mtim ctim blksize blocks birthtim flags"
  by (simp add: win_stat_def hostCstatFromFusestat_def c_hostCstatFromFusestat_def Let_def)

lemma statvfs_variants: "hostCstatvfsFromFusestatfs = c_hostCstatvfsFromFusestatfs"
  by (intro ext) (simp add: hostCstatvfsFromFusestatfs_def c_hostCstatvfsFromFusestatfs_def)

lemma opt_proc_variants: "sint (c_hostOptParseOptProc key) = hostOptParseOptProc (sint (ucast key :: 32 word))"
  by (simp add: c_hostOptParseOptProc_def hostOptParseOptProc_def FUSE_OPT_KEY_NONOPT_def)

text \<open>The table that \<open>OptParse\<close> passes is made of entries set one by one, with an empty one at the end.\<close>

lemma opt_table_entries:
  "opt_table templs = map (\<lambda>i. c_hostOptSet (templs ! i) (i * opt_align) 1) [0..<length templs] @ [c_hostOptSet None 0 0]"
  by (simp add: opt_table_def c_hostOptSet_def)

text \<open>Without cgo notifications go through when the library has them; elsewhere never.\<close>

lemma notify_variants:
  "c_hostNotify v (\<lambda>f p a. word_of_int (nt f p a)) fuse path action =
     hostNotify Windows (if ''fuse_notify'' \<in> set (dl_procs v) then Some nt else None) fuse path action"
  if "- 2147483648 \<le> nt fuse path action" "nt fuse path action < 2147483648"
proof -
  have "(word_of_int (nt fuse path action) :: uintptr64) = 0 \<longleftrightarrow> nt fuse path action = 0"
    using sint_of_int64 [of "nt fuse path action"] that by (force simp: i64_def)
  then show ?thesis by (simp add: c_hostNotify_def hostNotify_def)
qed

end
