(* ===== verification/FuseFlags.thy ===== *)
theory FuseFlags
  imports FuseErrors FuseCgo
begin

text \<open>
  The constants of \<open>fuse/fsop_nocgo_windows.go\<close> that are no error codes, times as in
  \<open>fuse/fsop.go\<close>, and how the error codes of \<open>fuse/fsop_cgo.go\<close> come from a platform's header
  (a parameter: a name's code, if it is defined), with the stand-ins for names that a platform
  does not have.
\<close>

section \<open>Flags\<close>

text \<open>Flags used in FileSystemInterface.Create and FileSystemInterface.Open.\<close>

definition O_RDONLY :: "32 word" where "O_RDONLY = 0x0"
definition O_WRONLY :: "32 word" where "O_WRONLY = 0x1"
definition O_RDWR :: "32 word" where "O_RDWR = 0x2"
definition O_APPEND :: "32 word" where "O_APPEND = 0x8"
definition O_CREAT :: "32 word" where "O_CREAT = 0x100"
definition O_TRUNC :: "32 word" where "O_TRUNC = 0x200"
definition O_EXCL :: "32 word" where "O_EXCL = 0x400"
definition O_ACCMODE :: "32 word" where "O_ACCMODE = O_RDONLY OR O_WRONLY OR O_RDWR"

text \<open>File type and permission bits.\<close>

definition S_IFMT :: "32 word" where "S_IFMT = 0xF000"
definition S_IFBLK :: "32 word" where "S_IFBLK = 0x6000"
definition S_IFCHR :: "32 word" where "S_IFCHR = 0x2000"
definition S_IFIFO :: "32 word" where "S_IFIFO = 0x1000"
definition S_IFLNK :: "32 word" where "S_IFLNK = 0xA000"
definition S_IFSOCK :: "32 word" where "S_IFSOCK = 0xC000"
definition S_IRWXU :: "32 word" where "S_IRWXU = 0x1C0"
definition S_IRUSR :: "32 word" where "S_IRUSR = 0x100"
definition S_IWUSR :: "32 word" where "S_IWUSR = 0x80"
definition S_IXUSR :: "32 word" where "S_IXUSR = 0x40"
definition S_IRWXG :: "32 word" where "S_IRWXG = 0x38"
definition S_IRGRP :: "32 word" where "S_IRGRP = 0x20"
definition S_IWGRP :: "32 word" where "S_IWGRP = 0x10"
definition S_IXGRP :: "32 word" where "S_IXGRP = 0x8"
definition S_IRWXO :: "32 word" where "S_IRWXO = 0x7"
definition S_IROTH :: "32 word" where "S_IROTH = 0x4"
definition S_IWOTH :: "32 word" where "S_IWOTH = 0x2"
definition S_IXOTH :: "32 word" where "S_IXOTH = 0x1"
definition S_ISUID :: "32 word" where "S_ISUID = 0x800"
definition S_ISGID :: "32 word" where "S_ISGID = 0x400"
definition S_ISVTX :: "32 word" where "S_ISVTX = 0x200"

text \<open>BSD file flags (Windows file attributes).\<close>

definition UF_HIDDEN :: "32 word" where "UF_HIDDEN = 0x8000"
definition UF_READONLY :: "32 word" where "UF_READONLY = 0x1000"
definition UF_SYSTEM :: "32 word" where "UF_SYSTEM = 0x80"
definition UF_ARCHIVE :: "32 word" where "UF_ARCHIVE = 0x800"

text \<open>Access flags\<close>

definition F_OK :: "32 word" where "F_OK = 0"
definition R_OK :: "32 word" where "R_OK = 4"
definition W_OK :: "32 word" where "W_OK = 2"
definition X_OK :: "32 word" where "X_OK = 1"
definition DELETE_OK :: "32 word" where "DELETE_OK = 0x40000000"

text \<open>Options that control Setxattr operation.\<close>

definition XATTR_CREATE :: "32 word" where "XATTR_CREATE = 1"
definition XATTR_REPLACE :: "32 word" where "XATTR_REPLACE = 2"

text \<open>Notify actions.\<close>

definition NOTIFY_MKDIR :: "32 word" where "NOTIFY_MKDIR = 0x1"
definition NOTIFY_RMDIR :: "32 word" where "NOTIFY_RMDIR = 0x2"
definition NOTIFY_CREATE :: "32 word" where "NOTIFY_CREATE = 0x4"
definition NOTIFY_UNLINK :: "32 word" where "NOTIFY_UNLINK = 0x8"
definition NOTIFY_CHMOD :: "32 word" where "NOTIFY_CHMOD = 0x10"
definition NOTIFY_CHOWN :: "32 word" where "NOTIFY_CHOWN = 0x20"
definition NOTIFY_UTIME :: "32 word" where "NOTIFY_UTIME = 0x40"
definition NOTIFY_CHFLAGS :: "32 word" where "NOTIFY_CHFLAGS = 0x80"
definition NOTIFY_TRUNCATE :: "32 word" where "NOTIFY_TRUNCATE = 0x100"

lemmas flag_defs =
  O_RDONLY_def O_WRONLY_def O_RDWR_def O_APPEND_def O_CREAT_def O_TRUNC_def O_EXCL_def
  O_ACCMODE_def S_IFMT_def S_IFBLK_def S_IFCHR_def S_IFIFO_def S_IFREG_def S_IFDIR_def
  S_IFLNK_def S_IFSOCK_def S_IRWXU_def S_IRUSR_def S_IWUSR_def S_IXUSR_def S_IRWXG_def
  S_IRGRP_def S_IWGRP_def S_IXGRP_def S_IRWXO_def S_IROTH_def S_IWOTH_def S_IXOTH_def S_ISUID_def
  S_ISGID_def S_ISVTX_def UF_HIDDEN_def UF_READONLY_def UF_SYSTEM_def UF_ARCHIVE_def F_OK_def
  R_OK_def W_OK_def X_OK_def DELETE_OK_def XATTR_CREATE_def XATTR_REPLACE_def NOTIFY_MKDIR_def
  NOTIFY_RMDIR_def NOTIFY_CREATE_def NOTIFY_UNLINK_def NOTIFY_CHMOD_def NOTIFY_CHOWN_def
  NOTIFY_UTIME_def NOTIFY_CHFLAGS_def NOTIFY_TRUNCATE_def

text \<open>\<open>S_IFMT\<close> tells the types apart, whatever the permissions.\<close>

definition file_types :: "32 word list" where
  "file_types = [S_IFBLK, S_IFCHR, S_IFIFO, S_IFREG, S_IFDIR, S_IFLNK, S_IFSOCK]"

definition permissions :: "32 word" where
  "permissions = S_IRWXU OR S_IRWXG OR S_IRWXO OR S_ISUID OR S_ISGID OR S_ISVTX"

lemma file_types_distinct: "distinct file_types"
  by (simp add: file_types_def flag_defs)

lemma file_type_of_mode:
  assumes "t \<in> set file_types"
  shows "(t OR (perm AND permissions)) AND S_IFMT = t"
proof -
  have "permissions AND S_IFMT = 0" by (simp add: permissions_def flag_defs)
  then have "(perm AND permissions) AND S_IFMT = 0" by (simp add: and.assoc)
  moreover have "t AND S_IFMT = t" using assms by (auto simp: file_types_def flag_defs)
  ultimately show ?thesis by (simp add: bit.conj_disj_distrib2)
qed

text \<open>The modes that this program reports.\<close>

lemma mode_777_parts: "mode_777 = S_IRWXU OR S_IRWXG OR S_IRWXO"
  by (simp add: mode_777_def flag_defs)

lemma reported_types:
  "(S_IFREG OR mode_777) AND S_IFMT = S_IFREG" "(S_IFDIR OR mode_777) AND S_IFMT = S_IFDIR"
  by (simp_all add: mode_777_def flag_defs)

text \<open>Each group of permissions is the union of its three bits.\<close>

lemma permission_groups:
  "S_IRWXU = S_IRUSR OR S_IWUSR OR S_IXUSR" "S_IRWXG = S_IRGRP OR S_IWGRP OR S_IXGRP"
  "S_IRWXO = S_IROTH OR S_IWOTH OR S_IXOTH"
  by (simp_all add: flag_defs)

text \<open>Notify actions can be combined: no two share a bit.\<close>

definition notify_actions :: "32 word list" where
  "notify_actions = [NOTIFY_MKDIR, NOTIFY_RMDIR, NOTIFY_CREATE, NOTIFY_UNLINK, NOTIFY_CHMOD, NOTIFY_CHOWN,
     NOTIFY_UTIME, NOTIFY_CHFLAGS, NOTIFY_TRUNCATE]"

lemma notify_actions_bits: "sorted_wrt (\<lambda>a b. a AND b = 0) notify_actions"
  by (simp add: notify_actions_def flag_defs)

section \<open>Times\<close>

text \<open>\<open>time.Unix\<close> moves whole seconds out of the nanoseconds.\<close>

definition Timespec_Time :: "Timespec \<Rightarrow> Time" where
  "Timespec_Time ts = (ts_Sec ts + ts_Nsec ts div 1000000000, ts_Nsec ts mod 1000000000)"

definition Timespec_Now :: "Time \<Rightarrow> Timespec" where
  "Timespec_Now clock = NewTimespec clock"

lemma NewTimespec_Time: "0 \<le> snd t \<Longrightarrow> snd t < 1000000000 \<Longrightarrow> Timespec_Time (NewTimespec t) = t"
  by (cases t) (simp add: Timespec_Time_def NewTimespec_def)

section \<open>Error codes from C\<close>

definition windows_defines :: "(string \<times> int) list" where
  "windows_defines =
    [(''EPERM'', 1), (''ENOENT'', 2), (''ESRCH'', 3), (''EINTR'', 4), (''EIO'', 5), (''ENXIO'', 6),
     (''E2BIG'', 7), (''ENOEXEC'', 8), (''EBADF'', 9), (''ECHILD'', 10), (''EAGAIN'', 11),
     (''ENOMEM'', 12), (''EACCES'', 13), (''EFAULT'', 14), (''EBUSY'', 16), (''EEXIST'', 17),
     (''EXDEV'', 18), (''ENODEV'', 19), (''ENOTDIR'', 20), (''EISDIR'', 21), (''ENFILE'', 23),
     (''EMFILE'', 24), (''ENOTTY'', 25), (''EFBIG'', 27), (''ENOSPC'', 28), (''ESPIPE'', 29),
     (''EROFS'', 30), (''EMLINK'', 31), (''EPIPE'', 32), (''EDOM'', 33), (''EDEADLK'', 36),
     (''ENAMETOOLONG'', 38), (''ENOLCK'', 39), (''ENOSYS'', 40), (''ENOTEMPTY'', 41),
     (''EINVAL'', 22), (''ERANGE'', 34), (''EILSEQ'', 42), (''EADDRINUSE'', 100),
     (''EADDRNOTAVAIL'', 101), (''EAFNOSUPPORT'', 102), (''EALREADY'', 103), (''EBADMSG'', 104),
     (''ECANCELED'', 105), (''ECONNABORTED'', 106), (''ECONNREFUSED'', 107), (''ECONNRESET'', 108),
     (''EDESTADDRREQ'', 109), (''EHOSTUNREACH'', 110), (''EIDRM'', 111), (''EINPROGRESS'', 112),
     (''EISCONN'', 113), (''ELOOP'', 114), (''EMSGSIZE'', 115), (''ENETDOWN'', 116),
     (''ENETRESET'', 117), (''ENETUNREACH'', 118), (''ENOBUFS'', 119), (''ENODATA'', 120),
     (''ENOLINK'', 121), (''ENOMSG'', 122), (''ENOPROTOOPT'', 123), (''ENOSR'', 124),
     (''ENOSTR'', 125), (''ENOTCONN'', 126), (''ENOTRECOVERABLE'', 127), (''ENOTSOCK'', 128),
     (''ENOTSUP'', 129), (''EOPNOTSUPP'', 130), (''EOTHER'', 131), (''EOVERFLOW'', 132),
     (''EOWNERDEAD'', 133), (''EPROTO'', 134), (''EPROTONOSUPPORT'', 135), (''EPROTOTYPE'', 136),
     (''ETIME'', 137), (''ETIMEDOUT'', 138), (''ETXTBSY'', 139), (''EWOULDBLOCK'', 140)]"

definition cgo_errno :: "platform \<Rightarrow> (string \<Rightarrow> int option) \<Rightarrow> string \<Rightarrow> int option" where
  "cgo_errno pl header name = (case pl of
     Darwin \<Rightarrow> header name
   | Linux \<Rightarrow> if name = ''ENOATTR'' then header ''ENODATA'' else header name
   | Windows \<Rightarrow> map_of windows_defines (if name = ''ENOATTR'' then ''ENODATA'' else name)
   | NetBSD \<Rightarrow> if name \<in> {''ENOTRECOVERABLE'', ''EOWNERDEAD''} then header ''EINVAL'' else header name
   | _ \<Rightarrow>
       if name = ''ETIME'' then header ''ETIMEDOUT''
       else if name = ''ENODATA'' then header ''ENOATTR''
       else if name \<in> {''ENOSTR'', ''ENOSR''} then header ''EINVAL''
       else if name = ''ENOLINK'' \<and> header ''ENOLINK'' = None then header ''ENOENT''
       else header name)"

text \<open>On Windows both builds have the same codes.\<close>

lemma windows_defines_codes:
  "list_all (\<lambda>(code, name). map_of windows_defines (if name = ''ENOATTR'' then ''ENODATA'' else name) = Some code) errorStrings"
  by code_simp

lemma windows_errno_variants:
  "list_all (\<lambda>(code, name). cgo_errno Windows header name = Some code) errorStrings"
  using windows_defines_codes by (simp add: cgo_errno_def)

text \<open>The table of names with the codes of a build, and the map built from it.\<close>

definition error_table :: "(string \<Rightarrow> int option) \<Rightarrow> (int \<times> string) list" where
  "error_table err = map (\<lambda>(code, name). (the (err name), name)) errorStrings"

definition string_map :: "(int \<times> string) list \<Rightarrow> (int \<times> string) list" where
  "string_map tbl = fold (\<lambda>(errc, errs) m. AList.update (- errc) errs m) tbl []"

lemma string_map_errorStrings: "string_map errorStrings = errorStringMap"
  by (simp add: string_map_def errorStringMap_def)

lemma string_map_last:
  assumes "c \<notin> fst ` set ys"
  shows "map_of (string_map (xs @ (c, name) # ys)) (- c) = Some name"
proof -
  have "map_of (fold (\<lambda>(errc, errs) m. AList.update (- errc) errs m) ys m) (- c) = map_of m (- c)" for m
    using assms by (induction ys arbitrary: m) (auto simp: update_conv')
  then show ?thesis by (simp add: string_map_def update_conv')
qed

text \<open>
  On FreeBSD and OpenBSD the stand-ins for \<open>ENOSR\<close> and \<open>ENOSTR\<close> take the name of \<open>EINVAL\<close>, which
  comes before them in the table.
\<close>

lemma EINVAL_renamed:
  assumes "pl = FreeBSD \<or> pl = OpenBSD" "header ''EINVAL'' = Some c"
    and "\<forall>name \<noteq> ''EINVAL''. header name \<noteq> Some c"
    and "\<forall>(code, name) \<in> set errorStrings. cgo_errno pl header name \<noteq> None"
  shows "map_of (string_map (error_table (cgo_errno pl header))) (- c) = Some ''ENOSTR''"
proof -
  let ?err = "\<lambda>name. the (cgo_errno pl header name)"
  obtain xs ys where split: "errorStrings = xs @ (ENOSTR, ''ENOSTR'') # ys" "''ENOSR'' \<notin> snd ` set ys"
    "''ENOSTR'' \<notin> snd ` set ys" "''EINVAL'' \<notin> snd ` set ys"
  proof
    show "errorStrings = takeWhile (\<lambda>e. snd e \<noteq> ''ENOSTR'') errorStrings @
        (ENOSTR, ''ENOSTR'') # tl (dropWhile (\<lambda>e. snd e \<noteq> ''ENOSTR'') errorStrings)"
      by (simp add: errorStrings_def)
  qed (simp_all add: errorStrings_def)
  have ENOSTR: "?err ''ENOSTR'' = c" using assms(1,2) by (auto simp: cgo_errno_def)
  have later: "?err name \<noteq> c" if "(code, name) \<in> set ys" for code name
  proof -
    have names: "name \<noteq> ''ENOSR''" "name \<noteq> ''ENOSTR''" "name \<noteq> ''EINVAL''" using split that by force+
    have "cgo_errno pl header name \<noteq> Some c"
    proof (cases "name = ''ETIME'' \<or> name = ''ENODATA'' \<or> name = ''ENOLINK'' \<and> header name = None")
      case True
      have "header ''ETIMEDOUT'' \<noteq> Some c" "header ''ENOATTR'' \<noteq> Some c" "header ''ENOENT'' \<noteq> Some c"
        by (rule assms(3) [rule_format], simp)+
      with True show ?thesis using assms(1) unfolding cgo_errno_def by (elim disjE conjE) simp_all
    next
      case False
      then have "name \<noteq> ''ETIME''" "name \<noteq> ''ENODATA''" "\<not> (name = ''ENOLINK'' \<and> header ''ENOLINK'' = None)"
        by blast+
      with names have "cgo_errno pl header name = header name"
        using assms(1) unfolding cgo_errno_def by (cases "name = ''ENOLINK''"; elim disjE; cases "header ''ENOLINK''") simp_all
      then show ?thesis using assms(3) names(3) by simp
    qed
    moreover have "(code, name) \<in> set errorStrings" unfolding split(1) using that by simp
    then have "cgo_errno pl header name \<noteq> None" using assms(4) by blast
    ultimately show ?thesis by auto
  qed
  let ?f = "\<lambda>(code, name). (?err name, name)"
  have table: "error_table (cgo_errno pl header) = map ?f xs @ (c, ''ENOSTR'') # map ?f ys"
    unfolding error_table_def split(1) by (simp add: ENOSTR)
  have "c \<notin> fst ` set (map ?f ys)" using later by fastforce
  then show ?thesis unfolding table by (rule string_map_last)
qed

end
