(* ===== verification/Spec2Isabelle.thy ===== *)
theory Spec2Isabelle
  imports ContentProps NameProps TransferProps LogProps OptProps MountProps CgoProps CallbackProps StartProps SessionProps ClientProps
    MapIter DiskReaders LibraryProps FuseFlags
begin

text \<open>
  A model of dsfs, a FUSE file system that keeps its files in a Discord server: file contents
  are cut into blocks and posted as attachments to a data channel, and a log of transactions
  (one JSON line per change of a path) is posted to a transaction channel. A client replays the
  log at start-up into a database, downloads the blocks of a file when it is opened, and
  uploads changed blocks and a transaction when it is released.

  The parts of the program and the theories that model them.

  \<^item> \<open>load.go\<close>: \<open>LoadRanges\<close>. The byte ranges of a file that hold real data: \<open>addRange\<close>,
    \<open>removeRange\<close>, \<open>truncate\<close> (with the panic of its loop), \<open>isReady\<close>, \<open>bytesReady\<close>, and the set
    of bytes they stand for.
  \<^item> \<open>cache.go\<close>: \<open>CacheStore\<close>. \<open>MemoryCache\<close> as a Go slice with its capacity, \<open>DiskCache\<close> as a
    file of the operating system; the locale \<open>cache_contract\<close>. \<open>DiskReaders\<close>: several readers of
    one file at once.
  \<^item> \<open>utils.go\<close>, \<open>common.go\<close>: \<open>GoPath\<close> (with \<open>filepath.Dir\<close> and \<open>Base\<close> on both platforms) and
    \<open>TxModel\<close>.
  \<^item> \<open>db.go\<close>, first part: \<open>DbStore\<close>. \<open>RadixDB\<close> and \<open>MapDB\<close>; the locale \<open>db_contract\<close>.
    \<open>MapIter\<close>: the goroutine behind an iterator of \<open>MapDB\<close>, beside its caller.
  \<^item> \<open>fs.go\<close>: \<open>Dsfs\<close> (state, names, attributes), \<open>FileOps\<close> (content), \<open>Sync\<close> (the goroutines:
    download, upload, live patches), \<open>FsSystem\<close> (everything together as a transition system).
  \<^item> \<open>writer.go\<close>: \<open>WriterQueue\<close>, the queue that gathers items into messages; \<open>WriterClients\<close>, the
    callers that wait for it (\<open>sendToQueue\<close>, \<open>SendTx\<close>, \<open>SendData\<close>).
  \<^item> \<open>tx.go\<close>, \<open>db.go\<close>, second part: \<open>TxLog\<close>. Replay, live messages, channels, history,
    compaction, pins.
  \<^item> \<open>main.go\<close>, \<open>opts.go\<close>: \<open>Start\<close> and \<open>FuseOpt\<close>. How the parts are put together.
  \<^item> \<open>fuse/fsop.go\<close>, \<open>fuse/errstr.go\<close>, \<open>fuse/fsop_nocgo_windows.go\<close>, \<open>fuse/fsop_cgo.go\<close>:
    \<open>FuseTypes\<close>, \<open>FuseErrors\<close>, \<open>FuseFlags\<close> (flags, times, the error codes of the builds with cgo),
    \<open>FuseBase\<close> (the interface as a record of methods, its defaults, and \<open>dsfs_ops\<close>).
  \<^item> \<open>fuse/host.go\<close>: \<open>FuseHost\<close> (the handlers the C library calls), \<open>FuseOpt\<close> (the command line,
    \<open>OptParse\<close>), \<open>FuseMount\<close> (handles, \<open>Mount\<close>, \<open>Unmount\<close>, signals).
  \<^item> \<open>fuse/host_nocgo_windows.go\<close>: \<open>FuseC\<close>, \<open>FuseHost\<close>, \<open>FuseCallbacks\<close> (64-bit and 32-bit);
    \<open>fuse/host_cgo.go\<close>: \<open>FuseCgo\<close> (loading the library, unmounting). Both: \<open>FuseTables\<close> (the
    tables of callbacks and what is exported to C) and \<open>FuseLibrary\<close> (the DLL of Windows).

  State. A \<open>Dsfs\<close> holds the database, the map of open files, and a heap of \<open>FileData\<close> objects,
  since goroutines keep pointers to files whose names change. A method is one function on this
  state with the outcome \<open>Ret\<close> (new state, result, goroutines started), \<open>Panics\<close> (the state a
  panic leaves, with the locks it leaves taken) or \<open>Blocks\<close> (on such a lock). A goroutine is a
  \<open>task\<close> whose steps are what it does under one lock; \<open>sys_step\<close> interleaves calls, steps of
  tasks and transactions of other clients. While \<open>Read\<close> waits for bytes, the other goroutines
  change its file as the argument \<open>bg\<close> says. \<open>Rename\<close> has two critical sections:
  besides \<open>Rename\<close>, the call as one, the model has its parts, and \<open>sys_step\<close> lets other steps
  come between them; \<open>Rename_run\<close> shows that the call as one is a run of the parts. Two
  renames of one name at the same time, which would share a transaction, are left out.

  The reading of a range of a cache is one step there, as it is for the memory cache;
  \<open>DiskReaders\<close> shows what several readers of one file on disk do to each other, and \<open>MapIter\<close>
  that taking an iterator as a list, as the methods do, gives the result of the goroutine.

  Parameters. Code that is not part of the repository is an argument of the model, with its
  documented laws as hypotheses (\<open>env_ok\<close>): the radix tree (\<open>iradix_laws\<close>), the limit writer
  (\<open>limitwriter_ok\<close>), the sort (\<open>sort_ok\<close>), the order of a Go map (\<open>order_ok\<close>), the checksum,
  the JSON encoder and decoder, the chat service and the download of attachments (\<open>net\<close>,
  \<open>chat\<close>), the FUSE library (its option parser, its calls back) and the operating system.
  \<open>Sample\<close> instantiates them all, and the witnesses of the properties run on that instance.

  Several clients. \<open>Clients\<close> and \<open>ClientLog\<close> put a client beside the log
  it shares with others: a run of a client with what it has sent (\<open>logged_step\<close>), and
  what a client that listens makes of a message (\<open>hears\<close>). \<open>LivePatch\<close> is
  what such a message does to an open file.

  What the lemmas show. \<open>FsInvariant\<close>: each method and each step keeps the state
  well-formed (\<open>fs_ok\<close>). \<open>FileContent\<close>, \<open>FileTruncate\<close>: each
  method on an open file against an abstract view of it, its bytes and which of them are real
  (\<open>view\<close>). \<open>Namespace\<close>, \<open>Listing\<close>, \<open>NameTree\<close>:
  the names that are stored and seen, and the tree they form. \<open>BlockTransfer\<close>:
  undisturbed downloads and uploads. \<open>TxReplay\<close>: replay and compaction of the log.
  \<open>SessionSpec\<close> states what a file system promises, as a function on trees of folders
  and files, and \<open>Session\<close> that this one keeps it for a lone client.
  \<open>FuseLaws\<close>: the way to C and back. \<open>Machine\<close>: the locale
  \<open>machine\<close> of transition systems with an invariant, interpreted on the file system,
  its names, the queue, the queue with its callers, the iterator, readers of a file, a client with
  its log, mounting, and the loader of the library; and the locale \<open>refines\<close> of
  programs that answer as a specification does, interpreted on sessions. The properties are in
  \<open>ContentProps\<close>, \<open>NameProps\<close>, \<open>TransferProps\<close>,
  \<open>LogProps\<close>, \<open>ClientProps\<close>, \<open>SessionProps\<close>,
  \<open>StartProps\<close>, \<open>MapIter\<close>, \<open>DiskReaders\<close>,
  \<open>MountProps\<close>, \<open>OptProps\<close>, \<open>CgoProps\<close>,
  \<open>CallbackProps\<close>, \<open>LibraryProps\<close>, and, where they span components, here.
  The most important: every reachable state is well-formed; a session of a lone client is answered
  as the specification answers it; what is written is read back, through the C handlers too; what
  one client uploads another downloads, and a message brings an open copy up to date; what a read
  returns is real data; names stay a tree and listings are exact; the database is what the log says,
  and the log tells the client's names. Some properties state where the code fails: a truncation
  that panics with a lock taken, new zeros that cannot be read, writes and renames during an upload
  that are forgotten, transactions that overtake each other or are lost in compaction, clients that
  diverge, batches above the limits, readers that get each other's bytes, an iterator that goes on
  without the lock.

  Integers. Offsets and sizes are \<open>int64\<close>: \<open>int\<close> with the wrap-around of
  \<open>add64\<close>, \<open>sub64\<close> and \<open>mul64\<close> written out, and
  \<open>i64\<close> for being in range. Modes, handles and the structures of C are words of their
  width; Go's \<open>len\<close> is a \<open>nat\<close>.

  Bounds. \<open>read_wait\<close> ends after the 20 retries of the code. \<open>fetch_all\<close>
  has fuel, one unit per request; \<open>fetch_reads_all\<close> shows that as many as there are
  full pages, and one more, suffice. All other loops are structural or have a measure.

  Not modelled. Time: waits, timeouts and the poll interval are steps without a length. Errors of
  the temporary file of a disk cache; races on the order of load ranges; the memory model of Go (a
  race is shown as a state in which two goroutines may touch the map, not as what the runtime does
  then). Logging, the flags' texts and the debug server. The wording of requests to the chat
  service. Of the FUSE package: the layouts of structs and the values of constants in the platforms'
  C headers (parameters), the allocation of C memory, the Go functions of
  \<open>fuse/host_cgo.go\<close> whose body is the call of the C function of the same name, and
  file locks, which the source has commented out. What is left of the source beyond that are
  comments and declarations.\<close>

section \<open>The file system as a whole\<close>



section \<open>Through the host layer\<close>

text \<open>
  C17. From C to the file and back: through the handlers that the FUSE library calls, a new file
  is created (which takes \<open>Mknod\<close> and \<open>Open\<close>, since \<open>Create\<close> is not implemented) and gets a
  handle; bytes written to it come back from a read of the same range; each handler
  returns the count the kernel expects.
\<close>

theorem host_create_write_read:
  assumes "env_ok E" "fs_ok E (sy_fs y)" "\<not> fs_locked (sy_fs y)" "GetNewCache (sy_fs y) \<noteq> None"
    and "go_get (fs_open (sy_fs y)) (c_GoString path0) = None"
    and "get E (sy_fs y) (getDir (env_win E) (c_GoString path0)) \<noteq> None"
    and "get E (sy_fs y) (c_GoString path0) = None"
    and "data \<noteq> []" "length data \<le> buffer_limit" "length buff = length data"
    and "0 \<le> ofst" "i64 (ofst + int (length data))"
  shows "\<exists>y1 y2 y3. hostCreate (dsfs_ops E now bg) path0 mode0 fi0 y = Host y1 (fi0\<lparr>c_fi_fh := 1\<rparr>) 0 \<and>
    hostWrite (dsfs_ops E now bg) path0 data ofst (fi0\<lparr>c_fi_fh := 1\<rparr>) y1 = Host y2 () (int (length data)) \<and>
    hostRead (dsfs_ops E now bg) path0 buff ofst (fi0\<lparr>c_fi_fh := 1\<rparr>) y2 = Host y3 data (int (length data))"
proof -
  obtain y1 where y1: "hostCreate (dsfs_ops E now bg) path0 mode0 fi0 y = Host y1 (fi0\<lparr>c_fi_fh := 1\<rparr>) 0"
    "usable (sy_fs y1) (c_GoString path0)" "fs_ok E (sy_fs y1)"
    using fuse_create [OF assms(1-7)] by blast
  obtain s1 s2 where rw: "Write E now (c_GoString path0) data ofst (sy_fs y1) = Ret s1 (int (length data)) []"
    "Read E bg (c_GoString path0) buff ofst s1 = Ret s2 (int (length data), data) []"
    using write_then_read [OF assms(1) y1(3,2) assms(11,12,8,10)] by blast
  have c: "c_int (int (length data)) = int (length data)"
    using assms(9) by (intro c_int_id) (simp_all add: buffer_limit_def)
  have "hostWrite (dsfs_ops E now bg) path0 data ofst fi y1 = Host (y1\<lparr>sy_fs := s1\<rparr>) () (int (length data))" for fi
    using host_write [OF rw(1) assms(9)] c by simp
  moreover have "hostRead (dsfs_ops E now bg) path0 buff ofst fi (y1\<lparr>sy_fs := s1\<rparr>) =
      Host (y1\<lparr>sy_fs := s2\<rparr>) data (int (length data))" for fi
    using host_read [of E bg path0 buff ofst "y1\<lparr>sy_fs := s1\<rparr>" s2 "int (length data)" data now fi] rw(2) assms(9,10) c by simp
  ultimately show ?thesis using y1(1) by blast
qed

theorem host_create_write_read_witness:
  "\<exists>y1 y2 y3. hostCreate (dsfs_ops sample_env (5, 0) (\<lambda>k f. f)) (Some (''/h'' @ [zero_byte])) 0 \<lparr>c_fi_flags = 0, c_fi_bits = 0, c_fi_fh = 0\<rparr> (boot (sample_fs [] [])) = Host y1 \<lparr>c_fi_flags = 0, c_fi_bits = 0, c_fi_fh = 1\<rparr> 0 \<and>
    hostWrite (dsfs_ops sample_env (5, 0) (\<lambda>k f. f)) (Some (''/h'' @ [zero_byte])) ''xy'' 3 \<lparr>c_fi_flags = 0, c_fi_bits = 0, c_fi_fh = 1\<rparr> y1 = Host y2 () 2 \<and>
    hostRead (dsfs_ops sample_env (5, 0) (\<lambda>k f. f)) (Some (''/h'' @ [zero_byte])) ''..'' 3 \<lparr>c_fi_flags = 0, c_fi_bits = 0, c_fi_fh = 1\<rparr> y2 = Host y3 ''xy'' 2"
proof -
  have path: "c_GoString (Some (''/h'' @ [zero_byte])) = ''/h''"
    by (simp add: c_GoString_def zero_byte_def)
  have ok: "fs_ok sample_env (sy_fs (boot (sample_fs [] [])))"
    unfolding boot_def by (simp add: i64_def)
  show ?thesis
    using host_create_write_read [OF sample_env_ok ok, of "Some (''/h'' @ [zero_byte])" "''xy''" "''..''" 3 "(5, 0)" "\<lambda>k f. f" 0 "\<lparr>c_fi_flags = 0, c_fi_bits = 0, c_fi_fh = 0\<rparr>"]
    unfolding path by (simp add: boot_def buffer_limit_def i64_def)
qed

text \<open>
  Errors have their names: for each code of the table, the text of the negated code is
  \<open>-fuse.\<close> and its name; the code that two names share, \<open>ENOATTR\<close> and \<open>ENODATA\<close>, prints as the
  one that comes later in the table.
\<close>

theorem error_names:
  "list_all (\<lambda>(code, name). Error_String (- code) = ''-fuse.'' @ (if code = ENOATTR then ''ENODATA'' else name)) errorStrings"
  using errorStrings_codes names_lookup
  by (auto simp: list_all_iff Error_String_def Error_Error_def errorStringMap_lookup)

end
